(* ===== verification/Prelude.thy ===== *)
theory Prelude
  imports
    Main
    "HOL-Library.AList"
    "HOL-Library.Word"
    "HOL-Library.Char_ord"
    "HOL-Library.List_Lexorder"
    "HOL-Library.Product_Lexorder"
begin

text \<open>
  Shared ground of the development: Go's 64-bit integers, instants and durations of package
  \<open>time\<close>, Go maps and the results of fallible functions, with the lemmas the component
  theories use.

  \<^item> \<open>int\<close>, \<open>int64\<close> and \<open>time.Duration\<close> of the source are HOL integers; an operation that
    can leave the 64-bit range is written with \<open>iadd\<close>, \<open>isub\<close> or \<open>imul\<close>, which wrap around.
  \<^item> \<open>time.Time\<close> is the number of nanoseconds since the Unix epoch. The zero \<open>Time\<close> of Go
    (1 January of year 1) is the instant \<open>zero_time\<close>.
  \<^item> A Go map is an association list with distinct keys. Looking up is \<open>map_of\<close>, assigning is
    \<open>mput\<close>, \<open>delete\<close> is \<open>mdel\<close>, and \<open>range\<close> visits the entries in list order.
  \<^item> A function returning \<open>(value, error)\<close> returns a value of type \<open>'a result\<close>.
\<close>

named_theorems go_int \<open>64-bit arithmetic\<close>
named_theorems go_map \<open>Go maps\<close>
named_theorems go_str \<open>strings, strconv and fmt\<close>

section \<open>Integers\<close>

definition int64_ok :: "int \<Rightarrow> bool" where
  "int64_ok x \<longleftrightarrow> - (2 ^ 63) \<le> x \<and> x < 2 ^ 63"

definition wrap64 :: "int \<Rightarrow> int" where
  "wrap64 x = (x + 2 ^ 63) mod 2 ^ 64 - 2 ^ 63"

definition iadd :: "int \<Rightarrow> int \<Rightarrow> int" where
  "iadd a b = wrap64 (a + b)"

definition isub :: "int \<Rightarrow> int \<Rightarrow> int" where
  "isub a b = wrap64 (a - b)"

definition imul :: "int \<Rightarrow> int \<Rightarrow> int" where
  "imul a b = wrap64 (a * b)"

section \<open>Time\<close>

definition zero_time :: int where
  "zero_time = - 62135596800000000000"

definition time_IsZero :: "int \<Rightarrow> bool" where
  "time_IsZero t \<longleftrightarrow> t = zero_time"

text \<open>\<open>t.Sub(u)\<close> saturates at the extreme durations.\<close>

definition time_Sub :: "int \<Rightarrow> int \<Rightarrow> int" where
  "time_Sub t u = max (- (2 ^ 63)) (min (2 ^ 63 - 1) (t - u))"

definition time_UnixMilli :: "int \<Rightarrow> int" where
  "time_UnixMilli t = t div 1000000"

definition time_fromUnixMilli :: "int \<Rightarrow> int" where
  "time_fromUnixMilli ms = ms * 1000000"

abbreviation Millisecond :: int where
  "Millisecond \<equiv> 1000000"

abbreviation Second :: int where
  "Second \<equiv> 1000000000"

section \<open>Results\<close>

type_synonym 'a result = "string + 'a"

text \<open>Going on unless an error was raised, for errors of any type.\<close>

fun andThen :: "'e + 'a \<Rightarrow> ('a \<Rightarrow> 'e + 'b) \<Rightarrow> 'e + 'b" where
  "andThen (Inl e) f = Inl e"
| "andThen (Inr x) f = f x"

section \<open>Maps\<close>

type_synonym ('k, 'v) gomap = "('k \<times> 'v) list"

definition mput :: "'k \<Rightarrow> 'v \<Rightarrow> ('k, 'v) gomap \<Rightarrow> ('k, 'v) gomap" where
  "mput k v m = AList.update k v m"

definition mdel :: "'k \<Rightarrow> ('k, 'v) gomap \<Rightarrow> ('k, 'v) gomap" where
  "mdel k m = AList.delete k m"

abbreviation mkeys :: "('k, 'v) gomap \<Rightarrow> 'k list" where
  "mkeys m \<equiv> map fst m"

abbreviation mwf :: "('k, 'v) gomap \<Rightarrow> bool" where
  "mwf m \<equiv> distinct (mkeys m)"

text \<open>
  Two-level maps \<open>map[A]map[B]V\<close>. \<open>mput2\<close> is the source's idiom of creating the inner map when
  it is missing and then assigning in it.
\<close>

definition mget2 :: "('a, ('b, 'v) gomap) gomap \<Rightarrow> 'a \<Rightarrow> 'b \<Rightarrow> 'v option" where
  "mget2 m a b = Option.bind (map_of m a) (\<lambda>n. map_of n b)"

definition mput2 :: "'a \<Rightarrow> 'b \<Rightarrow> 'v \<Rightarrow> ('a, ('b, 'v) gomap) gomap \<Rightarrow> ('a, ('b, 'v) gomap) gomap" where
  "mput2 a b v m = mput a (mput b v (case map_of m a of None \<Rightarrow> [] | Some n \<Rightarrow> n)) m"

definition mkeys2 :: "('a, ('b, 'v) gomap) gomap \<Rightarrow> ('a \<times> 'b) list" where
  "mkeys2 m = concat (map (\<lambda>(a, n). map (Pair a) (mkeys n)) m)"

definition mwf2 :: "('a, ('b, 'v) gomap) gomap \<Rightarrow> bool" where
  "mwf2 m \<longleftrightarrow> mwf m \<and> (\<forall>(a, n) \<in> set m. mwf n)"

section \<open>Lemmas on integers and time\<close>

lemma wrap64_id [simp, go_int]: "int64_ok x \<Longrightarrow> wrap64 x = x"
  by (simp add: int64_ok_def wrap64_def)

lemma int64_ok_wrap64 [simp]: "int64_ok (wrap64 x)"
  by (simp add: int64_ok_def wrap64_def)

lemma wrap64_sint: "wrap64 x = sint (word_of_int x :: 64 word)"
  by (simp add: wrap64_def sint_uint signed_take_bit_eq_take_bit_shift uint_word_of_int
      take_bit_eq_mod mod_simps)

lemma iadd_id [go_int]: "int64_ok (a + b) \<Longrightarrow> iadd a b = a + b"
  by (simp add: iadd_def)

lemma isub_id [go_int]: "int64_ok (a - b) \<Longrightarrow> isub a b = a - b"
  by (simp add: isub_def)

lemma imul_id [go_int]: "int64_ok (a * b) \<Longrightarrow> imul a b = a * b"
  by (simp add: imul_def)

lemma int64_ok_small [intro]: "- 9223372036854775808 \<le> x \<Longrightarrow> x \<le> 9223372036854775807 \<Longrightarrow> int64_ok x"
  by (simp add: int64_ok_def)

lemma time_Sub_le_iff:
  "- (2 ^ 63) \<le> d \<Longrightarrow> d < 2 ^ 63 - 1 \<Longrightarrow> time_Sub t u \<le> d \<longleftrightarrow> t - u \<le> d"
  by (auto simp: time_Sub_def)

lemma time_Sub_self [simp]: "time_Sub t t = 0"
  by (simp add: time_Sub_def)

lemma time_UnixMilli_le: "time_fromUnixMilli (time_UnixMilli t) \<le> t"
  by (simp add: time_fromUnixMilli_def time_UnixMilli_def)

lemma time_UnixMilli_idem [simp]: "time_UnixMilli (time_fromUnixMilli ms) = ms"
  by (simp add: time_fromUnixMilli_def time_UnixMilli_def)

section \<open>Lemmas on maps\<close>

lemma map_of_mput [simp, go_map]: "map_of (mput k v m) k' = (if k' = k then Some v else map_of m k')"
  by (simp add: mput_def update_conv)

lemma map_of_mdel [simp, go_map]: "map_of (mdel k m) k' = (if k' = k then None else map_of m k')"
  by (simp add: mdel_def delete_conv')

lemma mwf_mput [simp, go_map]: "mwf m \<Longrightarrow> mwf (mput k v m)"
  by (simp add: mput_def distinct_update)

lemma mwf_mdel [simp, go_map]: "mwf m \<Longrightarrow> mwf (mdel k m)"
  by (simp add: mdel_def distinct_delete)

lemma mkeys_mput_set [simp, go_map]: "fst ` set (mput k v m) = insert k (fst ` set m)"
  by (simp add: mput_def dom_update)

lemma mkeys_mput_mem: "map_of m k \<noteq> None \<Longrightarrow> mkeys (mput k v m) = mkeys m"
  by (induction m) (auto simp: mput_def)

lemma set_mput: "mwf m \<Longrightarrow> set (mput k v m) = insert (k, v) (set m - {(k, v') | v'. True})"
  by (induction m) (force simp: mput_def)+

lemma set_mput_subset: "set (mput k v m) \<subseteq> insert (k, v) (set m)"
  by (induction m) (auto simp: mput_def)

lemma ball_mput: "\<forall>(k, v) \<in> set m. P k v \<Longrightarrow> P k v \<Longrightarrow> \<forall>(k, v) \<in> set (mput k v m). P k v"
  using set_mput_subset [of k v m] by blast

lemma mput_simps [simp]:
  "mput k v [] = [(k, v)]"
  "mput k v ((k', v') # m) = (if k' = k then (k, v) # m else (k', v') # mput k v m)"
  by (auto simp: mput_def)

lemma mdel_simps [simp]:
  "mdel k [] = []"
  "mdel k ((k', v') # m) = (if k' = k then mdel k m else (k', v') # mdel k m)"
  by (auto simp: mdel_def AList.delete_eq)

lemma mget2_mput2 [simp, go_map]:
  "mget2 (mput2 a b v m) a' b' = (if a' = a \<and> b' = b then Some v else mget2 m a' b')"
  by (auto simp: mget2_def mput2_def split: option.splits)

lemma mwf2_Nil [simp]: "mwf2 []"
  by (simp add: mwf2_def)

lemma mget2_Nil [simp]: "mget2 [] a b = None"
  by (simp add: mget2_def)

lemma mwf2_inner: "mwf2 m \<Longrightarrow> map_of m a = Some n \<Longrightarrow> mwf n"
  by (auto simp: mwf2_def dest: map_of_SomeD)

lemma mwf2_mput2 [simp, go_map]:
  assumes "mwf2 m"
  shows "mwf2 (mput2 a b v m)"
proof -
  have "mwf (case map_of m a of None \<Rightarrow> [] | Some n \<Rightarrow> n)"
    using assms by (auto split: option.splits dest: mwf2_inner)
  then show ?thesis
    using assms by (auto simp: mwf2_def mput2_def set_mput)
qed

lemma mkeys2_mget2:
  assumes "mwf2 m"
  shows "(a, b) \<in> set (mkeys2 m) \<longleftrightarrow> mget2 m a b \<noteq> None"
proof
  assume "(a, b) \<in> set (mkeys2 m)"
  then obtain n where "(a, n) \<in> set m" "b \<in> fst ` set n"
    by (auto simp: mkeys2_def)
  then show "mget2 m a b \<noteq> None"
    using assms by (auto simp: mget2_def mwf2_def map_of_eq_None_iff)
next
  assume "mget2 m a b \<noteq> None"
  then obtain n v where "map_of m a = Some n" "map_of n b = Some v"
    by (auto simp: mget2_def bind_eq_None_conv)
  then show "(a, b) \<in> set (mkeys2 m)"
    by (force simp: mkeys2_def dest: map_of_SomeD)
qed

end
