(* ===== verification/Go_Strings.thy ===== *)
theory Go_Strings
  imports Prelude
begin

text \<open>
  The parts of \<open>strings\<close>, \<open>strconv\<close>, \<open>fmt\<close> and \<open>bufio\<close> the broker uses, on byte strings
  (\<open>string\<close> is a list of 8-bit characters, as a Go \<open>string\<close> is). Case mapping and white space
  are the ASCII ones; the other bytes of a UTF-8 sequence are ordinary characters.

  The lemmas give the round trips the record and wire formats rest on: printing and reading
  decimal numbers, splitting at a separator what was joined with it, and cutting a stream
  into lines.
\<close>

section \<open>Package strings\<close>

definition HasPrefix :: "string \<Rightarrow> string \<Rightarrow> bool" where
  "HasPrefix s p \<longleftrightarrow> take (length p) s = p"

definition HasSuffix :: "string \<Rightarrow> string \<Rightarrow> bool" where
  "HasSuffix s p \<longleftrightarrow> length p \<le> length s \<and> drop (length s - length p) s = p"

definition TrimPrefix :: "string \<Rightarrow> string \<Rightarrow> string" where
  "TrimPrefix s p = (if HasPrefix s p then drop (length p) s else s)"

definition TrimSuffix :: "string \<Rightarrow> string \<Rightarrow> string" where
  "TrimSuffix s p = (if HasSuffix s p then take (length s - length p) s else s)"

text \<open>\<open>strings.Index\<close> and \<open>strings.LastIndex\<close>: \<open>None\<close> stands for the result -1.\<close>

fun Index :: "string \<Rightarrow> string \<Rightarrow> nat option" where
  "Index [] sub = (if sub = [] then Some 0 else None)"
| "Index (c # cs) sub =
     (if HasPrefix (c # cs) sub then Some 0 else map_option Suc (Index cs sub))"

fun LastIndex :: "string \<Rightarrow> string \<Rightarrow> nat option" where
  "LastIndex [] sub = (if sub = [] then Some 0 else None)"
| "LastIndex (c # cs) sub =
     (case LastIndex cs sub of
        Some i \<Rightarrow> Some (Suc i)
      | None \<Rightarrow> if HasPrefix (c # cs) sub then Some 0 else None)"

definition Contains :: "string \<Rightarrow> string \<Rightarrow> bool" where
  "Contains s sub \<longleftrightarrow> Index s sub \<noteq> None"

text \<open>
  \<open>strings.SplitN\<close> for a positive limit and a non-empty separator. \<open>strings.Split\<close> has no
  limit: a string of \<open>n\<close> characters has at most \<open>n + 1\<close> pieces.
\<close>

fun SplitN :: "string \<Rightarrow> string \<Rightarrow> nat \<Rightarrow> string list" where
  "SplitN s sep 0 = []"
| "SplitN s sep (Suc 0) = [s]"
| "SplitN s sep (Suc (Suc n)) =
     (case Index s sep of
        None \<Rightarrow> [s]
      | Some i \<Rightarrow> take i s # SplitN (drop (i + length sep) s) sep (Suc n))"

definition Split :: "string \<Rightarrow> string \<Rightarrow> string list" where
  "Split s sep = SplitN s sep (Suc (length s))"

fun Join :: "string list \<Rightarrow> string \<Rightarrow> string" where
  "Join [] sep = []"
| "Join [x] sep = x"
| "Join (x # y # xs) sep = x @ sep @ Join (y # xs) sep"

definition is_space :: "char \<Rightarrow> bool" where
  "is_space c \<longleftrightarrow> c = CHR '' '' \<or> (9 \<le> (of_char c :: nat) \<and> (of_char c :: nat) \<le> 13)"

definition TrimSpace :: "string \<Rightarrow> string" where
  "TrimSpace s = rev (dropWhile is_space (rev (dropWhile is_space s)))"

fun fields_from :: "string \<Rightarrow> string \<Rightarrow> string list" where
  "fields_from cur [] = (if cur = [] then [] else [cur])"
| "fields_from cur (c # cs) =
     (if is_space c then (if cur = [] then fields_from [] cs else cur # fields_from [] cs)
      else fields_from (cur @ [c]) cs)"

definition Fields :: "string \<Rightarrow> string list" where
  "Fields s = fields_from [] s"

definition upper_char :: "char \<Rightarrow> char" where
  "upper_char c =
     (let n = (of_char c :: nat) in if 97 \<le> n \<and> n \<le> 122 then char_of (n - 32) else c)"

definition lower_char :: "char \<Rightarrow> char" where
  "lower_char c =
     (let n = (of_char c :: nat) in if 65 \<le> n \<and> n \<le> 90 then char_of (n + 32) else c)"

definition ToUpper :: "string \<Rightarrow> string" where
  "ToUpper s = map upper_char s"

definition ToLower :: "string \<Rightarrow> string" where
  "ToLower s = map lower_char s"

definition EqualFold :: "string \<Rightarrow> string \<Rightarrow> bool" where
  "EqualFold s t \<longleftrightarrow> ToLower s = ToLower t"

section \<open>Packages strconv and fmt\<close>

definition digit_char :: "nat \<Rightarrow> char" where
  "digit_char d = char_of (if d < 10 then 48 + d else 87 + d)"

fun digits_base :: "nat \<Rightarrow> nat \<Rightarrow> string" where
  "digits_base b n =
     (if b < 2 \<or> n < b then [digit_char n] else digits_base b (n div b) @ [digit_char (n mod b)])"

declare digits_base.simps [simp del]

definition pad0 :: "nat \<Rightarrow> string \<Rightarrow> string" where
  "pad0 w s = replicate (w - length s) CHR ''0'' @ s"

text \<open>\<open>%d\<close>, \<open>%06d\<close> (the sign counts for the width), \<open>%08x\<close>, \<open>%v\<close> of slices, \<open>%t\<close>.\<close>

definition Itoa :: "int \<Rightarrow> string" where
  "Itoa i = (if i < 0 then CHR ''-'' # digits_base 10 (nat (- i)) else digits_base 10 (nat i))"

definition fmt_06d :: "int \<Rightarrow> string" where
  "fmt_06d i =
     (if i < 0 then CHR ''-'' # pad0 5 (digits_base 10 (nat (- i)))
      else pad0 6 (digits_base 10 (nat i)))"

definition fmt_08x :: "nat \<Rightarrow> string" where
  "fmt_08x n = pad0 8 (digits_base 16 n)"

definition fmt_strs :: "string list \<Rightarrow> string" where
  "fmt_strs xs = ''['' @ Join xs '' '' @ '']''"

definition fmt_ints :: "int list \<Rightarrow> string" where
  "fmt_ints xs = fmt_strs (map Itoa xs)"

definition fmt_bool :: "bool \<Rightarrow> string" where
  "fmt_bool b = (if b then ''true'' else ''false'')"

definition is_digit :: "char \<Rightarrow> bool" where
  "is_digit c \<longleftrightarrow> 48 \<le> (of_char c :: nat) \<and> (of_char c :: nat) \<le> 57"

definition digits_val :: "string \<Rightarrow> nat" where
  "digits_val s = foldl (\<lambda>a c. 10 * a + (of_char c - 48)) 0 s"

text \<open>
  \<open>strconv.Atoi\<close> and \<open>strconv.ParseInt(s, 10, 64)\<close>: an optional sign, at least one digit, and
  a value in the 64-bit range. \<open>None\<close> is the error.
\<close>

definition Atoi :: "string \<Rightarrow> int option" where
  "Atoi s =
     (let (neg, ds) = (case s of
          [] \<Rightarrow> (False, [])
        | c # cs \<Rightarrow> if c = CHR ''-'' then (True, cs) else if c = CHR ''+'' then (False, cs)
                    else (False, s));
        v = (if neg then - int (digits_val ds) else int (digits_val ds))
      in if ds = [] \<or> \<not> list_all is_digit ds \<or> \<not> int64_ok v then None else Some v)"

abbreviation ParseInt64 :: "string \<Rightarrow> int option" where
  "ParseInt64 s \<equiv> Atoi s"

section \<open>Line scanner of package bufio\<close>

text \<open>
  \<open>bufio.Scanner\<close> with \<open>ScanLines\<close>: lines end at a newline, a trailing carriage return is
  dropped, and the scan stops for good at a line that does not fit the buffer of 64 kB
  (\<open>ErrTooLong\<close>), that is, at a line of 65536 bytes or more.
\<close>

definition newline :: char where
  "newline = CHR 0x0A"

definition carriage_return :: char where
  "carriage_return = CHR 0x0D"

fun raw_lines :: "string \<Rightarrow> string \<Rightarrow> string list" where
  "raw_lines cur [] = (if cur = [] then [] else [cur])"
| "raw_lines cur (c # cs) =
     (if c = newline then cur # raw_lines [] cs else raw_lines (cur @ [c]) cs)"

definition dropCR :: "string \<Rightarrow> string" where
  "dropCR l = (if l \<noteq> [] \<and> last l = carriage_return then butlast l else l)"

definition max_line :: nat where
  "max_line = 65535"

definition scan_lines :: "string \<Rightarrow> string list" where
  "scan_lines s = map dropCR (takeWhile (\<lambda>l. length l \<le> max_line) (raw_lines [] s))"

section \<open>Lemmas: prefixes, indices, splitting\<close>

lemma HasPrefix_append [simp, go_str]: "HasPrefix (p @ s) p"
  by (simp add: HasPrefix_def)

lemma HasPrefix_Nil [simp, go_str]: "HasPrefix s [] = True" "HasPrefix [] p = (p = [])"
  by (auto simp: HasPrefix_def)

lemma HasPrefix_Cons [simp, go_str]: "HasPrefix (c # s) (d # p) \<longleftrightarrow> c = d \<and> HasPrefix s p"
  by (auto simp: HasPrefix_def)

lemma HasSuffix_append [simp, go_str]: "HasSuffix (s @ p) p"
  by (simp add: HasSuffix_def)

lemma TrimSuffix_append [simp, go_str]: "TrimSuffix (s @ p) p = s"
  by (simp add: TrimSuffix_def)

lemma Index_char_None [simp, go_str]: "c \<notin> set s \<Longrightarrow> Index s [c] = None"
  by (induction s) auto

lemma Index_char_Some [simp, go_str]: "c \<notin> set a \<Longrightarrow> Index (a @ c # b) [c] = Some (length a)"
  by (induction a) auto

lemma HasPrefix_length: "HasPrefix s p \<Longrightarrow> length p \<le> length s"
  by (metis HasPrefix_def length_take min.cobounded1)

lemma Index_le: "Index s sub = Some i \<Longrightarrow> i + length sub \<le> length s"
proof (induction s arbitrary: i)
  case (Cons c s)
  show ?case
  proof (cases "HasPrefix (c # s) sub")
    case True
    with Cons.prems show ?thesis using HasPrefix_length [OF True] by simp
  next
    case False
    with Cons show ?thesis by auto
  qed
qed (auto split: if_splits)

lemma LastIndex_char [simp, go_str]:
  "c \<notin> set b \<Longrightarrow> LastIndex (a @ c # b) [c] = Some (length a)"
proof (induction a)
  case Nil
  have "c \<notin> set b \<Longrightarrow> LastIndex b [c] = None"
    by (induction b) auto
  with Nil show ?case by simp
qed auto

lemma SplitN_None [simp, go_str]: "c \<notin> set s \<Longrightarrow> SplitN s [c] (Suc n) = [s]"
  by (cases n) auto

lemma SplitN_char [simp, go_str]:
  "c \<notin> set a \<Longrightarrow> SplitN (a @ c # b) [c] (Suc (Suc n)) = a # SplitN b [c] (Suc n)"
  by simp

lemma SplitN_2 [simp, go_str]: "c \<notin> set a \<Longrightarrow> SplitN (a @ c # b) [c] 2 = [a, b]"
  by (simp add: numeral_2_eq_2)

lemma SplitN_2_None [simp, go_str]: "c \<notin> set a \<Longrightarrow> SplitN a [c] 2 = [a]"
  by (simp add: numeral_2_eq_2 del: SplitN.simps(3))

lemma SplitN_4 [go_str]:
  assumes "c \<notin> set p" "c \<notin> set q" "c \<notin> set r"
  shows "SplitN (p @ c # q @ c # r @ c # s) [c] 4 = [p, q, r, s]"
proof -
  have four: "(4 :: nat) = Suc (Suc (Suc (Suc 0)))" by simp
  show ?thesis
    unfolding four using assms by (simp only: SplitN_char SplitN.simps(2) not_False_eq_True)
qed

lemma SplitN_length: "length (SplitN s sep n) \<le> n"
  by (induction s sep n rule: SplitN.induct) (auto split: option.splits)

lemma SplitN_Join:
  assumes "xs \<noteq> []" and "\<forall>x \<in> set xs. c \<notin> set x" and "length xs \<le> n"
  shows "SplitN (Join xs [c]) [c] n = xs"
  using assms
proof (induction xs "[c]" arbitrary: n rule: Join.induct)
  case (2 x)
  then obtain m where "n = Suc m" by (cases n) auto
  with 2 show ?case by simp
next
  case (3 x y xs)
  then obtain m where n: "n = Suc (Suc m)" by (cases n; cases "n - 1") auto
  have "SplitN (Join (y # xs) [c]) [c] (Suc m) = y # xs"
    using 3 n by (intro 3(1)) auto
  with 3 n show ?case by simp
qed simp

lemma length_Join_ge: "length xs \<le> Suc (length (Join xs [c]))"
  by (induction xs "[c]" rule: Join.induct) auto

lemma Split_Join [go_str]:
  "xs \<noteq> [] \<Longrightarrow> \<forall>x \<in> set xs. c \<notin> set x \<Longrightarrow> Split (Join xs [c]) [c] = xs"
  unfolding Split_def by (intro SplitN_Join length_Join_ge) auto

lemma set_Join: "c \<in> set (Join xs sep) \<Longrightarrow> c \<in> set sep \<or> (\<exists>x \<in> set xs. c \<in> set x)"
  by (induction xs sep rule: Join.induct) auto

lemma Join_eq_Nil: "Join xs [c] = [] \<longleftrightarrow> xs = [] \<or> xs = [[]]"
  by (induction xs "[c]" rule: Join.induct) auto

section \<open>Lemmas: white space\<close>

lemma TrimSpace_id [go_str]:
  assumes "s = [] \<or> (\<not> is_space (hd s) \<and> \<not> is_space (last s))"
  shows "TrimSpace s = s"
proof (cases "s = []")
  case False
  then have "dropWhile is_space s = s" "dropWhile is_space (rev s) = rev s"
    using assms by (auto simp: dropWhile_eq_self_iff hd_rev)
  then show ?thesis by (simp add: TrimSpace_def)
qed (simp add: TrimSpace_def)

lemma TrimSpace_no_space [go_str]: "\<forall>c \<in> set s. \<not> is_space c \<Longrightarrow> TrimSpace s = s"
  by (cases "s = []") (auto intro!: TrimSpace_id)

lemma TrimSpace_snoc: "is_space c \<Longrightarrow> \<not> is_space (last s) \<Longrightarrow> \<not> is_space (hd s) \<Longrightarrow> s \<noteq> []
    \<Longrightarrow> TrimSpace (s @ [c]) = s"
  using TrimSpace_id [of s] by (cases s) (simp_all add: TrimSpace_def)

lemma fields_from_word:
  "\<forall>c \<in> set w. \<not> is_space c \<Longrightarrow> fields_from cur (w @ s) = fields_from (cur @ w) s"
  by (induction w arbitrary: cur) auto

lemma Fields_Join [go_str]:
  assumes "\<forall>x \<in> set xs. x \<noteq> [] \<and> (\<forall>c \<in> set x. \<not> is_space c)"
  shows "Fields (Join xs '' '') = xs"
  unfolding Fields_def using assms
proof (induction xs "'' ''" rule: Join.induct)
  case (2 x)
  then show ?case using fields_from_word [of x "[]" "[]"] by simp
next
  case (3 x y xs)
  then show ?case
    using fields_from_word [of x "[]" "'' '' @ Join (y # xs) '' ''"]
    by (simp add: is_space_def)
qed simp

lemma fields_from_words:
  "w \<in> set (fields_from cur s) \<Longrightarrow> \<forall>c \<in> set cur. \<not> is_space c
    \<Longrightarrow> w \<noteq> [] \<and> (\<forall>c \<in> set w. \<not> is_space c)"
proof (induction s arbitrary: cur)
  case (Cons c s)
  show ?case
  proof (cases "is_space c")
    case True
    with Cons.prems have "w = cur \<and> cur \<noteq> [] \<or> w \<in> set (fields_from [] s)"
      by (auto split: if_splits)
    with Cons.prems(2) Cons.IH [of "[]"] show ?thesis by auto
  next
    case False
    with Cons.prems show ?thesis by (intro Cons.IH [of "cur @ [c]"]) auto
  qed
qed (auto split: if_splits)

lemma Fields_words: "w \<in> set (Fields s) \<Longrightarrow> w \<noteq> [] \<and> (\<forall>c \<in> set w. \<not> is_space c)"
  unfolding Fields_def by (rule fields_from_words) auto

section \<open>Lemmas: numbers\<close>

lemma digits_base_induct [case_names small big]:
  assumes "\<And>n. n < b \<Longrightarrow> P n" and "\<And>n. b \<le> n \<Longrightarrow> P (n div b) \<Longrightarrow> P n" and "2 \<le> b"
  shows "P (n :: nat)"
proof (induction n rule: less_induct)
  case (less n)
  show ?case
  proof (cases "n < b")
    case False
    then have "n div b < n" using assms(3) by simp
    with less False assms(2) show ?thesis by simp
  qed (use assms in simp)
qed

lemma digits_base_small: "n < b \<Longrightarrow> digits_base b n = [digit_char n]"
  by (simp add: digits_base.simps [of b n])

lemma digits_base_big:
  "2 \<le> b \<Longrightarrow> b \<le> n \<Longrightarrow> digits_base b n = digits_base b (n div b) @ [digit_char (n mod b)]"
  by (simp add: digits_base.simps [of b n])

lemma digits_base_nonempty [simp]: "digits_base b n \<noteq> []"
  by (simp add: digits_base.simps [of b n])

lemma of_char_digit_char: "d < 16 \<Longrightarrow> (of_char (digit_char d) :: nat) = (if d < 10 then 48 + d else 87 + d)"
  by (simp add: digit_char_def of_char_of)

lemma set_digits_base:
  assumes "2 \<le> b" and "b \<le> 16"
  shows "c \<in> set (digits_base b n) \<Longrightarrow> \<exists>d < b. c = digit_char d"
proof (induction n rule: digits_base_induct [where b = b])
  case (small n)
  then show ?case by (auto simp: digits_base_small)
next
  case (big n)
  moreover have "\<exists>d < b. digit_char (n mod b) = digit_char d"
    using assms by (intro exI [of _ "n mod b"]) simp
  ultimately show ?case using assms by (auto simp: digits_base_big)
qed (rule assms)

lemma is_digit_digit_char: "d < 10 \<Longrightarrow> is_digit (digit_char d)"
  by (simp add: is_digit_def of_char_digit_char)

lemma digits_base_10_digits: "list_all is_digit (digits_base 10 n)"
  using set_digits_base [of 10 _ n] by (fastforce simp: list_all_iff is_digit_digit_char)

lemma digits_val_snoc [simp]: "digits_val (s @ [c]) = 10 * digits_val s + (of_char c - 48)"
  by (simp add: digits_val_def)

lemma digits_val_digits_base [simp]: "digits_val (digits_base 10 n) = n"
proof (induction n rule: digits_base_induct [where b = 10])
  case (small n)
  then show ?case by (simp add: digits_base_small digits_val_def of_char_digit_char)
next
  case (big n)
  then show ?case by (simp add: digits_base_big of_char_digit_char)
qed simp

lemma digits_val_pad0 [simp]: "digits_val (pad0 w s) = digits_val s"
proof -
  have "foldl (\<lambda>a c. 10 * a + (of_char c - 48)) 0 (replicate k CHR ''0'') = (0 :: nat)" for k
    by (induction k) auto
  then show ?thesis by (simp add: digits_val_def pad0_def)
qed

lemma pad0_digits: "list_all is_digit s \<Longrightarrow> list_all is_digit (pad0 w s)"
  by (auto simp: pad0_def list_all_iff is_digit_def)

lemma pad0_nonempty [simp]: "s \<noteq> [] \<Longrightarrow> pad0 w s \<noteq> []"
  by (simp add: pad0_def)

lemma Atoi_digits:
  assumes "ds \<noteq> []" and "list_all is_digit ds" and "int64_ok (int (digits_val ds))"
  shows "Atoi ds = Some (int (digits_val ds))"
proof -
  obtain c cs where ds: "ds = c # cs" using assms(1) by (cases ds) auto
  with assms(2) have "c \<noteq> CHR ''-''" "c \<noteq> CHR ''+''" by (auto simp: is_digit_def)
  with ds assms show ?thesis by (simp add: Atoi_def)
qed

lemma Atoi_neg_digits:
  "ds \<noteq> [] \<Longrightarrow> list_all is_digit ds \<Longrightarrow> int64_ok (- int (digits_val ds))
    \<Longrightarrow> Atoi (CHR ''-'' # ds) = Some (- int (digits_val ds))"
  by (simp add: Atoi_def)

lemma Atoi_Itoa [simp, go_str]: "int64_ok i \<Longrightarrow> Atoi (Itoa i) = Some i"
  by (auto simp: Itoa_def Atoi_digits Atoi_neg_digits digits_base_10_digits)

lemma Atoi_fmt_06d [simp, go_str]: "int64_ok i \<Longrightarrow> Atoi (fmt_06d i) = Some i"
  by (auto simp: fmt_06d_def Atoi_digits Atoi_neg_digits digits_base_10_digits pad0_digits)

lemma Atoi_int64_ok: "Atoi s = Some i \<Longrightarrow> int64_ok i"
  by (auto simp: Atoi_def Let_def split: list.splits if_splits)

lemma Itoa_chars: "c \<in> set (Itoa i) \<Longrightarrow> is_digit c \<or> c = CHR ''-''"
  using digits_base_10_digits by (auto simp: Itoa_def list_all_iff split: if_splits)

lemma fmt_06d_chars: "c \<in> set (fmt_06d i) \<Longrightarrow> is_digit c \<or> c = CHR ''-''"
  using pad0_digits [OF digits_base_10_digits] by (auto simp: fmt_06d_def list_all_iff split: if_splits)

lemma fmt_06d_nonneg_chars: "0 \<le> i \<Longrightarrow> c \<in> set (fmt_06d i) \<Longrightarrow> is_digit c"
  using pad0_digits [OF digits_base_10_digits] by (auto simp: fmt_06d_def list_all_iff split: if_splits)

lemma Itoa_nonneg_chars: "0 \<le> i \<Longrightarrow> c \<in> set (Itoa i) \<Longrightarrow> is_digit c"
  using digits_base_10_digits by (auto simp: Itoa_def list_all_iff split: if_splits)

lemma Itoa_nonempty [simp]: "Itoa i \<noteq> []"
  by (simp add: Itoa_def)

lemma fmt_06d_nonempty [simp]: "fmt_06d i \<noteq> []"
  by (simp add: fmt_06d_def)

lemma Itoa_not_in [simp]:
  "\<not> is_digit c \<Longrightarrow> c \<noteq> CHR ''-'' \<Longrightarrow> c \<notin> set (Itoa i)"
  using Itoa_chars by blast

lemma Itoa_inj: "int64_ok i \<Longrightarrow> int64_ok j \<Longrightarrow> Itoa i = Itoa j \<longleftrightarrow> i = j"
  by (metis Atoi_Itoa option.inject)

lemma fmt_06d_inj: "int64_ok i \<Longrightarrow> int64_ok j \<Longrightarrow> fmt_06d i = fmt_06d j \<longleftrightarrow> i = j"
  by (metis Atoi_fmt_06d option.inject)

text \<open>Hexadecimal numbers: \<open>%08x\<close> has eight lower-case digits and determines the number.\<close>

lemma lower_digit_char: "d < 16 \<Longrightarrow> lower_char (digit_char d) = digit_char d"
  by (auto simp: lower_char_def of_char_digit_char Let_def)

lemma fmt_08x_chars: "c \<in> set (fmt_08x n) \<Longrightarrow> \<exists>d < 16. c = digit_char d"
proof -
  have "CHR ''0'' = digit_char 0" by code_simp
  then show "c \<in> set (fmt_08x n) \<Longrightarrow> \<exists>d < 16. c = digit_char d"
    using set_digits_base [of 16 c n] by (force simp: fmt_08x_def pad0_def split: if_splits)
qed

lemma ToLower_fmt_08x [simp, go_str]: "ToLower (fmt_08x n) = fmt_08x n"
  unfolding ToLower_def by (rule map_idI) (use fmt_08x_chars lower_digit_char in blast)

fun hex_val :: "string \<Rightarrow> nat" where
  "hex_val s = foldl (\<lambda>a c. 16 * a + (if is_digit c then of_char c - 48 else of_char c - 87)) 0 s"

lemma hex_val_digits_base: "hex_val (digits_base 16 n) = n"
proof (induction n rule: digits_base_induct [where b = 16])
  case (small n)
  then show ?case by (simp add: digits_base_small of_char_digit_char is_digit_def)
next
  case (big n)
  then show ?case by (auto simp: digits_base_big of_char_digit_char is_digit_def)
qed simp

lemma hex_val_fmt_08x: "hex_val (fmt_08x n) = n"
proof -
  have "foldl (\<lambda>a c. 16 * a + (if is_digit c then of_char c - 48 else of_char c - 87)) 0
      (replicate k CHR ''0'') = (0 :: nat)" for k
    by (induction k) (auto simp: is_digit_def)
  then show ?thesis using hex_val_digits_base [of n] by (simp add: fmt_08x_def pad0_def)
qed

lemma fmt_08x_inj [simp]: "fmt_08x a = fmt_08x b \<longleftrightarrow> a = b"
  by (metis hex_val_fmt_08x)

lemma EqualFold_refl [simp]: "EqualFold s s"
  by (simp add: EqualFold_def)

lemma EqualFold_fmt_08x: "EqualFold (fmt_08x a) (fmt_08x b) \<longleftrightarrow> a = b"
  by (simp add: EqualFold_def)

lemma length_digits_base:
  assumes "2 \<le> b"
  shows "0 < k \<Longrightarrow> n < b ^ k \<Longrightarrow> length (digits_base b n) \<le> k"
proof (induction k arbitrary: n)
  case (Suc k)
  show ?case
  proof (cases "n < b")
    case True
    then show ?thesis by (simp add: digits_base_small)
  next
    case False
    then have "k \<noteq> 0" using Suc.prems by (cases k) auto
    moreover have "n div b < b ^ k" using Suc.prems assms by (simp add: less_mult_imp_div_less mult.commute)
    ultimately show ?thesis using Suc.IH [of "n div b"] False assms by (simp add: digits_base_big)
  qed
qed simp

lemma length_fmt_08x: "n < 2 ^ 32 \<Longrightarrow> length (fmt_08x n) = 8"
  using length_digits_base [of 16 8 n] by (simp add: fmt_08x_def pad0_def)

section \<open>Lemmas: lines\<close>

lemma raw_lines_line [simp]:
  "newline \<notin> set l \<Longrightarrow> raw_lines cur (l @ newline # s) = (cur @ l) # raw_lines [] s"
  by (induction l arbitrary: cur) auto

lemma raw_lines_last:
  "newline \<notin> set l \<Longrightarrow> raw_lines cur l = (if cur @ l = [] then [] else [cur @ l])"
  by (induction l arbitrary: cur) auto

lemma raw_lines_append:
  "raw_lines cur (a @ [newline] @ b) = raw_lines cur (a @ [newline]) @ raw_lines [] b"
  by (induction a arbitrary: cur) auto

lemma raw_lines_concat:
  "\<forall>l \<in> set ls. newline \<notin> set l \<Longrightarrow>
    raw_lines [] (concat (map (\<lambda>l. l @ [newline]) ls)) = ls"
  by (induction ls) auto

lemma dropCR_id: "l = [] \<or> last l \<noteq> carriage_return \<Longrightarrow> dropCR l = l"
  by (auto simp: dropCR_def)

text \<open>A text that is empty or ends in a newline is extended by whole lines.\<close>

definition whole_lines :: "string \<Rightarrow> bool" where
  "whole_lines s \<longleftrightarrow> s = [] \<or> last s = newline"

lemma raw_lines_whole: "whole_lines a \<Longrightarrow> raw_lines [] (a @ b) = raw_lines [] a @ raw_lines [] b"
proof (cases "a = []")
  case False
  assume "whole_lines a"
  with False have "a = butlast a @ [newline]" by (metis whole_lines_def append_butlast_last_id)
  then show ?thesis by (metis raw_lines_append append_assoc)
qed simp

lemma whole_lines_line [simp]: "whole_lines (a @ l @ [newline])" "whole_lines []"
  by (simp_all add: whole_lines_def)

lemma takeWhile_all_append:
  "list_all P xs \<Longrightarrow> takeWhile P (xs @ ys) = xs @ takeWhile P ys"
  by (simp add: list_all_iff)

text \<open>
  Appending one short line to a text of short whole lines appends one line to the scan.
\<close>

definition lines_fit :: "string \<Rightarrow> bool" where
  "lines_fit s \<longleftrightarrow> whole_lines s \<and> list_all (\<lambda>l. length l \<le> max_line) (raw_lines [] s)"

lemma lines_fit_Nil [simp]: "lines_fit []"
  by (simp add: lines_fit_def)

lemma scan_lines_snoc:
  assumes "lines_fit s" and "newline \<notin> set l" and "length l \<le> max_line"
  shows "scan_lines (s @ l @ [newline]) = scan_lines s @ [dropCR l]"
  using assms
  by (simp add: scan_lines_def lines_fit_def raw_lines_whole takeWhile_all_append
      takeWhile_eq_all_conv [THEN iffD2] list_all_iff)

lemma lines_fit_snoc:
  "lines_fit s \<Longrightarrow> newline \<notin> set l \<Longrightarrow> length l \<le> max_line \<Longrightarrow> lines_fit (s @ l @ [newline])"
  by (simp add: lines_fit_def raw_lines_whole)

text \<open>A line that does not fit hides itself and everything after it.\<close>

lemma scan_lines_too_long:
  assumes "lines_fit s" and "newline \<notin> set l" and "max_line < length l"
  shows "scan_lines (s @ l @ [newline] @ rest) = scan_lines s"
  using assms
  by (simp add: scan_lines_def lines_fit_def raw_lines_whole takeWhile_all_append
      takeWhile_eq_all_conv [THEN iffD2] list_all_iff)

section \<open>Lemmas: fields of a text\<close>

text \<open>
  Looking for a key with its equals sign: text up to an equals sign that does not end with the
  key can be skipped.
\<close>

lemma HasPrefix_key:
  assumes "c \<notin> set key" and "c \<notin> set z"
  shows "HasPrefix (z @ c # y) (key @ [c]) \<longleftrightarrow> z = key"
proof
  assume "HasPrefix (z @ c # y) (key @ [c])"
  then obtain t where "z @ c # y = key @ c # t"
    by (metis HasPrefix_def append.assoc append_Cons append_Nil append_take_drop_id)
  moreover have "takeWhile (\<lambda>x. x \<noteq> c) (u @ c # v) = u" if "c \<notin> set u" for u v
    using that by (induction u) auto
  ultimately show "z = key" using assms by metis
qed (simp add: HasPrefix_def)

lemma Index_key:
  assumes "c \<notin> set key" and "c \<notin> set x" and "\<not> HasSuffix x key"
  shows "Index (x @ c # y) (key @ [c]) = map_option (\<lambda>i. length x + 1 + i) (Index y (key @ [c]))"
  using assms
proof (induction x)
  case Nil
  then have "key \<noteq> []" by (auto simp: HasSuffix_def)
  then have "\<not> HasPrefix (c # y) (key @ [c])" using HasPrefix_key [of c key "[]" y] Nil by simp
  then show ?case by (cases "Index y (key @ [c])") auto
next
  case (Cons a x)
  have "\<not> HasSuffix x key"
  proof
    assume "HasSuffix x key"
    then have "HasSuffix (a # x) key" by (auto simp: HasSuffix_def Suc_diff_le)
    with Cons.prems show False by simp
  qed
  moreover have "\<not> HasPrefix ((a # x) @ c # y) (key @ [c])"
    using HasPrefix_key [of c key "a # x" y] Cons.prems by (auto simp: HasSuffix_def)
  ultimately show ?case
    using Cons by (cases "Index y (key @ [c])") auto
qed

lemma Index_key_here:
  assumes "c \<notin> set key" and "c \<notin> set x"
  shows "Index (x @ key @ c # y) (key @ [c]) = Some (length x)"
  using assms(2)
proof (induction x)
  case Nil
  have "HasPrefix (key @ c # y) (key @ [c])" using HasPrefix_key [OF assms(1) assms(1)] by simp
  then show ?case by (cases "key @ c # y") auto
next
  case (Cons a x)
  have "\<not> HasPrefix ((a # x @ key) @ c # y) (key @ [c])"
    using HasPrefix_key [of c key "a # x @ key" y] Cons.prems assms(1)
    by (metis Un_iff append_Cons append_self_conv2 list.distinct(1) set_append)
  with Cons show ?case by simp
qed

lemma Index_space: "CHR '' '' \<notin> set x \<Longrightarrow> Index (x @ CHR '' '' # y) '' '' = Some (length x)"
  using Index_key_here [of "CHR '' ''" "[]" x y] by simp

lemma Index_no_space: "CHR '' '' \<notin> set x \<Longrightarrow> Index x '' '' = None"
  by (induction x) (auto simp: HasPrefix_def)

lemma pieces: "\<exists>P. P \<noteq> [] \<and> s = Join P [c] \<and> (\<forall>x \<in> set P. c \<notin> set x)"
proof (induction s)
  case Nil
  show ?case by (rule exI [of _ "[[]]"]) simp
next
  case (Cons a s)
  then obtain x P where P: "s = Join (x # P) [c]" "\<forall>x \<in> set (x # P). c \<notin> set x" by (metis neq_Nil_conv)
  show ?case
  proof (cases "a = c")
    case True
    with P show ?thesis by (intro exI [of _ "[] # x # P"]) simp
  next
    case False
    with P show ?thesis by (intro exI [of _ "(a # x) # P"]) (cases P; simp)
  qed
qed

lemma Itoa_no: "\<not> is_digit c \<Longrightarrow> c \<noteq> CHR ''-'' \<Longrightarrow> c \<notin> set (Itoa i)"
  using Itoa_chars by blast

lemma not_digit [simp]:
  "\<not> is_digit (CHR ''='')" "\<not> is_digit (CHR '' '')" "\<not> is_digit (CHR '','')" "\<not> is_digit (CHR '':'')"
  "\<not> is_digit (CHR ''|'')"
  by (simp_all add: is_digit_def)

lemma HasSuffix_append_self: "length k \<le> length b \<Longrightarrow> HasSuffix (a @ b) k \<longleftrightarrow> HasSuffix b k"
  by (auto simp: HasSuffix_def)

lemma drop_length_append: "n = length a \<Longrightarrow> drop n (a @ b) = b"
  by simp

end
