(* ===== verification/Python_Client.thy ===== *)
theory Python_Client
  imports Go_Strings
begin

text \<open>
  \<open>packages/sdk/python/src/flux_sdk/client.py\<close>: the Python client library, as functions on the
  client and the network. What a socket does is the argument \<open>ex\<close>: it sends one line and yields
  the line read, with its line end, the empty text at the end of the stream, or the text of an
  \<open>OSError\<close>. Opening a connection is the argument \<open>dial\<close>. Exceptions are values of \<open>py_error\<close>.

  Texts are ASCII here, so that they are the bytes on the wire. White space is Python's, which has
  four more control characters than Go's.
\<close>

section \<open>Python's strings and numbers\<close>

definition py_space :: "char \<Rightarrow> bool" where
  "py_space c \<longleftrightarrow> is_space c \<or> (28 \<le> (of_char c :: nat) \<and> (of_char c :: nat) \<le> 31)"

definition py_strip :: "string \<Rightarrow> string" where
  "py_strip s = rev (dropWhile py_space (rev (dropWhile py_space s)))"

text \<open>\<open>s.split()\<close>; with a separator, \<open>s.split(sep)\<close> is \<open>Split s sep\<close> and \<open>s.split(sep, 1)\<close> is \<open>SplitN s sep 2\<close>.\<close>

fun py_words_from :: "string \<Rightarrow> string \<Rightarrow> string list" where
  "py_words_from cur [] = (if cur = [] then [] else [cur])"
| "py_words_from cur (c # cs) =
     (if py_space c then (if cur = [] then py_words_from [] cs else cur # py_words_from [] cs)
      else py_words_from (cur @ [c]) cs)"

definition py_words :: "string \<Rightarrow> string list" where
  "py_words s = py_words_from [] s"

text \<open>The digits of a number, with single underscores between them.\<close>

fun py_digits :: "string \<Rightarrow> bool" where
  "py_digits [] = False"
| "py_digits [c] = is_digit c"
| "py_digits (c # d # cs) =
     (is_digit c \<and> (if d = CHR ''_'' then py_digits cs else py_digits (d # cs)))"

definition py_int :: "string \<Rightarrow> int option" where
  "py_int s =
     (let t = py_strip s;
          neg = (t \<noteq> [] \<and> hd t = CHR ''-'');
          ds = (if t \<noteq> [] \<and> (hd t = CHR ''-'' \<or> hd t = CHR ''+'') then tl t else t);
          n = int (digits_val (filter is_digit ds))
      in if py_digits ds then Some (if neg then - n else n) else None)"

section \<open>Data\<close>

record FLUXResponse =
  rsVersion :: string
  rsCorrelationId :: string
  rsStatus :: string
  rsPayload :: "string option"
  rsCode :: "string option"
  rsMessage :: "string option"
  rsRaw :: string

text \<open>\<open>IntError s\<close> is the \<open>ValueError\<close> of \<open>int(s)\<close>, \<open>IndexError\<close> that of the first word of a blank text.\<close>

datatype py_error =
    ValueError string
  | IntError string
  | IndexError
  | RuntimeError string
  | ConnectionError string
  | OSError string
  | FLUXProtocolError string string FLUXResponse

record ProduceResult =
  prPartition :: int
  prOffset :: int
  prHighWatermark :: "int option"
  prRaw :: FLUXResponse

record ConsumedMessage =
  cmOffset :: int
  cmValue :: string

record JoinResult_py =
  jrGeneration :: int
  jrAssigned :: "int list"
  jrRaw :: FLUXResponse

text \<open>\<open>SyncResult\<close> has the same fields as \<open>JoinResult\<close>.\<close>

type_synonym SyncResult = JoinResult_py

record ReplicaFetchResult =
  rfReplicaId :: int
  rfAckedOffset :: int
  rfHighWatermark :: int
  rfIsr :: "int list"
  rfUnderReplicated :: bool
  rfRaw :: FLUXResponse

record PartitionRoleResult =
  roTopic :: string
  roPartition :: int
  roRole :: string
  roHighWatermark :: int
  roRaw :: FLUXResponse

record AdminCreateTopicResult =
  ctTopic :: string
  ctPartitions :: int
  ctReplicationFactor :: int
  ctTerm :: int
  ctIndex :: int
  ctRaw :: FLUXResponse

record AdminRegisterBrokerResult =
  rbBrokerId :: int
  rbHost :: string
  rbPort :: int
  rbTerm :: int
  rbIndex :: int
  rbRaw :: FLUXResponse

record AdminBrokerHeartbeatResult =
  bhBrokerId :: int
  bhHeartbeatOk :: bool
  bhTerm :: int
  bhIndex :: int
  bhRaw :: FLUXResponse

record AdminSetPartitionLeaderResult =
  slTopic :: string
  slPartition :: int
  slLeader :: int
  slIsr :: "int list"
  slTerm :: int
  slIndex :: int
  slRaw :: FLUXResponse

record AdminMetadataResult =
  amTopics :: "string list"
  amBrokers :: "int list"
  amRaw :: FLUXResponse

record FLUXClient =
  clHost :: string
  clPort :: int
  clOpen :: bool
  clSeq :: int

type_synonym 'n exchange = "string \<Rightarrow> 'n \<Rightarrow> 'n \<times> string result"

section \<open>Parsing\<close>

definition parse_response :: "string \<Rightarrow> py_error + FLUXResponse" where
  "parse_response line =
     (let parts = Split line ''|''
      in if length parts < 3 then Inl (ValueError (''Invalid FLUX response: '' @ line))
         else if parts ! 0 \<noteq> ''V1''
         then Inl (ValueError (''Unsupported FLUX response version: '' @ parts ! 0))
         else if parts ! 2 = ''OK''
         then Inr \<lparr>rsVersion = parts ! 0, rsCorrelationId = parts ! 1, rsStatus = ''OK'',
                  rsPayload = Some (if length parts > 3 then Join (drop 3 parts) ''|'' else []),
                  rsCode = None, rsMessage = None, rsRaw = line\<rparr>
         else if parts ! 2 = ''ERR''
         then Inr \<lparr>rsVersion = parts ! 0, rsCorrelationId = parts ! 1, rsStatus = ''ERR'', rsPayload = None,
                  rsCode = Some (if length parts > 3 then parts ! 3 else ''UNKNOWN_ERROR''),
                  rsMessage = Some (if length parts > 4 then Join (drop 4 parts) ''|'' else ''unknown error''),
                  rsRaw = line\<rparr>
         else Inl (ValueError (''Unknown FLUX response status: '' @ parts ! 2)))"

definition must_payload :: "FLUXResponse \<Rightarrow> string \<Rightarrow> py_error + string" where
  "must_payload resp fallback =
     (case rsPayload resp of None \<Rightarrow> Inl (ValueError fallback) | Some p \<Rightarrow> Inr p)"

definition first_word :: "string \<Rightarrow> py_error + string" where
  "first_word s = (case py_words s of [] \<Rightarrow> Inl IndexError | w # _ \<Rightarrow> Inr w)"

definition to_int :: "string \<Rightarrow> py_error + int" where
  "to_int s = (case py_int s of None \<Rightarrow> Inl (IntError s) | Some i \<Rightarrow> Inr i)"

fun to_ints :: "string list \<Rightarrow> py_error + int list" where
  "to_ints [] = Inr []"
| "to_ints (w # ws) = andThen (to_int w) (\<lambda>i. andThen (to_ints ws) (\<lambda>is. Inr (i # is)))"

definition missing :: "string \<Rightarrow> string \<Rightarrow> py_error" where
  "missing payload key = ValueError (''Field '' @ key @ '' missing in payload: '' @ payload)"

definition extract_string_field :: "string \<Rightarrow> string \<Rightarrow> py_error + string" where
  "extract_string_field payload key =
     (case Index payload (key @ ''='') of
        None \<Rightarrow> Inl (missing payload key)
      | Some start \<Rightarrow> andThen (first_word (drop (start + length (key @ ''='')) payload)) (\<lambda>w. Inr (py_strip w)))"

definition extract_int_field :: "string \<Rightarrow> string \<Rightarrow> py_error + int" where
  "extract_int_field payload key =
     (case Index payload (key @ ''='') of
        None \<Rightarrow> Inl (missing payload key)
      | Some start \<Rightarrow> andThen (first_word (drop (start + length (key @ ''='')) payload)) to_int)"

definition extract_bool_field :: "string \<Rightarrow> string \<Rightarrow> py_error + bool" where
  "extract_bool_field payload key =
     (case Index payload (key @ ''='') of
        None \<Rightarrow> Inl (missing payload key)
      | Some start \<Rightarrow>
          andThen (first_word (drop (start + length (key @ ''='')) payload)) (\<lambda>w.
            let v = ToLower (py_strip w)
            in if v = ''true'' then Inr True
               else if v = ''false'' then Inr False
               else Inl (ValueError (''Invalid boolean for '' @ key @ '': '' @ payload))))"

text \<open>The text between the brackets of \<open>key=[...]\<close>: nothing, an error, or the text without outer blanks.\<close>

definition bracketed :: "string \<Rightarrow> string \<Rightarrow> py_error + string" where
  "bracketed payload key =
     (case Index payload (key @ ''=['') of
        None \<Rightarrow> Inr []
      | Some start \<Rightarrow>
          let rest = drop (start + length (key @ ''=['')) payload
          in case Index rest '']'' of
               None \<Rightarrow> Inl (ValueError (''Field '' @ key @ '' malformed in payload: '' @ payload))
             | Some end \<Rightarrow> Inr (py_strip (take end rest)))"

definition extract_int_list_field :: "string \<Rightarrow> string \<Rightarrow> py_error + int list" where
  "extract_int_list_field payload key =
     andThen (bracketed payload key) (\<lambda>body. if body = [] then Inr [] else to_ints (py_words body))"

definition extract_list_field :: "string \<Rightarrow> string \<Rightarrow> py_error + string list" where
  "extract_list_field payload key =
     andThen (bracketed payload key) (\<lambda>body.
       if body = [] then Inr [] else Inr (filter (\<lambda>v. v \<noteq> []) (Split body '' '')))"

text \<open>The loop of \<open>consume\<close> over the items of a payload.\<close>

fun consumed_items :: "string list \<Rightarrow> py_error + ConsumedMessage list" where
  "consumed_items [] = Inr []"
| "consumed_items (item # items) =
     (if item = [] then consumed_items items
      else
        let segs = Split item '':''
        in if length segs < 2 then Inl (ValueError (''Invalid consume message item: '' @ item))
           else andThen (to_int (segs ! 0)) (\<lambda>off.
             andThen (consumed_items items) (\<lambda>out.
               Inr (\<lparr>cmOffset = off, cmValue = Join (drop 1 segs) '':''\<rparr> # out))))"

definition consumed_messages :: "string \<Rightarrow> py_error + ConsumedMessage list" where
  "consumed_messages payload =
     (let parts = SplitN payload ''messages='' 2;
          data = (if length parts = 2 then parts ! 1 else []);
          items = py_strip (SplitN data '' hw='' 2 ! 0)
      in if py_strip items = [] then Inr [] else consumed_items (Split items '',''))"

text \<open>The assignment in the answers to \<open>JOIN\<close> and \<open>SYNC\<close>.\<close>

definition join_result :: "FLUXResponse \<Rightarrow> string \<Rightarrow> py_error + JoinResult_py" where
  "join_result resp payload =
     andThen (extract_int_field payload ''generation'') (\<lambda>gen.
       let none = \<lparr>jrGeneration = gen, jrAssigned = [], jrRaw = resp\<rparr>
       in case (Index payload ''['', Index payload '']'') of
            (Some start, Some end) \<Rightarrow>
              if end \<le> start then Inr none
              else
                let body = py_strip (take (end - (start + 1)) (drop (start + 1) payload))
                in if body = [] then Inr none
                   else andThen (to_ints (py_words body)) (\<lambda>assigned. Inr (none\<lparr>jrAssigned := assigned\<rparr>))
          | _ \<Rightarrow> Inr none)"

section \<open>The connection\<close>

definition py_client :: "string \<Rightarrow> int \<Rightarrow> FLUXClient" where
  "py_client host port = \<lparr>clHost = host, clPort = port, clOpen = False, clSeq = 1\<rparr>"

definition py_connect ::
  "(string \<Rightarrow> int \<Rightarrow> 'n \<Rightarrow> 'n \<times> string option) \<Rightarrow> FLUXClient \<times> 'n \<Rightarrow> (FLUXClient \<times> 'n) \<times> (py_error + unit)" where
  "py_connect dial cn =
     (if clOpen (fst cn) then (cn, Inr ())
      else case dial (clHost (fst cn)) (clPort (fst cn)) (snd cn) of
        (n, None) \<Rightarrow> (((fst cn)\<lparr>clOpen := True\<rparr>, n), Inr ())
      | (n, Some e) \<Rightarrow> ((fst cn, n), Inl (OSError e)))"

definition py_close :: "FLUXClient \<times> 'n \<Rightarrow> FLUXClient \<times> 'n" where
  "py_close cn = ((fst cn)\<lparr>clOpen := False\<rparr>, snd cn)"

text \<open>\<open>x or default\<close>\<close>

definition or_default :: "string option \<Rightarrow> string \<Rightarrow> string" where
  "or_default x d = (case x of None \<Rightarrow> d | Some s \<Rightarrow> if s = [] then d else s)"

definition answer :: "string \<Rightarrow> string \<Rightarrow> py_error + FLUXResponse" where
  "answer cid raw_line =
     (if raw_line = [] then Inl (ConnectionError ''FLUX connection closed by server'')
      else andThen (parse_response (py_strip raw_line)) (\<lambda>response.
        if rsCorrelationId response \<noteq> cid
        then Inl (RuntimeError (''Correlation mismatch: expected='' @ cid @ '' got='' @ rsCorrelationId response))
        else if rsStatus response = ''ERR''
        then Inl (FLUXProtocolError (or_default (rsMessage response) ''FLUX protocol error'')
                    (or_default (rsCode response) ''UNKNOWN_ERROR'') response)
        else Inr response))"

definition send_command ::
  "'n exchange \<Rightarrow> string \<Rightarrow> string \<Rightarrow> FLUXClient \<times> 'n \<Rightarrow> (FLUXClient \<times> 'n) \<times> (py_error + FLUXResponse)" where
  "send_command ex command args cn =
     (let c = fst cn; cid = Itoa (clSeq c); c1 = c\<lparr>clSeq := clSeq c + 1\<rparr>
      in if \<not> clOpen c
         then (cn, Inl (RuntimeError ''FLUX client is not connected. Call connect() first.''))
         else case ex (''V1|'' @ cid @ ''|'' @ command @ ''|'' @ args @ [newline]) (snd cn) of
           (n, Inl e) \<Rightarrow> ((c1, n), Inl (OSError e))
         | (n, Inr raw_line) \<Rightarrow> ((c1, n), answer cid raw_line))"

text \<open>What a command makes of the client.\<close>

abbreviation served :: "FLUXClient \<Rightarrow> FLUXClient" where
  "served c \<equiv> c\<lparr>clSeq := clSeq c + 1\<rparr>"

text \<open>A command, its payload, and what the method makes of it.\<close>

definition request ::
  "'n exchange \<Rightarrow> string \<Rightarrow> string \<Rightarrow> string \<Rightarrow> (FLUXResponse \<Rightarrow> string \<Rightarrow> py_error + 'a) \<Rightarrow>
   FLUXClient \<times> 'n \<Rightarrow> (FLUXClient \<times> 'n) \<times> (py_error + 'a)" where
  "request ex command args fallback parse cn =
     (case send_command ex command args cn of
        (cn1, r) \<Rightarrow> (cn1, andThen r (\<lambda>resp. andThen (must_payload resp fallback) (parse resp))))"

section \<open>The commands\<close>

type_synonym ('n, 'a) remote = "FLUXClient \<times> 'n \<Rightarrow> (FLUXClient \<times> 'n) \<times> (py_error + 'a)"

text \<open>The message of the check that an argument is one of a list of words.\<close>

definition one_of :: "string \<Rightarrow> string list \<Rightarrow> py_error" where
  "one_of name ws =
     ValueError (name @ '' must be one of: '' @ Join (map (\<lambda>w. CHR 0x27 # w @ [CHR 0x27]) ws) '', '')"

definition produce_result :: "FLUXResponse \<Rightarrow> string \<Rightarrow> py_error + ProduceResult" where
  "produce_result resp payload =
     (let rest = (\<lambda>h. andThen (extract_int_field payload ''partition'') (\<lambda>part.
                      andThen (extract_int_field payload ''offset'') (\<lambda>off.
                      Inr \<lparr>prPartition = part, prOffset = off, prHighWatermark = h, prRaw = resp\<rparr>)))
      in case extract_int_field payload ''hw'' of
           Inr h \<Rightarrow> rest (Some h)
         | Inl IndexError \<Rightarrow> Inl IndexError
         | Inl _ \<Rightarrow> rest None)"

definition py_produce :: "'n exchange \<Rightarrow> string \<Rightarrow> string \<Rightarrow> string \<Rightarrow> string \<Rightarrow> ('n, ProduceResult) remote" where
  "py_produce ex topic key val acks cn =
     (if acks \<notin> set [''0'', ''1'', ''all'']
      then (cn, Inl (one_of ''acks'' [''0'', ''1'', ''all'']))
      else request ex ''PRODUCE'' (topic @ '' '' @ key @ '':'' @ val @ '' acks='' @ acks)
             ''produce response payload missing'' produce_result cn)"

definition py_consume :: "'n exchange \<Rightarrow> string \<Rightarrow> int \<Rightarrow> int \<Rightarrow> ('n, ConsumedMessage list) remote" where
  "py_consume ex topic part off =
     request ex ''CONSUME'' (topic @ '' '' @ Itoa part @ '' '' @ Itoa off)
       ''consume response payload missing'' (\<lambda>_. consumed_messages)"

definition py_join :: "'n exchange \<Rightarrow> string \<Rightarrow> string \<Rightarrow> string \<Rightarrow> string option \<Rightarrow> ('n, JoinResult_py) remote" where
  "py_join ex grp topic consumer_id assignor cn =
     (if assignor \<noteq> None \<and> the assignor \<notin> set [''round_robin'', ''range'']
      then (cn, Inl (one_of ''assignor'' [''round_robin'', ''range'']))
      else request ex ''JOIN'' (grp @ '' '' @ topic @ '' '' @ consumer_id @
               (case assignor of None \<Rightarrow> [] | Some a \<Rightarrow> '' assignor='' @ a))
             ''join response payload missing'' join_result cn)"

text \<open>The arguments of the commands of a group member.\<close>

definition member_args :: "string \<Rightarrow> string \<Rightarrow> string \<Rightarrow> int \<Rightarrow> string" where
  "member_args grp topic consumer_id gen = grp @ '' '' @ topic @ '' '' @ consumer_id @ '' '' @ Itoa gen"

definition py_sync :: "'n exchange \<Rightarrow> string \<Rightarrow> string \<Rightarrow> string \<Rightarrow> int \<Rightarrow> ('n, SyncResult) remote" where
  "py_sync ex grp topic consumer_id gen =
     request ex ''SYNC'' (member_args grp topic consumer_id gen) ''sync response payload missing'' join_result"

definition py_heartbeat :: "'n exchange \<Rightarrow> string \<Rightarrow> string \<Rightarrow> string \<Rightarrow> int \<Rightarrow> ('n, bool) remote" where
  "py_heartbeat ex grp topic consumer_id gen =
     request ex ''HEARTBEAT'' (member_args grp topic consumer_id gen) ''heartbeat response payload missing''
       (\<lambda>_ payload. Inr (Contains payload ''heartbeat=ok''))"

definition py_leave :: "'n exchange \<Rightarrow> string \<Rightarrow> string \<Rightarrow> string \<Rightarrow> int \<Rightarrow> ('n, bool) remote" where
  "py_leave ex grp topic consumer_id gen =
     request ex ''LEAVE'' (member_args grp topic consumer_id gen) ''leave response payload missing''
       (\<lambda>_ payload. Inr (Contains payload ''left=true''))"

definition py_commit ::
  "'n exchange \<Rightarrow> string \<Rightarrow> string \<Rightarrow> string \<Rightarrow> int \<Rightarrow> int \<Rightarrow> int \<Rightarrow> ('n, bool) remote" where
  "py_commit ex grp topic consumer_id gen part off =
     request ex ''COMMIT'' (member_args grp topic consumer_id gen @ '' '' @ Itoa part @ '' '' @ Itoa off)
       ''commit response payload missing'' (\<lambda>_ payload. Inr (Contains payload ''committed=true''))"

definition py_offset :: "'n exchange \<Rightarrow> string \<Rightarrow> string \<Rightarrow> int \<Rightarrow> ('n, int) remote" where
  "py_offset ex grp topic part =
     request ex ''OFFSET'' (grp @ '' '' @ topic @ '' '' @ Itoa part) ''offset response payload missing''
       (\<lambda>_ payload. extract_int_field payload ''offset'')"

definition py_replica_fetch :: "'n exchange \<Rightarrow> string \<Rightarrow> int \<Rightarrow> int \<Rightarrow> int \<Rightarrow> ('n, ReplicaFetchResult) remote" where
  "py_replica_fetch ex topic part replica_id off =
     request ex ''REPLICA_FETCH'' (topic @ '' '' @ Itoa part @ '' '' @ Itoa replica_id @ '' '' @ Itoa off)
       ''replica fetch response payload missing'' (\<lambda>resp payload.
         andThen (extract_int_field payload ''replica'') (\<lambda>replica.
         andThen (extract_int_field payload ''acked_offset'') (\<lambda>acked.
         andThen (extract_int_field payload ''hw'') (\<lambda>hw.
         andThen (extract_int_list_field payload ''isr'') (\<lambda>isr.
         andThen (extract_bool_field payload ''under_replicated'') (\<lambda>under.
         Inr \<lparr>rfReplicaId = replica, rfAckedOffset = acked, rfHighWatermark = hw, rfIsr = isr,
              rfUnderReplicated = under, rfRaw = resp\<rparr>))))))"

definition py_set_partition_role :: "'n exchange \<Rightarrow> string \<Rightarrow> int \<Rightarrow> string \<Rightarrow> ('n, PartitionRoleResult) remote" where
  "py_set_partition_role ex topic part newRole cn =
     (if newRole \<notin> set [''leader'', ''follower'']
      then (cn, Inl (one_of ''role'' [''leader'', ''follower'']))
      else request ex ''SET_PARTITION_ROLE'' (topic @ '' '' @ Itoa part @ '' '' @ newRole)
             ''set partition role payload missing'' (\<lambda>resp payload.
         andThen (extract_string_field payload ''role'') (\<lambda>parsed_role.
         if parsed_role \<notin> set [''leader'', ''follower'']
         then Inl (ValueError (''Invalid role in payload: '' @ payload))
         else
         andThen (extract_string_field payload ''topic'') (\<lambda>t.
         andThen (extract_int_field payload ''partition'') (\<lambda>p.
         andThen (extract_int_field payload ''hw'') (\<lambda>hw.
         Inr \<lparr>roTopic = t, roPartition = p, roRole = parsed_role, roHighWatermark = hw, roRaw = resp\<rparr>))))) cn)"

text \<open>The fields \<open>term\<close> and \<open>index\<close> of the answers to \<open>ADMIN\<close> commands.\<close>

definition with_position :: "string \<Rightarrow> (int \<Rightarrow> int \<Rightarrow> 'a) \<Rightarrow> py_error + 'a" where
  "with_position payload f =
     andThen (extract_int_field payload ''term'') (\<lambda>tm.
     andThen (extract_int_field payload ''index'') (\<lambda>ix. Inr (f tm ix)))"

definition py_admin_create_topic :: "'n exchange \<Rightarrow> string \<Rightarrow> int \<Rightarrow> int \<Rightarrow> ('n, AdminCreateTopicResult) remote" where
  "py_admin_create_topic ex topic parts rf =
     request ex ''ADMIN_CREATE_TOPIC'' (topic @ '' '' @ Itoa parts @ '' '' @ Itoa rf)
       ''admin create topic payload missing'' (\<lambda>resp payload.
         andThen (extract_string_field payload ''topic'') (\<lambda>t.
         andThen (extract_int_field payload ''partitions'') (\<lambda>p.
         andThen (extract_int_field payload ''replication_factor'') (\<lambda>r.
         with_position payload (\<lambda>tm ix. \<lparr>ctTopic = t, ctPartitions = p, ctReplicationFactor = r,
           ctTerm = tm, ctIndex = ix, ctRaw = resp\<rparr>)))))"

definition py_admin_register_broker ::
  "'n exchange \<Rightarrow> int \<Rightarrow> string \<Rightarrow> int \<Rightarrow> int option \<Rightarrow> ('n, AdminRegisterBrokerResult) remote" where
  "py_admin_register_broker ex broker_id host port epoch =
     request ex ''ADMIN_REGISTER_BROKER'' (Itoa broker_id @ '' '' @ host @ '' '' @ Itoa port @
         (case epoch of None \<Rightarrow> [] | Some e \<Rightarrow> '' '' @ Itoa e))
       ''admin register broker payload missing'' (\<lambda>resp payload.
         andThen (extract_int_field payload ''broker_id'') (\<lambda>i.
         andThen (extract_string_field payload ''host'') (\<lambda>h.
         andThen (extract_int_field payload ''port'') (\<lambda>p.
         with_position payload (\<lambda>tm ix. \<lparr>rbBrokerId = i, rbHost = h, rbPort = p,
           rbTerm = tm, rbIndex = ix, rbRaw = resp\<rparr>)))))"

definition py_admin_broker_heartbeat :: "'n exchange \<Rightarrow> int \<Rightarrow> ('n, AdminBrokerHeartbeatResult) remote" where
  "py_admin_broker_heartbeat ex broker_id =
     request ex ''ADMIN_BROKER_HEARTBEAT'' (Itoa broker_id) ''admin broker heartbeat payload missing''
       (\<lambda>resp payload.
         andThen (extract_int_field payload ''broker_id'') (\<lambda>i.
         with_position payload (\<lambda>tm ix. \<lparr>bhBrokerId = i, bhHeartbeatOk = Contains payload ''heartbeat=ok'',
           bhTerm = tm, bhIndex = ix, bhRaw = resp\<rparr>)))"

definition py_admin_set_partition_leader ::
  "'n exchange \<Rightarrow> string \<Rightarrow> int \<Rightarrow> int \<Rightarrow> int list \<Rightarrow> ('n, AdminSetPartitionLeaderResult) remote" where
  "py_admin_set_partition_leader ex topic part leader_id isr =
     request ex ''ADMIN_SET_PARTITION_LEADER''
       (topic @ '' '' @ Itoa part @ '' '' @ Itoa leader_id @ '' '' @ Join (map Itoa isr) '','')
       ''admin set partition leader payload missing'' (\<lambda>resp payload.
         andThen (extract_string_field payload ''topic'') (\<lambda>t.
         andThen (extract_int_field payload ''partition'') (\<lambda>p.
         andThen (extract_int_field payload ''leader'') (\<lambda>l.
         andThen (extract_int_list_field payload ''isr'') (\<lambda>is.
         with_position payload (\<lambda>tm ix. \<lparr>slTopic = t, slPartition = p, slLeader = l, slIsr = is,
           slTerm = tm, slIndex = ix, slRaw = resp\<rparr>))))))"

definition py_admin_get_metadata :: "'n exchange \<Rightarrow> ('n, AdminMetadataResult) remote" where
  "py_admin_get_metadata ex =
     request ex ''ADMIN_GET_METADATA'' [] ''admin get metadata payload missing'' (\<lambda>resp payload.
       andThen (extract_list_field payload ''topics'') (\<lambda>topics.
       andThen (extract_list_field payload ''brokers'') (\<lambda>ids.
       andThen (to_ints (filter (\<lambda>v. v \<noteq> []) ids)) (\<lambda>brokers.
       Inr \<lparr>amTopics = topics, amBrokers = brokers, amRaw = resp\<rparr>))))"

section \<open>Lemmas: text and numbers\<close>

lemma py_space_simps [simp]:
  "py_space (CHR '' '')" "py_space newline" "\<not> py_space (CHR ''V'')" "\<not> py_space (CHR ''='')"
  by (simp_all add: py_space_def is_space_def newline_def)

lemma not_digit_sign: "\<not> is_digit (CHR ''-'')" "\<not> is_digit (CHR ''+'')"
  by (simp_all add: is_digit_def)

lemma py_space_digit: "is_digit c \<or> c = CHR ''-'' \<Longrightarrow> \<not> py_space c"
  by (auto simp: py_space_def is_space_def is_digit_def)

lemma py_space_Itoa: "c \<in> set (Itoa i) \<Longrightarrow> \<not> py_space c"
  using Itoa_chars py_space_digit by blast

lemma py_strip_id:
  assumes "s = [] \<or> (\<not> py_space (hd s) \<and> \<not> py_space (last s))"
  shows "py_strip s = s"
proof (cases "s = []")
  case False
  then have "dropWhile py_space s = s" "dropWhile py_space (rev s) = rev s"
    using assms by (auto simp: dropWhile_eq_self_iff hd_rev)
  then show ?thesis by (simp add: py_strip_def)
qed (simp add: py_strip_def)

lemma py_strip_no_space: "\<forall>c \<in> set s. \<not> py_space c \<Longrightarrow> py_strip s = s"
  by (cases "s = []") (auto intro!: py_strip_id)

lemma py_strip_snoc:
  "py_space c \<Longrightarrow> \<not> py_space (last s) \<Longrightarrow> \<not> py_space (hd s) \<Longrightarrow> s \<noteq> [] \<Longrightarrow> py_strip (s @ [c]) = s"
  using py_strip_id [of s] by (cases s) (simp_all add: py_strip_def)

lemma py_digits_all: "ds \<noteq> [] \<Longrightarrow> list_all is_digit ds \<Longrightarrow> py_digits ds"
  by (induction ds rule: py_digits.induct) (auto simp: is_digit_def)

lemma py_int_Itoa [simp]: "py_int (Itoa i) = Some i"
proof -
  have s: "py_strip (Itoa i) = Itoa i" using py_space_Itoa by (intro py_strip_no_space) blast
  have d: "py_digits (digits_base 10 n)" "filter is_digit (digits_base 10 n) = digits_base 10 n" for n
    using digits_base_10_digits [of n] by (auto intro: py_digits_all simp: filter_id_conv list_all_iff)
  have "is_digit (hd (digits_base 10 n))" for n
    using digits_base_10_digits [of n] by (metis digits_base_nonempty list.set_sel(1) list_all_iff)
  then have h: "hd (digits_base 10 n) \<noteq> CHR ''-''" "hd (digits_base 10 n) \<noteq> CHR ''+''" for n
    by (metis not_digit_sign(1), metis not_digit_sign(2))
  show ?thesis unfolding py_int_def s Let_def using d h by (simp add: Itoa_def)
qed

lemma to_int_Itoa [simp]: "to_int (Itoa i) = Inr i"
  by (simp add: to_int_def)

lemma to_ints_Itoa [simp]: "to_ints (map Itoa is) = Inr is"
  by (induction "is") simp_all

lemma py_words_from_word: "\<forall>c \<in> set w. \<not> py_space c \<Longrightarrow> py_words_from cur (w @ s) = py_words_from (cur @ w) s"
  by (induction w arbitrary: cur) auto

lemma first_word_word:
  assumes "w \<noteq> []" "\<forall>c \<in> set w. \<not> py_space c" "rest = [] \<or> py_space (hd rest)"
  shows "first_word (w @ rest) = Inr w"
  using assms py_words_from_word [OF assms(2), of "[]" rest]
  by (cases rest) (simp_all add: first_word_def py_words_def)

lemma py_words_Join:
  assumes "\<forall>x \<in> set xs. x \<noteq> [] \<and> (\<forall>c \<in> set x. \<not> py_space c)"
  shows "py_words (Join xs '' '') = xs"
  unfolding py_words_def using assms
proof (induction xs "'' ''" rule: Join.induct)
  case (2 x)
  then show ?case using py_words_from_word [of x "[]" "[]"] by simp
next
  case (3 x y xs)
  then show ?case using py_words_from_word [of x "[]" "'' '' @ Join (y # xs) '' ''"] by simp
qed simp

section \<open>Lemmas: responses are read back\<close>

lemma parse_response_OK:
  assumes "CHR ''|'' \<notin> set cid"
  shows "parse_response (''V1|'' @ cid @ ''|OK|'' @ payload) = Inr \<lparr>rsVersion = ''V1'', rsCorrelationId = cid,
    rsStatus = ''OK'', rsPayload = Some payload, rsCode = None, rsMessage = None, rsRaw = ''V1|'' @ cid @ ''|OK|'' @ payload\<rparr>"
proof -
  obtain P where P: "P \<noteq> []" "payload = Join P ''|''" "\<forall>x \<in> set P. CHR ''|'' \<notin> set x"
    using pieces [of payload "CHR ''|''"] by blast
  then obtain x xs where x: "P = x # xs" by (cases P) auto
  have line: "''V1|'' @ cid @ ''|OK|'' @ payload = Join (''V1'' # cid # ''OK'' # x # xs) ''|''" using P x by simp
  have "Split (Join (''V1'' # cid # ''OK'' # x # xs) ''|'') ''|'' = ''V1'' # cid # ''OK'' # x # xs"
    using P assms x by (intro Split_Join) auto
  then show ?thesis unfolding parse_response_def Let_def line using P x by simp
qed

lemma parse_response_ERR:
  assumes "CHR ''|'' \<notin> set cid" "CHR ''|'' \<notin> set code"
  shows "parse_response (''V1|'' @ cid @ ''|ERR|'' @ code @ ''|'' @ msg) = Inr \<lparr>rsVersion = ''V1'', rsCorrelationId = cid,
    rsStatus = ''ERR'', rsPayload = None, rsCode = Some code, rsMessage = Some msg,
    rsRaw = ''V1|'' @ cid @ ''|ERR|'' @ code @ ''|'' @ msg\<rparr>"
proof -
  obtain P where P: "P \<noteq> []" "msg = Join P ''|''" "\<forall>x \<in> set P. CHR ''|'' \<notin> set x"
    using pieces [of msg "CHR ''|''"] by blast
  then obtain x xs where x: "P = x # xs" by (cases P) auto
  have line: "''V1|'' @ cid @ ''|ERR|'' @ code @ ''|'' @ msg = Join (''V1'' # cid # ''ERR'' # code # x # xs) ''|''" using P x by simp
  have "Split (Join (''V1'' # cid # ''ERR'' # code # x # xs) ''|'') ''|'' = ''V1'' # cid # ''ERR'' # code # x # xs"
    using P assms x by (intro Split_Join) auto
  then show ?thesis unfolding parse_response_def Let_def line using P x by simp
qed

lemma extract_int_field_here:
  assumes "Index payload (key @ ''='') = Some (length pre)" "payload = pre @ key @ ''='' @ Itoa i @ rest"
    "rest = [] \<or> py_space (hd rest)"
  shows "extract_int_field payload key = Inr i"
proof -
  have "payload = (pre @ key @ ''='') @ Itoa i @ rest" using assms(2) by simp
  then have "drop (length pre + length (key @ ''='')) payload = Itoa i @ rest"
    by (metis drop_length_append length_append)
  then show ?thesis
    using assms(1,3) first_word_word [of "Itoa i" rest] py_space_Itoa by (auto simp: extract_int_field_def)
qed

end
