(* ===== verification/Python_Runtime.thy ===== *)
theory Python_Runtime
  imports Python_Client "HOL-Library.Sublist"
begin

text \<open>
  \<open>packages/sdk/python/src/flux_sdk/runtime.py\<close>: producers and consumers on top of the Python client.
  Sleeping and the printed warnings are left out. The callbacks of the user are functions on a state
  of their own, which may raise. The heartbeat thread and calls of \<open>disconnect\<close> from other threads are
  events between the turns of a consumer's loop: the lock of the client lets one command run at a time.
\<close>

section \<open>Errors and retries\<close>

definition err_text :: "py_error \<Rightarrow> string" where
  "err_text e =
     (case e of
        ValueError m \<Rightarrow> m
      | IntError s \<Rightarrow> ''invalid literal for int() with base 10: '' @ [CHR 0x27] @ s @ [CHR 0x27]
      | IndexError \<Rightarrow> ''list index out of range''
      | RuntimeError m \<Rightarrow> m
      | ConnectionError m \<Rightarrow> m
      | OSError m \<Rightarrow> m
      | FLUXProtocolError m code resp \<Rightarrow> m)"

definition is_generation_mismatch :: "py_error \<Rightarrow> bool" where
  "is_generation_mismatch e =
     (case e of FLUXProtocolError m code resp \<Rightarrow> code = ''GENERATION_MISMATCH'' | _ \<Rightarrow> False)"

definition is_retryable_broker_error :: "py_error \<Rightarrow> bool" where
  "is_retryable_broker_error e =
     ((case e of FLUXProtocolError m code resp \<Rightarrow> code = ''NOT_LEADER'' | _ \<Rightarrow> False)
      \<or> Contains (err_text e) ''connection closed'' \<or> Contains (err_text e) ''Connection refused''
      \<or> Contains (err_text e) ''timed out'' \<or> Contains (err_text e) ''socket hang up'')"

text \<open>The loop of \<open>_with_retry\<close> with the number of attempts left after this one.\<close>

fun retryLoop :: "nat \<Rightarrow> ('s \<Rightarrow> 's \<times> (py_error + 'a)) \<Rightarrow> 's \<Rightarrow> 's \<times> (py_error + 'a)" where
  "retryLoop 0 op s = op s"
| "retryLoop (Suc k) op s = (case op s of (s1, Inl e) \<Rightarrow> retryLoop k op s1 | (s1, Inr x) \<Rightarrow> (s1, Inr x))"

definition with_retry :: "int \<Rightarrow> ('s \<Rightarrow> 's \<times> (py_error + 'a)) \<Rightarrow> 's \<Rightarrow> 's \<times> (py_error + 'a)" where
  "with_retry max_retries op = retryLoop (nat max_retries) op"

section \<open>Producers\<close>

record ProducerMessage =
  pmKey :: string
  pmValue :: string

record ProducerSendParams =
  spTopic :: string
  spMessages :: "ProducerMessage list"
  spAcks :: string

record FLUXProducer =
  pdMaxRetries :: int
  pdBatchSize :: int

type_synonym 'n dial = "string \<Rightarrow> int \<Rightarrow> 'n \<Rightarrow> 'n \<times> string option"

text \<open>\<open>messages[i : i + batch_size]\<close> for \<open>i\<close> in \<open>range(0, len(messages), batch_size)\<close>, for a positive size.\<close>

function chunks :: "nat \<Rightarrow> 'a list \<Rightarrow> 'a list list" where
  "chunks n xs = (if n = 0 \<or> xs = [] then [] else take n xs # chunks n (drop n xs))"
  by auto
termination by (relation "measure (length \<circ> snd)") auto

declare chunks.simps [simp del]

fun sendBatch ::
  "'n exchange \<Rightarrow> int \<Rightarrow> string \<Rightarrow> string \<Rightarrow> ProducerMessage list \<Rightarrow> ('n, unit) remote" where
  "sendBatch ex max_retries topic acks [] cn = (cn, Inr ())"
| "sendBatch ex max_retries topic acks (msg # msgs) cn =
     (case with_retry max_retries (py_produce ex topic (pmKey msg) (pmValue msg) acks) cn of
        (cn1, Inl e) \<Rightarrow> (cn1, Inl e)
      | (cn1, Inr _) \<Rightarrow> sendBatch ex max_retries topic acks msgs cn1)"

fun sendBatches ::
  "'n exchange \<Rightarrow> int \<Rightarrow> string \<Rightarrow> string \<Rightarrow> ProducerMessage list list \<Rightarrow> ('n, unit) remote" where
  "sendBatches ex max_retries topic acks [] cn = (cn, Inr ())"
| "sendBatches ex max_retries topic acks (batch # rest) cn =
     (case sendBatch ex max_retries topic acks batch cn of
        (cn1, Inl e) \<Rightarrow> (cn1, Inl e)
      | (cn1, Inr _) \<Rightarrow> sendBatches ex max_retries topic acks rest cn1)"

definition producer_send ::
  "'n dial \<Rightarrow> 'n exchange \<Rightarrow> FLUXProducer \<Rightarrow> ProducerSendParams \<Rightarrow> ('n, unit) remote" where
  "producer_send dial ex p params cn =
     (if spMessages params = [] then (cn, Inr ())
      else case with_retry (pdMaxRetries p) (py_connect dial) cn of
        (cn1, Inl e) \<Rightarrow> (cn1, Inl e)
      | (cn1, Inr _) \<Rightarrow>
          let (cn2, r) = (if pdBatchSize p = 0 then (cn1, Inl (ValueError ''range() arg 3 must not be zero''))
                          else sendBatches ex (pdMaxRetries p) (spTopic params) (spAcks params)
                                 (if pdBatchSize p < 0 then [] else chunks (nat (pdBatchSize p)) (spMessages params)) cn1)
          in (py_close cn2, r))"

record FLUXRuntime =
  rtBrokers :: "(string \<times> int) list"
  rtEndpointIndex :: nat

definition newRuntime :: "string \<Rightarrow> int \<Rightarrow> (string \<times> int) list option \<Rightarrow> FLUXRuntime" where
  "newRuntime host port brokers =
     \<lparr>rtBrokers = (case brokers of Some (b # bs) \<Rightarrow> b # bs | _ \<Rightarrow> [(host, port)]), rtEndpointIndex = 0\<rparr>"

definition next_client :: "FLUXRuntime \<Rightarrow> FLUXClient" where
  "next_client rt = (case rtBrokers rt ! rtEndpointIndex rt of (host, port) \<Rightarrow> py_client host port)"

definition rotate_client :: "FLUXRuntime \<Rightarrow> FLUXRuntime \<times> FLUXClient" where
  "rotate_client rt =
     (let rt1 = rt\<lparr>rtEndpointIndex := (rtEndpointIndex rt + 1) mod length (rtBrokers rt)\<rparr>
      in (rt1, next_client rt1))"

text \<open>The loop of \<open>wrapped_send\<close>, with the number of endpoints it may still try.\<close>

fun wrapped_send ::
  "'n dial \<Rightarrow> 'n exchange \<Rightarrow> FLUXProducer \<Rightarrow> ProducerSendParams \<Rightarrow> nat \<Rightarrow>
   FLUXRuntime \<times> FLUXClient \<times> 'n \<Rightarrow> (FLUXRuntime \<times> FLUXClient \<times> 'n) \<times> (py_error + unit)" where
  "wrapped_send dial ex p params 0 st = (st, Inr ())"
| "wrapped_send dial ex p params (Suc k) (rt, cn) =
     (case producer_send dial ex p params cn of
        (cn1, Inr _) \<Rightarrow> ((rt, cn1), Inr ())
      | (cn1, Inl e) \<Rightarrow>
          if \<not> is_retryable_broker_error e \<or> k = 0 then ((rt, cn1), Inl e)
          else let (rt1, c1) = rotate_client rt in wrapped_send dial ex p params k (rt1, c1, snd cn1))"

definition runtime_send ::
  "'n dial \<Rightarrow> 'n exchange \<Rightarrow> FLUXProducer \<Rightarrow> ProducerSendParams \<Rightarrow>
   FLUXRuntime \<times> FLUXClient \<times> 'n \<Rightarrow> (FLUXRuntime \<times> FLUXClient \<times> 'n) \<times> (py_error + unit)" where
  "runtime_send dial ex p params st = wrapped_send dial ex p params (max 1 (length (rtBrokers (fst st)))) st"

section \<open>Consumers\<close>

record FLUXConsumer =
  coGroup :: string
  coConsumer :: string
  coAssignor :: string
  coAutoCommit :: bool
  coAutoRejoin :: bool
  coMaxRetries :: int
  coTopic :: string
  coGeneration :: int
  coAssigned :: "int list"
  coRunning :: bool
  coRejoinNeeded :: bool

text \<open>The callbacks of the user; \<open>None\<close> where none was given.\<close>

record 'u callbacks =
  onAssign :: "(int list \<Rightarrow> 'u \<Rightarrow> 'u \<times> py_error option) option"
  onRevoke :: "(int list \<Rightarrow> 'u \<Rightarrow> 'u \<times> py_error option) option"
  onCrash :: "(py_error \<Rightarrow> 'u \<Rightarrow> 'u \<times> py_error option) option"
  eachMessage :: "string \<Rightarrow> int \<Rightarrow> ConsumedMessage \<Rightarrow> 'u \<Rightarrow> 'u \<times> py_error option"

record ('n, 'u) session =
  seConsumer :: FLUXConsumer
  seClient :: "FLUXClient \<times> 'n"
  seUser :: 'u

type_synonym ('n, 'u, 'a) action = "('n, 'u) session \<Rightarrow> ('n, 'u) session \<times> (py_error + 'a)"

definition consumer_of :: "string \<Rightarrow> string \<Rightarrow> string \<Rightarrow> bool \<Rightarrow> bool \<Rightarrow> int \<Rightarrow> FLUXConsumer" where
  "consumer_of grp consumer_id assignor auto_commit auto_rejoin max_retries =
     \<lparr>coGroup = grp, coConsumer = consumer_id, coAssignor = assignor, coAutoCommit = auto_commit,
      coAutoRejoin = auto_rejoin, coMaxRetries = max_retries, coTopic = [], coGeneration = 0, coAssigned = [],
      coRunning = False, coRejoinNeeded = False\<rparr>"

definition upd :: "(FLUXConsumer \<Rightarrow> FLUXConsumer) \<Rightarrow> ('n, 'u) session \<Rightarrow> ('n, 'u) session" where
  "upd f s = s\<lparr>seConsumer := f (seConsumer s)\<rparr>"

definition subscribe :: "string \<Rightarrow> ('n, 'u) session \<Rightarrow> ('n, 'u) session" where
  "subscribe topic = upd (\<lambda>co. co\<lparr>coTopic := topic\<rparr>)"

text \<open>A command of the client, retried; a callback.\<close>

definition command :: "('n, 'a) remote \<Rightarrow> ('n, 'u, 'a) action" where
  "command op s =
     (case with_retry (coMaxRetries (seConsumer s)) op (seClient s) of (cn, r) \<Rightarrow> (s\<lparr>seClient := cn\<rparr>, r))"

definition callback :: "('a \<Rightarrow> 'u \<Rightarrow> 'u \<times> py_error option) option \<Rightarrow> 'a \<Rightarrow> ('n, 'u, unit) action" where
  "callback f x s =
     (case f of
        None \<Rightarrow> (s, Inr ())
      | Some g \<Rightarrow>
          (case g x (seUser s) of
             (u, None) \<Rightarrow> (s\<lparr>seUser := u\<rparr>, Inr ())
           | (u, Some e) \<Rightarrow> (s\<lparr>seUser := u\<rparr>, Inl e)))"

definition seqA :: "('n, 'u, 'a) action \<Rightarrow> ('a \<Rightarrow> ('n, 'u, 'b) action) \<Rightarrow> ('n, 'u, 'b) action" where
  "seqA act k s = (case act s of (s1, Inl e) \<Rightarrow> (s1, Inl e) | (s1, Inr x) \<Rightarrow> k x s1)"

definition run_assign_callback :: "'u callbacks \<Rightarrow> int list \<Rightarrow> ('n, 'u, unit) action" where
  "run_assign_callback cb next_assigned s =
     (let old = coAssigned (seConsumer s);
          assign = upd (\<lambda>co. co\<lparr>coAssigned := next_assigned\<rparr>)
      in if sort old = sort next_assigned then (assign s, Inr ())
         else seqA (if old \<noteq> [] then callback (onRevoke cb) old else (\<lambda>s. (s, Inr ())))
                (\<lambda>_ s1. callback (onAssign cb) next_assigned (assign s1)) s)"

definition join_and_sync :: "'n exchange \<Rightarrow> 'u callbacks \<Rightarrow> ('n, 'u, unit) action" where
  "join_and_sync ex cb s =
     (let co = seConsumer s
      in seqA (command (py_join ex (coGroup co) (coTopic co) (coConsumer co) (Some (coAssignor co)))) (\<lambda>joined s1.
           seqA (\<lambda>s. command (py_sync ex (coGroup co) (coTopic co) (coConsumer co) (coGeneration (seConsumer s))) s)
             (\<lambda>synced s2.
                seqA (run_assign_callback cb (jrAssigned synced)) (\<lambda>_ s3.
                  (upd (\<lambda>co. co\<lparr>coRejoinNeeded := False\<rparr>) s3, Inr ()))
                (upd (\<lambda>co. co\<lparr>coGeneration := jrGeneration synced\<rparr>) s2))
             (upd (\<lambda>co. co\<lparr>coGeneration := jrGeneration joined\<rparr>) s1)) s)"

text \<open>One turn of the heartbeat thread: it does not retry, and every failure while the consumer runs asks for a rejoin.\<close>

definition heartbeat_turn :: "'n exchange \<Rightarrow> ('n, 'u) session \<Rightarrow> ('n, 'u) session" where
  "heartbeat_turn ex s =
     (let co = seConsumer s
      in case py_heartbeat ex (coGroup co) (coTopic co) (coConsumer co) (coGeneration co) (seClient s) of
           (cn, Inr _) \<Rightarrow> s\<lparr>seClient := cn\<rparr>
         | (cn, Inl e) \<Rightarrow>
             (if is_generation_mismatch e \<or> coRunning co
              then upd (\<lambda>co. co\<lparr>coRejoinNeeded := True\<rparr>) (s\<lparr>seClient := cn\<rparr>) else s\<lparr>seClient := cn\<rparr>))"

fun deliver :: "'u callbacks \<Rightarrow> string \<Rightarrow> int \<Rightarrow> ConsumedMessage list \<Rightarrow> ('n, 'u, unit) action" where
  "deliver cb topic part [] s = (s, Inr ())"
| "deliver cb topic part (m # ms) s =
     seqA (callback (Some (eachMessage cb topic part)) m) (\<lambda>_. deliver cb topic part ms) s"

text \<open>The body of the loop over the assigned partitions, without its \<open>except\<close>.\<close>

definition poll_partition :: "'n exchange \<Rightarrow> 'u callbacks \<Rightarrow> int \<Rightarrow> ('n, 'u, unit) action" where
  "poll_partition ex cb part s =
     (let co = seConsumer s
      in seqA (command (py_offset ex (coGroup co) (coTopic co) part)) (\<lambda>start_offset.
         seqA (command (py_consume ex (coTopic co) part start_offset)) (\<lambda>messages.
         seqA (deliver cb (coTopic co) part messages) (\<lambda>_ s1.
           if coAutoCommit co \<and> messages \<noteq> []
           then seqA (command (py_commit ex (coGroup co) (coTopic co) (coConsumer co) (coGeneration (seConsumer s1))
                        part (cmOffset (last messages) + 1))) (\<lambda>_ s2. (s2, Inr ())) s1
           else (s1, Inr ())))) s)"

fun poll_all :: "'n exchange \<Rightarrow> 'u callbacks \<Rightarrow> int list \<Rightarrow> ('n, 'u, unit) action" where
  "poll_all ex cb [] s = (s, Inr ())"
| "poll_all ex cb (part # parts) s =
     (if \<not> coRunning (seConsumer s) then (s, Inr ())
      else case poll_partition ex cb part s of
        (s1, Inr _) \<Rightarrow> poll_all ex cb parts s1
      | (s1, Inl e) \<Rightarrow>
          if is_generation_mismatch e \<and> coAutoRejoin (seConsumer s1)
          then (upd (\<lambda>co. co\<lparr>coRejoinNeeded := True\<rparr>) s1, Inr ())
          else (s1, Inl e))"

text \<open>One turn of the loop of \<open>run\<close>.\<close>

definition run_turn :: "'n exchange \<Rightarrow> 'u callbacks \<Rightarrow> ('n, 'u, unit) action" where
  "run_turn ex cb s =
     seqA (if coRejoinNeeded (seConsumer s)
           then if \<not> coAutoRejoin (seConsumer s)
                then (\<lambda>s. (s, Inl (RuntimeError ''consumer requires rejoin but auto_rejoin=False'')))
                else join_and_sync ex cb
           else (\<lambda>s. (s, Inr ())))
       (\<lambda>_ s1. poll_all ex cb (coAssigned (seConsumer s1)) s1) s"

definition disconnect :: "'n exchange \<Rightarrow> ('n, 'u) session \<Rightarrow> ('n, 'u) session" where
  "disconnect ex s =
     (let co = seConsumer s;
          cn = (if coGeneration co > 0 \<and> coTopic co \<noteq> []
                then fst (py_leave ex (coGroup co) (coTopic co) (coConsumer co) (coGeneration co) (seClient s))
                else seClient s)
      in upd (\<lambda>co. co\<lparr>coRunning := False\<rparr>) (s\<lparr>seClient := py_close cn\<rparr>))"

datatype consumerEvent = LoopTurn | HeartbeatTurn | Disconnect

text \<open>
  The loop of \<open>run\<close> while the events happen: \<open>Inr True\<close> when it is still running at the end of them,
  \<open>Inr False\<close> when it has left the loop, \<open>Inl\<close> when a turn has raised.
\<close>

fun run_loop :: "'n exchange \<Rightarrow> 'u callbacks \<Rightarrow> consumerEvent list \<Rightarrow> ('n, 'u, bool) action" where
  "run_loop ex cb [] s = (s, Inr (coRunning (seConsumer s)))"
| "run_loop ex cb (HeartbeatTurn # es) s = run_loop ex cb es (heartbeat_turn ex s)"
| "run_loop ex cb (Disconnect # es) s = run_loop ex cb es (disconnect ex s)"
| "run_loop ex cb (LoopTurn # es) s =
     (if \<not> coRunning (seConsumer s) then (s, Inr False)
      else seqA (run_turn ex cb) (\<lambda>_. run_loop ex cb es) s)"

text \<open>The \<open>except\<close> and \<open>finally\<close> of \<open>run\<close>: an error of a callback replaces the one that is being raised.\<close>

definition run_end :: "'u callbacks \<Rightarrow> bool \<Rightarrow> py_error option \<Rightarrow> ('n, 'u, bool) action" where
  "run_end cb r e s =
     (let (s1, r1) = (case e of
            None \<Rightarrow> (s, Inr r)
          | Some e \<Rightarrow> seqA (callback (onCrash cb) e) (\<lambda>_ s. (s, Inl e)) s)
      in if coAssigned (seConsumer s1) \<noteq> []
         then seqA (callback (onRevoke cb) (coAssigned (seConsumer s1))) (\<lambda>_ s. (s, r1)) s1
         else (s1, r1))"

definition run :: "'n dial \<Rightarrow> 'n exchange \<Rightarrow> 'u callbacks \<Rightarrow> consumerEvent list \<Rightarrow> ('n, 'u, bool) action" where
  "run dial ex cb es s =
     (if coTopic (seConsumer s) = [] then (s, Inl (ValueError ''consumer.subscribe(topic) must be called before run()''))
      else if coRunning (seConsumer s) then (s, Inl (RuntimeError ''consumer is already running''))
      else
        seqA (command (py_connect dial)) (\<lambda>_. seqA (join_and_sync ex cb) (\<lambda>_ s1.
          case run_loop ex cb es s1 of
            (s2, Inr True) \<Rightarrow> (s2, Inr True)
          | (s2, Inr False) \<Rightarrow> run_end cb False None s2
          | (s2, Inl e) \<Rightarrow> run_end cb False (Some e) s2))
        (upd (\<lambda>co. co\<lparr>coRunning := True\<rparr>) s))"

section \<open>Lemmas: retries and batches\<close>

lemma with_retry_Inr: "op s = (s', Inr x) \<Longrightarrow> with_retry k op s = (s', Inr x)"
  by (cases "nat k") (simp_all add: with_retry_def)

lemma command_Inr: "op (seClient s) = (cn, Inr x) \<Longrightarrow> command op s = (s\<lparr>seClient := cn\<rparr>, Inr x)"
  by (simp add: command_def with_retry_Inr)

lemma concat_chunks: "0 < n \<Longrightarrow> concat (chunks n xs) = xs"
proof (induction n xs rule: chunks.induct)
  case (1 n xs)
  then show ?case by (cases "xs = []") (simp_all add: chunks.simps [of n])
qed

lemma sendBatch_append:
  "sendBatch ex k topic acks (xs @ ys) cn =
     (case sendBatch ex k topic acks xs cn of
        (cn1, Inl e) \<Rightarrow> (cn1, Inl e)
      | (cn1, Inr _) \<Rightarrow> sendBatch ex k topic acks ys cn1)"
  by (induction xs arbitrary: cn) (auto split: prod.split sum.split)

lemma sendBatches_concat: "sendBatches ex k topic acks bs cn = sendBatch ex k topic acks (concat bs) cn"
  by (induction bs arbitrary: cn) (auto simp: sendBatch_append split: prod.split sum.split)

section \<open>A consumer and what it relies on\<close>

text \<open>
  The user's callback that keeps every message, and a consumer of partition \<open>p\<close> that commits by itself.
\<close>

definition collect :: "ConsumedMessage list callbacks" where
  "collect = \<lparr>onAssign = None, onRevoke = None, onCrash = None, eachMessage = (\<lambda>_ _ m u. (u @ [m], None))\<rparr>"

lemma deliver_collect: "deliver collect topic part ms s = (s\<lparr>seUser := seUser s @ ms\<rparr>, Inr ())"
  by (induction ms arbitrary: s) (simp_all add: seqA_def callback_def collect_def)

definition client_ok :: "FLUXClient \<Rightarrow> bool" where
  "client_ok c \<longleftrightarrow> clOpen c \<and> 0 < clSeq c \<and> clSeq c < 2 ^ 62"

text \<open>A consumer of the group on the topic that commits by itself, connected to a service in the state \<open>ok\<close>.\<close>

definition in_session ::
  "string \<Rightarrow> string \<Rightarrow> string \<Rightarrow> int \<Rightarrow> ('n \<Rightarrow> bool) \<Rightarrow> ('n, ConsumedMessage list) session \<Rightarrow> bool" where
  "in_session grp topic member gen ok s \<longleftrightarrow>
     coGroup (seConsumer s) = grp \<and> coTopic (seConsumer s) = topic \<and> coConsumer (seConsumer s) = member
     \<and> coGeneration (seConsumer s) = gen \<and> coAutoCommit (seConsumer s)
     \<and> clOpen (fst (seClient s)) \<and> 0 < clSeq (fst (seClient s)) \<and> ok (snd (seClient s))"

text \<open>A run of the consumer: polls of the partition, with other changes of the service between them.\<close>

inductive poll_run ::
  "'n exchange \<Rightarrow> int \<Rightarrow> ('n \<Rightarrow> 'n \<Rightarrow> bool) \<Rightarrow> ('n, ConsumedMessage list) session \<Rightarrow>
   nat \<Rightarrow> ('n, ConsumedMessage list) session \<Rightarrow> bool"
  for ex part grows s where
  poll_start: "poll_run ex part grows s 0 s"
| poll_step: "poll_run ex part grows s k s1 \<Longrightarrow> poll_partition ex collect part s1 = (s2, r) \<Longrightarrow>
    poll_run ex part grows s (Suc k) s2"
| poll_others: "poll_run ex part grows s k s1 \<Longrightarrow> grows (snd (seClient s1)) n \<Longrightarrow>
    poll_run ex part grows s k (s1\<lparr>seClient := (fst (seClient s1), n)\<rparr>)"

text \<open>
  The contract of the service: it holds a numbered list of records and a position of the group in
  it. Reading returns some of the records that follow, committing moves the position, and nothing
  else happens to either.
\<close>

locale positioned_log =
  fixes ex :: "'n exchange" and grp topic member :: string and gen part :: int
    and ok :: "'n \<Rightarrow> bool" and position :: "'n \<Rightarrow> int" and records :: "'n \<Rightarrow> ConsumedMessage list"
  assumes position_bound: "ok n \<Longrightarrow> 0 \<le> position n \<and> position n \<le> int (length (records n))"
    and numbered: "ok n \<Longrightarrow> i < length (records n) \<Longrightarrow> cmOffset (records n ! i) = int i"
    and get_position: "ok n \<Longrightarrow> client_ok c \<Longrightarrow>
      \<exists>n'. py_offset ex grp topic part (c, n) = ((served c, n'), Inr (position n))
         \<and> ok n' \<and> position n' = position n \<and> records n' = records n"
    and read: "ok n \<Longrightarrow> client_ok c \<Longrightarrow>
      \<exists>n' k. py_consume ex topic part (position n) (c, n) = ((served c, n'), Inr (take k (drop (nat (position n)) (records n))))
         \<and> ok n' \<and> position n' = position n \<and> records n' = records n"
    and commit_position: "ok n \<Longrightarrow> client_ok c \<Longrightarrow> 0 \<le> off \<Longrightarrow> off \<le> int (length (records n)) \<Longrightarrow>
      \<exists>n'. py_commit ex grp topic member gen part off (c, n) = ((served c, n'), Inr True)
         \<and> ok n' \<and> position n' = off \<and> records n' = records n"
begin

lemma last_taken:
  assumes "ok n" "0 \<le> position n" "take k (drop (nat (position n)) (records n)) \<noteq> []"
  shows "cmOffset (last (take k (drop (nat (position n)) (records n)))) + 1
    = position n + int (length (take k (drop (nat (position n)) (records n))))"
proof -
  let ?ms = "take k (drop (nat (position n)) (records n))"
  let ?i = "length ?ms - 1"
  have "?i < length ?ms" using assms(3) by (metis diff_less length_greater_0_conv zero_less_one)
  then have "last ?ms = records n ! (nat (position n) + ?i)" "nat (position n) + ?i < length (records n)"
    using assms(3) by (auto simp: last_conv_nth)
  then have "cmOffset (last ?ms) = int (nat (position n) + ?i)" using numbered [OF assms(1)] by metis
  moreover have "int ?i = int (length ?ms) - 1" using assms(3) by (simp add: Suc_leI of_nat_diff)
  ultimately show ?thesis using assms(2) by linarith
qed

lemma poll_once:
  assumes "in_session grp topic member gen ok s" "clSeq (fst (seClient s)) + 3 < 2 ^ 62"
  obtains s' where "poll_partition ex collect part s = (s', Inr ())" "in_session grp topic member gen ok s'"
    "clSeq (fst (seClient s')) \<le> clSeq (fst (seClient s)) + 3"
    "records (snd (seClient s')) = records (snd (seClient s))"
    "position (snd (seClient s)) \<le> position (snd (seClient s'))"
    "seUser s' = seUser s @ take (nat (position (snd (seClient s')) - position (snd (seClient s))))
        (drop (nat (position (snd (seClient s)))) (records (snd (seClient s))))"
proof -
  obtain c n where cn: "seClient s = (c, n)" by force
  have s: "ok n" "clOpen c" "0 < clSeq c" "clSeq c + 3 < 2 ^ 62" using assms by (simp_all add: in_session_def cn)
  note pos = position_bound [OF s(1)]
  have c: "client_ok c" "client_ok (served c)" "client_ok (served (served c))" using s by (simp_all add: client_ok_def)
  obtain n1 where n1: "py_offset ex grp topic part (c, n) = ((served c, n1), Inr (position n))"
    "ok n1" "position n1 = position n" "records n1 = records n" using get_position [OF s(1) c(1)] by blast
  obtain n2 k where n2: "py_consume ex topic part (position n) (served c, n1)
      = ((served (served c), n2), Inr (take k (drop (nat (position n)) (records n))))"
    "ok n2" "position n2 = position n" "records n2 = records n" using read [OF n1(2) c(2)] n1(3,4) by auto
  let ?ms = "take k (drop (nat (position n)) (records n))"
  have co: "coGroup (seConsumer s) = grp" "coTopic (seConsumer s) = topic" "coConsumer (seConsumer s) = member"
    "coGeneration (seConsumer s) = gen" "coAutoCommit (seConsumer s)" using assms(1) by (simp_all add: in_session_def)
  note steps = poll_partition_def Let_def seqA_def command_Inr cn n1(1) n2(1) deliver_collect co
  show thesis
  proof (cases "?ms = []")
    case True
    then show thesis
      using n2 s co by (intro that [of "s\<lparr>seClient := (served (served c), n2), seUser := seUser s @ ?ms\<rparr>"])
        (simp_all add: steps in_session_def)
  next
    case False
    have off: "cmOffset (last ?ms) + 1 = position n + int (length ?ms)" using last_taken s(1) pos False by blast
    have "position n + int (length ?ms) \<le> int (length (records n2))" using pos n2(4) by auto
    then obtain n3 where n3: "py_commit ex grp topic member gen part (position n + int (length ?ms)) (served (served c), n2)
        = ((served (served (served c)), n3), Inr True)" "ok n3" "position n3 = position n + int (length ?ms)" "records n3 = records n"
      using commit_position [OF n2(2) c(3), of "position n + int (length ?ms)"] pos n2(4) by auto
    have "take (nat (position n3 - position n)) (drop (nat (position n)) (records n)) = ?ms" using n3(3) by (simp add: min_def)
    then show thesis
      using False n3 s co off
      by (intro that [of "s\<lparr>seClient := (served (served (served c)), n3), seUser := seUser s @ ?ms\<rparr>"])
        (simp_all add: steps in_session_def del: length_take)
  qed
qed

end

text \<open>Other changes of the service may add records behind those it has.\<close>

locale growing_log = positioned_log +
  fixes grows :: "'a \<Rightarrow> 'a \<Rightarrow> bool"
  assumes growth: "ok n \<Longrightarrow> grows n n' \<Longrightarrow> ok n' \<and> position n' = position n \<and> prefix (records n) (records n')"
begin

lemma polls_in_order:
  assumes "poll_run ex part grows s k s'" "in_session grp topic member gen ok s" "clSeq (fst (seClient s)) + 3 * int k < 2 ^ 62"
  shows "in_session grp topic member gen ok s' \<and> clSeq (fst (seClient s')) \<le> clSeq (fst (seClient s)) + 3 * int k
    \<and> position (snd (seClient s)) \<le> position (snd (seClient s'))
    \<and> prefix (records (snd (seClient s))) (records (snd (seClient s')))
    \<and> seUser s' = seUser s @ take (nat (position (snd (seClient s')) - position (snd (seClient s))))
        (drop (nat (position (snd (seClient s)))) (records (snd (seClient s'))))"
  using assms
proof (induction rule: poll_run.induct)
  case poll_start
  then show ?case by simp
next
  case (poll_step k s1 s2 r)
  let ?p = "position (snd (seClient s))" and ?p1 = "position (snd (seClient s1))" and ?p2 = "position (snd (seClient s2))"
  let ?R = "records (snd (seClient s1))"
  note ih = poll_step.IH [OF poll_step.prems(1)]
  have i: "in_session grp topic member gen ok s1" "clSeq (fst (seClient s1)) + 3 < 2 ^ 62" "?p \<le> ?p1"
    "seUser s1 = seUser s @ take (nat (?p1 - ?p)) (drop (nat ?p) ?R)"
    using ih poll_step.prems(2) by auto
  obtain s3 where s3: "poll_partition ex collect part s1 = (s3, Inr ())" "in_session grp topic member gen ok s3"
    "clSeq (fst (seClient s3)) \<le> clSeq (fst (seClient s1)) + 3" "records (snd (seClient s3)) = ?R"
    "?p1 \<le> position (snd (seClient s3))"
    "seUser s3 = seUser s1 @ take (nat (position (snd (seClient s3)) - ?p1)) (drop (nat ?p1) ?R)"
    by (rule poll_once [OF i(1,2)]) blast
  have [simp]: "s3 = s2" using s3(1) poll_step.hyps(2) by simp
  have "0 \<le> ?p" using position_bound poll_step.prems(1) by (auto simp: in_session_def)
  then have "nat ?p1 = nat (?p1 - ?p) + nat ?p" "nat (?p2 - ?p) = nat (?p1 - ?p) + nat (?p2 - ?p1)"
    using i(3) s3(5) by (simp_all add: nat_add_distrib [symmetric])
  then have "take (nat (?p2 - ?p)) (drop (nat ?p) ?R)
      = take (nat (?p1 - ?p)) (drop (nat ?p) ?R) @ take (nat (?p2 - ?p1)) (drop (nat ?p1) ?R)"
    by (simp add: take_add)
  then show ?case using ih poll_step.prems(2) s3 i by auto
next
  case (poll_others k s1 n)
  let ?p = "position (snd (seClient s))" and ?p1 = "position (snd (seClient s1))"
  note ih = poll_others.IH [OF poll_others.prems]
  have ok1: "ok (snd (seClient s1))" using ih by (simp add: in_session_def)
  note g = growth [OF ok1 poll_others.hyps(2)]
  obtain zs where zs: "records n = records (snd (seClient s1)) @ zs" using g by (auto simp: prefix_def)
  have "nat (?p1 - ?p) + nat ?p \<le> length (records (snd (seClient s1)))"
    using position_bound [OF ok1] position_bound [of "snd (seClient s)"] poll_others.prems(1) ih
    by (auto simp: in_session_def)
  then have "take (nat (?p1 - ?p)) (drop (nat ?p) (records n)) = take (nat (?p1 - ?p)) (drop (nat ?p) (records (snd (seClient s1))))"
    by (simp add: zs)
  then show ?case using ih g by (auto simp: in_session_def intro: prefix_order.trans)
qed

end

section \<open>Properties\<close>


text \<open>A network that counts the lines sent and answers each with an error.\<close>

definition refusing :: "nat exchange" where
  "refusing line n = (Suc n, Inl ''timed out'')"


end
