(* ===== verification/Hashing.thy ===== *)
theory Hashing
  imports Go_Strings
begin

text \<open>
  The two hash functions of \<open>storage/storage.go\<close> and the routines built on them: FNV-1a
  (\<open>hash/fnv\<close>, 32 bit) choosing the partition of a key, and CRC-32 (\<open>hash/crc32\<close>, IEEE
  polynomial) protecting every record of a segment file.

  Shown here: a key is always routed to the same partition and that partition exists; CRC-32
  tells apart any two values that differ in one byte; \<open>DebugChecksum\<close> prints the checksum
  exactly as the record format does.
\<close>

unbundle bit_operations_syntax

definition fnv32a :: "string \<Rightarrow> 32 word" where
  "fnv32a s = foldl (\<lambda>h c. (h XOR of_char c) * 16777619) 2166136261 s"

text \<open>
  \<open>getPartition\<close>: \<open>int(hash.Sum32()) % numPartitions\<close> on a 64-bit platform. The dividend is
  not negative, so Go's remainder is the one by the absolute value of the divisor. A zero
  divisor is a run-time panic (\<open>None\<close>).
\<close>

definition getPartition :: "string \<Rightarrow> int \<Rightarrow> int option" where
  "getPartition key n = (if n = 0 then None else Some (uint (fnv32a key) mod \<bar>n\<bar>))"

text \<open>\<open>crc32.ChecksumIEEE\<close>, bit by bit on the reflected polynomial.\<close>

definition crc_bit :: "32 word \<Rightarrow> 32 word" where
  "crc_bit c = (if bit c 0 then drop_bit 1 c XOR 0xEDB88320 else drop_bit 1 c)"

definition crc_byte :: "32 word \<Rightarrow> char \<Rightarrow> 32 word" where
  "crc_byte c b = (crc_bit ^^ 8) (c XOR of_char b)"

definition ChecksumIEEE :: "string \<Rightarrow> 32 word" where
  "ChecksumIEEE s = NOT (foldl crc_byte (NOT 0) s)"

text \<open>\<open>hex.EncodeToString\<close> of bytes, and \<open>DebugChecksum\<close>, which takes the checksum apart.\<close>

definition hex_EncodeToString :: "8 word list \<Rightarrow> string" where
  "hex_EncodeToString bs =
     concat (map (\<lambda>b. [digit_char (unat b div 16), digit_char (unat b mod 16)]) bs)"

definition DebugChecksum :: "string \<Rightarrow> string" where
  "DebugChecksum value =
     (let crc = ChecksumIEEE value
      in hex_EncodeToString
           [ucast (drop_bit 24 crc), ucast (drop_bit 16 crc), ucast (drop_bit 8 crc), ucast crc])"

section \<open>CRC-32 detects a changed byte\<close>

lemma word_xor_cancel: "(x XOR z = y XOR z) \<longleftrightarrow> x = (y :: 'a :: len word)"
proof
  assume "x XOR z = y XOR z"
  then have "(x XOR z) XOR z = (y XOR z) XOR z" by simp
  then show "x = y" by (simp add: xor.assoc)
qed simp

lemma word_xor_cancel_left: "(z XOR x = z XOR y) \<longleftrightarrow> x = (y :: 'a :: len word)"
  by (simp add: word_xor_cancel xor.commute [of z])

lemma crc_bit_bit31: "bit (crc_bit x) 31 \<longleftrightarrow> bit x 0"
proof -
  have "\<not> bit (drop_bit 1 x) 31" for x :: "32 word"
    using bit_imp_le_length [of x 32] by (auto simp: bit_drop_bit_eq)
  moreover have "bit (0xEDB88320 :: 32 word) 31" by simp
  ultimately show ?thesis by (simp add: crc_bit_def bit_xor_iff)
qed

lemma crc_bit_inj: "inj crc_bit"
proof (rule injI)
  fix x y :: "32 word"
  assume eq: "crc_bit x = crc_bit y"
  then have b0: "bit x 0 = bit y 0" by (metis crc_bit_bit31)
  with eq have d: "drop_bit 1 x = drop_bit 1 y"
    by (simp add: crc_bit_def word_xor_cancel split: if_splits)
  show "x = y"
  proof (rule bit_eqI)
    fix n
    show "bit x n = bit y n"
    proof (cases n)
      case (Suc m)
      have "bit (drop_bit 1 x) m = bit (drop_bit 1 y) m" using d by simp
      then show ?thesis by (simp add: Suc bit_drop_bit_eq)
    qed (use b0 in simp)
  qed
qed

lemma inj_crc_bits: "inj (crc_bit ^^ n)"
proof (induction n)
  case (Suc n)
  show ?case using inj_compose [OF crc_bit_inj Suc.IH] by (simp add: comp_def)
qed simp

lemma of_char_word_inj: "(of_char b :: 32 word) = of_char b' \<longleftrightarrow> b = b'"
proof
  assume "(of_char b :: 32 word) = of_char b'"
  then have "(of_nat (of_char b) :: 32 word) = of_nat (of_char b')"
    by (simp add: of_nat_of_char)
  then have "unat (of_nat (of_char b) :: 32 word) = unat (of_nat (of_char b') :: 32 word)"
    by simp
  moreover have "(of_char c :: nat) < 2 ^ LENGTH(32)" for c
    by (rule less_trans [OF nat_of_char_less_256]) simp
  ultimately have "(of_char b :: nat) = of_char b'"
    by (simp add: unat_of_nat take_bit_nat_eq_self unsigned_of_nat)
  then show "b = b'" by simp
qed simp

lemma crc_byte_state_inj: "crc_byte c b = crc_byte c' b \<longleftrightarrow> c = c'"
proof
  assume "crc_byte c b = crc_byte c' b"
  then have "c XOR of_char b = c' XOR of_char b"
    unfolding crc_byte_def by (rule injD [OF inj_crc_bits])
  then show "c = c'" by (simp only: word_xor_cancel)
qed simp

lemma crc_byte_byte_inj: "crc_byte c b = crc_byte c b' \<longleftrightarrow> b = b'"
proof
  assume "crc_byte c b = crc_byte c b'"
  then have "c XOR of_char b = c XOR of_char b'"
    unfolding crc_byte_def by (rule injD [OF inj_crc_bits])
  then have "(of_char b :: 32 word) = of_char b'"
    by (simp only: word_xor_cancel_left)
  then show "b = b'" by (simp add: of_char_word_inj)
qed simp

lemma crc_fold_inj: "foldl crc_byte c s = foldl crc_byte c' s \<longleftrightarrow> c = c'"
  by (induction s arbitrary: c c') (simp_all add: crc_byte_state_inj)

lemma ChecksumIEEE_one_byte:
  assumes "b \<noteq> b'"
  shows "ChecksumIEEE (u @ b # v) \<noteq> ChecksumIEEE (u @ b' # v)"
  using assms by (simp add: ChecksumIEEE_def crc_fold_inj crc_byte_byte_inj)

section \<open>Printing the checksum\<close>

lemma digit_char_0: "digit_char 0 = CHR ''0''"
  by code_simp

lemma pad0_digits_base:
  assumes "2 \<le> b" and "0 < k" and "n < b ^ k"
  shows "pad0 k (digits_base b n) = map (\<lambda>i. digit_char (n div b ^ i mod b)) (rev [0..<k])"
  using assms(2, 3)
proof (induction k arbitrary: n)
  case (Suc k)
  show ?case
  proof (cases "k = 0")
    case True
    with Suc.prems show ?thesis by (simp add: digits_base_small pad0_def)
  next
    case k: False
    have up: "rev [0..<Suc k] = map Suc (rev [0..<k]) @ [0]"
      by (simp add: rev_map [symmetric] map_Suc_upt upt_conv_Cons del: upt_Suc)
    show ?thesis
    proof (cases "n < b")
      case True
      then have "pad0 k (digits_base b 0) = map (\<lambda>i. digit_char (0 div b ^ i mod b)) (rev [0..<k])"
        using k assms(1) by (intro Suc.IH) auto
      moreover have "pad0 (Suc k) [digit_char n] = pad0 k [digit_char 0] @ [digit_char n]"
        using k by (cases k) (auto simp: pad0_def digit_char_0 replicate_append_same [symmetric])
      ultimately show ?thesis
        using True assms(1) unfolding up
        by (auto simp: digits_base_small div_mult2_eq)
    next
      case False
      then have "n div b < b ^ k"
        using Suc.prems assms(1) by (simp add: less_mult_imp_div_less mult.commute)
      with Suc.IH k have
        "pad0 k (digits_base b (n div b)) = map (\<lambda>i. digit_char (n div b div b ^ i mod b)) (rev [0..<k])"
        by simp
      then show ?thesis
        using False assms(1) unfolding up
        by (simp add: digits_base_big pad0_def div_mult2_eq)
    qed
  qed
qed simp

lemma unat_shift_right: "unat (drop_bit n (w :: 32 word)) = unat w div 2 ^ n"
  by (rule trans [OF unat_drop_bit_eq]) (simp add: drop_bit_eq_div)

lemma unat_low_byte: "unat (ucast (w :: 32 word) :: 8 word) = unat w mod 256"
  by (simp add: unsigned_ucast_eq take_bit_eq_mod)

lemma nibbles:
  "(a :: nat) mod 256 div 16 = a div 16 mod 16" "a mod 256 mod 16 = a mod 16"
  using mod_mult2_eq [of a 16 16] by simp_all

text \<open>
  \<open>DebugChecksum\<close>, which writes the four bytes of the checksum in hexadecimal, gives the same
  text as the \<open>%08x\<close> that \<open>formatLogLine\<close> stores.
\<close>

theorem DebugChecksum_format: "DebugChecksum value = fmt_08x (unat (ChecksumIEEE value))"
proof -
  let ?n = "unat (ChecksumIEEE value)"
  have "?n < 16 ^ 8" using unsigned_less [of "ChecksumIEEE value", where ?'a = nat] by simp
  then have "fmt_08x ?n = map (\<lambda>i. digit_char (?n div 16 ^ i mod 16)) (rev [0..<8])"
    unfolding fmt_08x_def by (intro pad0_digits_base) auto
  also have "rev [0..<8] = [7, 6, 5, 4, 3, 2, 1, 0 :: nat]" by code_simp
  finally show ?thesis
    by (simp add: DebugChecksum_def hex_EncodeToString_def Let_def unat_low_byte unat_shift_right
        nibbles div_mult2_eq [symmetric])
qed

text \<open>
  The partition of a key is a partition of the topic: for a positive partition count
  \<open>getPartition\<close> returns a number below it, and only a count of zero makes it panic.
\<close>

theorem getPartition_in_range:
  "(getPartition key n = None \<longleftrightarrow> n = 0) \<and>
   (0 < n \<longrightarrow> (\<exists>part. getPartition key n = Some part \<and> 0 \<le> part \<and> part < n))"
  by (simp add: getPartition_def)

theorem getPartition_in_range_witness:
  "\<exists>part. getPartition ''user1'' 3 = Some part \<and> 0 \<le> part \<and> part < 3"
  using getPartition_in_range [of "''user1''" 3] by simp

end
