(* ===== verification/Paths.thy ===== *)
theory Paths
  imports Go_Strings
begin

text \<open>
  \<open>path/filepath\<close> of the Go library, as far as the storage uses it: \<open>Clean\<close> and \<open>Join\<close> on slash
  separated paths. \<open>Join\<close> cleans its result, so a name that contains \<open>..\<close> can denote a file of
  another name or of another directory.

  Shown here: a name without a slash is kept as it is below the directory; whatever the directory
  and the name, the last element of the name is the last element of the joined path.
\<close>

section \<open>Definitions\<close>

fun path_elems :: "string \<Rightarrow> string list" where
  "path_elems [] = [[]]"
| "path_elems (c # cs) =
     (if c = CHR ''/'' then [] # path_elems cs
      else (c # hd (path_elems cs)) # tl (path_elems cs))"

definition cleanElem :: "bool \<Rightarrow> string \<Rightarrow> string list \<Rightarrow> string list" where
  "cleanElem rooted e out =
     (if e = [] \<or> e = ''.'' then out
      else if e = ''..'' then
        (if out \<noteq> [] \<and> last out \<noteq> ''..'' then butlast out
         else if rooted then out else out @ [e])
      else out @ [e])"

definition cleanElems :: "bool \<Rightarrow> string list \<Rightarrow> string list" where
  "cleanElems rooted es = fold (cleanElem rooted) es []"

definition filepath_Clean :: "string \<Rightarrow> string" where
  "filepath_Clean path =
     (let rooted = HasPrefix path ''/'';
          out = Join (cleanElems rooted (path_elems path)) ''/''
      in if rooted then CHR ''/'' # out else if out = [] then ''.'' else out)"

definition filepath_Join :: "string \<Rightarrow> string \<Rightarrow> string" where
  "filepath_Join dir name =
     (if dir = [] then (if name = [] then [] else filepath_Clean name)
      else filepath_Clean (dir @ ''/'' @ name))"

text \<open>The last element of a path that does not end in a slash.\<close>

definition last_elem :: "string \<Rightarrow> string" where
  "last_elem path = rev (takeWhile (\<lambda>c. c \<noteq> CHR ''/'') (rev path))"

definition flat_name :: "string \<Rightarrow> bool" where
  "flat_name name \<longleftrightarrow> CHR ''/'' \<notin> set name"

text \<open>What \<open>Join\<close> puts before a name without a slash.\<close>

definition dir_prefix :: "string \<Rightarrow> string" where
  "dir_prefix dir =
     (let rooted = HasPrefix dir ''/'';
          out = Join (cleanElems rooted (path_elems dir)) ''/''
      in (if rooted then ''/'' else []) @ (if out = [] then [] else out @ ''/''))"

definition proper_elem :: "string \<Rightarrow> bool" where
  "proper_elem e \<longleftrightarrow> e \<noteq> [] \<and> e \<noteq> ''.'' \<and> e \<noteq> ''..''"

section \<open>Elements\<close>

lemma path_elems_not_Nil [simp]: "path_elems p \<noteq> []"
  by (cases p) auto

lemma path_elems_join: "path_elems (a @ CHR ''/'' # b) = path_elems a @ path_elems b"
  by (induction a) auto

lemma path_elems_flat: "flat_name p \<Longrightarrow> path_elems p = [p]"
  by (induction p) (auto simp: flat_name_def)

lemma last_elem_flat: "flat_name p \<Longrightarrow> last_elem p = p"
proof -
  assume "flat_name p"
  then have "takeWhile (\<lambda>c. c \<noteq> CHR ''/'') (rev p) = rev p"
    unfolding takeWhile_eq_all_conv by (auto simp: flat_name_def)
  then show ?thesis unfolding last_elem_def by (simp only: rev_rev_ident)
qed

lemma last_elem_slash: "flat_name e \<Longrightarrow> last_elem (a @ CHR ''/'' # e) = e"
  by (simp add: last_elem_def flat_name_def takeWhile_append)

lemma flat_last_elem [simp]: "flat_name (last_elem p)"
  by (auto simp: last_elem_def flat_name_def dest: set_takeWhileD)

lemma last_elem_split: "p = last_elem p \<or> (\<exists>a. p = a @ CHR ''/'' # last_elem p)"
proof -
  let ?P = "\<lambda>c. c \<noteq> CHR ''/''"
  have p: "p = rev (dropWhile ?P (rev p)) @ last_elem p"
    unfolding last_elem_def by (metis rev_append rev_rev_ident takeWhile_dropWhile_id)
  show ?thesis
  proof (cases "dropWhile ?P (rev p)")
    case (Cons c cs)
    then have "c = CHR ''/''" by (metis (mono_tags) dropWhile_eq_Cons_conv)
    with Cons p show ?thesis by (metis append.assoc append_Cons append_Nil rev.simps(2))
  next
    case Nil
    have "p = last_elem p" by (subst p) (simp only: Nil rev.simps append_Nil)
    then show ?thesis ..
  qed
qed

lemma last_path_elems: "last (path_elems p) = last_elem p"
  using last_elem_split [of p]
proof (elim disjE exE)
  assume "p = last_elem p"
  then have "flat_name p" by (metis flat_last_elem)
  then show ?thesis by (simp add: path_elems_flat last_elem_flat)
next
  fix a assume "p = a @ CHR ''/'' # last_elem p"
  then have "path_elems p = path_elems a @ path_elems (last_elem p)" by (metis path_elems_join)
  then show ?thesis by (simp add: path_elems_flat)
qed

lemma last_elem_append: "flat_name b \<Longrightarrow> last_elem (a @ b) = last_elem a @ b"
  by (auto simp: last_elem_def flat_name_def takeWhile_append)

section \<open>Joining\<close>

lemma cleanElems_snoc: "proper_elem e \<Longrightarrow> cleanElems r (es @ [e]) = cleanElems r es @ [e]"
  by (simp add: cleanElems_def cleanElem_def proper_elem_def)

lemma Join_snoc: "Join (xs @ [x]) sep = (if xs = [] then x else Join xs sep @ sep @ x)"
  by (induction xs sep rule: Join.induct) auto

lemma cleanElems_nonempty: "\<forall>e \<in> set (cleanElems r es). e \<noteq> []"
proof -
  have "\<forall>e \<in> set (fold (cleanElem r) es out). e \<noteq> []" if "\<forall>e \<in> set out. e \<noteq> []" for out
    using that
  proof (induction es arbitrary: out)
    case (Cons x xs)
    have "\<forall>e \<in> set (cleanElem r x out). e \<noteq> []"
      using Cons.prems by (auto simp: cleanElem_def dest: in_set_butlastD)
    from Cons.IH [OF this] show ?case by simp
  qed simp
  from this [of "[]"] show ?thesis by (simp add: cleanElems_def)
qed

lemma Join_empty_iff: "\<forall>x \<in> set xs. x \<noteq> [] \<Longrightarrow> Join xs ''/'' = [] \<longleftrightarrow> xs = []"
  by (cases "(xs, ''/'')" rule: Join.cases) auto

text \<open>Whatever the name, joining keeps its last element, and a name without a slash as it is.\<close>

lemma Clean_last:
  assumes "proper_elem (last_elem p)"
  shows "\<exists>a. filepath_Clean p = a @ last_elem p \<and> (a = [] \<or> last a = CHR ''/'')"
proof -
  let ?r = "HasPrefix p ''/''" and ?e = "last_elem p"
  obtain es where es: "path_elems p = es @ [?e]"
    by (metis append_butlast_last_id last_path_elems path_elems_not_Nil)
  have "?e \<noteq> []" using assms by (simp add: proper_elem_def)
  then show ?thesis
    unfolding filepath_Clean_def Let_def es cleanElems_snoc [OF assms] Join_snoc
    by (cases "cleanElems ?r es = []"; cases ?r)
       (auto intro: exI [of _ "[]"] exI [of _ "''/''"] exI [of _ "CHR ''/'' # Join (cleanElems ?r es) ''/'' @ ''/''"]
         exI [of _ "Join (cleanElems ?r es) ''/'' @ ''/''"])
qed

lemma last_elem_Clean: "proper_elem (last_elem p) \<Longrightarrow> last_elem (filepath_Clean p) = last_elem p"
  using Clean_last [of p] last_elem_flat [of "last_elem p"] last_elem_slash [of "last_elem p"]
  by (metis append.assoc append_Cons append_Nil append_butlast_last_id flat_last_elem)

lemma last_elem_Join:
  assumes "proper_elem (last_elem name)"
  shows "last_elem (filepath_Join dir name) = last_elem name"
proof -
  have "last_elem (dir @ CHR ''/'' # name) = last_elem name"
    by (metis last_elem_split last_elem_slash append.assoc append_Cons flat_last_elem)
  then show ?thesis using assms last_elem_Clean
    by (auto simp: filepath_Join_def last_elem_def proper_elem_def)
qed

lemma Join_flat:
  assumes "flat_name name" "proper_elem name"
  shows "filepath_Join dir name = dir_prefix dir @ name"
proof (cases "dir = []")
  case True
  then show ?thesis
    using assms cleanElems_snoc [of name False "[]"]
    by (cases name)
       (auto simp: filepath_Join_def filepath_Clean_def dir_prefix_def path_elems_flat HasPrefix_def flat_name_def
         cleanElems_def cleanElem_def proper_elem_def Let_def)
next
  case False
  then have r: "HasPrefix (dir @ CHR ''/'' # name) ''/'' = HasPrefix dir ''/''"
    by (cases dir) (simp_all add: HasPrefix_def)
  have "name \<noteq> []" using assms(2) by (simp add: proper_elem_def)
  with False show ?thesis
    using Join_empty_iff [OF cleanElems_nonempty]
    by (simp add: filepath_Join_def filepath_Clean_def dir_prefix_def path_elems_join path_elems_flat
        assms cleanElems_snoc Join_snoc Let_def r)
qed

lemma Join_flat_inj:
  assumes "flat_name n" "proper_elem n" "flat_name n'" "proper_elem n'"
  shows "filepath_Join dir n = filepath_Join dir n' \<longleftrightarrow> n = n'"
  using assms by (simp add: Join_flat)

text \<open>An element followed by \<open>..\<close> is dropped.\<close>

lemma Join_dotdot:
  assumes "flat_name x" "proper_elem x" "dir \<noteq> []"
  shows "filepath_Join dir (x @ ''/../'' @ name) = filepath_Join dir name"
proof -
  have "path_elems (dir @ ''/'' @ x @ ''/../'' @ name) = path_elems dir @ [x, ''..''] @ path_elems name"
    using path_elems_join [of x "''../'' @ name"] path_elems_join [of "''..''" name]
    by (simp add: path_elems_join path_elems_flat assms)
  moreover have "cleanElems r (es @ [x, ''..''] @ fs) = cleanElems r (es @ fs)" for r es fs
    using assms(2) by (simp add: cleanElems_def cleanElem_def proper_elem_def)
  moreover have "HasPrefix (dir @ ''/'' @ x @ ''/../'' @ name) ''/'' = HasPrefix (dir @ ''/'' @ name) ''/''"
    using assms(3) by (cases dir) (simp_all add: HasPrefix_def)
  ultimately show ?thesis
    using assms(3) by (simp add: filepath_Join_def filepath_Clean_def path_elems_join Let_def)
qed

end
