(* ===== verification/Log_Format.thy ===== *)
theory Log_Format
  imports Hashing Paths
begin

text \<open>
  The on-disk format of \<open>storage/storage.go\<close>: one record per line of a segment file,
  \<open>offset|timestamp|checksum|value\<close>, and the file names of segments, index files and local
  replica mirrors. A path is \<open>filepath.Join\<close> of the data directory and the name, which cleans it.

  Shown here: a written record is read back; a record with a damaged value byte is rejected;
  segment names determine topic, partition and segment; so do their paths, for topics without a
  slash; a mirror file is indistinguishable from a segment of another topic; a topic with \<open>..\<close>
  shares its segments with another topic or puts them outside the data directory.
\<close>

section \<open>Records\<close>

definition formatLogLine :: "int \<Rightarrow> int \<Rightarrow> string \<Rightarrow> string" where
  "formatLogLine offset timestamp value =
     Itoa offset @ ''|'' @ Itoa timestamp @ ''|'' @ fmt_08x (unat (ChecksumIEEE value)) @ ''|''
       @ value @ [newline]"

definition parseLogLine :: "string \<Rightarrow> (int \<times> int \<times> string) option" where
  "parseLogLine line =
     (let parts = SplitN line ''|'' 4
      in if length parts \<noteq> 4 then None
         else case Atoi (parts ! 0) of
           None \<Rightarrow> None
         | Some offset \<Rightarrow>
             (case ParseInt64 (parts ! 1) of
                None \<Rightarrow> None
              | Some ts \<Rightarrow>
                  let providedChecksum = parts ! 2;
                      value = parts ! 3;
                      computed = fmt_08x (unat (ChecksumIEEE value))
                  in if \<not> EqualFold computed providedChecksum then None
                     else Some (offset, ts, value)))"

section \<open>File names\<close>

definition segmentName :: "string \<Rightarrow> int \<Rightarrow> int \<Rightarrow> string" where
  "segmentName topic part segmentID =
     topic @ ''-'' @ Itoa part @ ''-segment-'' @ fmt_06d segmentID @ ''.log''"

definition offsetIndexName :: "string \<Rightarrow> int \<Rightarrow> string" where
  "offsetIndexName topic part = topic @ ''-'' @ Itoa part @ ''-offset.idx''"

definition timestampIndexName :: "string \<Rightarrow> int \<Rightarrow> string" where
  "timestampIndexName topic part = topic @ ''-'' @ Itoa part @ ''-time.idx''"

definition replicaSegmentName :: "string \<Rightarrow> int \<Rightarrow> int \<Rightarrow> int \<Rightarrow> string" where
  "replicaSegmentName topic part replicaID segmentID =
     topic @ ''-'' @ Itoa part @ ''-replica-'' @ Itoa replicaID @ ''-segment-''
       @ fmt_06d segmentID @ ''.log''"

definition segmentPath :: "string \<Rightarrow> string \<Rightarrow> int \<Rightarrow> int \<Rightarrow> string" where
  "segmentPath dir topic part segmentID = filepath_Join dir (segmentName topic part segmentID)"

definition offsetIndexPath :: "string \<Rightarrow> string \<Rightarrow> int \<Rightarrow> string" where
  "offsetIndexPath dir topic part = filepath_Join dir (offsetIndexName topic part)"

definition timestampIndexPath :: "string \<Rightarrow> string \<Rightarrow> int \<Rightarrow> string" where
  "timestampIndexPath dir topic part = filepath_Join dir (timestampIndexName topic part)"

definition replicaSegmentPath :: "string \<Rightarrow> string \<Rightarrow> int \<Rightarrow> int \<Rightarrow> int \<Rightarrow> string" where
  "replicaSegmentPath dir topic part replicaID segmentID =
     filepath_Join dir (replicaSegmentName topic part replicaID segmentID)"

definition parseSegmentFileName :: "string \<Rightarrow> (string \<times> int \<times> int) option" where
  "parseSegmentFileName filename =
     (if \<not> HasSuffix filename ''.log'' \<or> \<not> Contains filename ''-segment-'' then None
      else
        let parts = Split (TrimSuffix filename ''.log'') ''-segment-''
        in if length parts \<noteq> 2 then None
           else case Atoi (parts ! 1) of
             None \<Rightarrow> None
           | Some segID \<Rightarrow>
               let left = parts ! 0
               in case LastIndex left ''-'' of
                 None \<Rightarrow> None
               | Some idx \<Rightarrow>
                   if idx = 0 then None
                   else case Atoi (drop (idx + 1) left) of
                     None \<Rightarrow> None
                   | Some part \<Rightarrow> Some (take idx left, part, segID))"

section \<open>Records are read back\<close>

text \<open>The line without its end, as the scanner hands it to \<open>parseLogLine\<close>.\<close>

definition log_line :: "int \<Rightarrow> int \<Rightarrow> string \<Rightarrow> string" where
  "log_line offset ts value =
     Itoa offset @ ''|'' @ Itoa ts @ ''|'' @ fmt_08x (unat (ChecksumIEEE value)) @ ''|'' @ value"

lemma formatLogLine_line: "formatLogLine o' ts v = log_line o' ts v @ [newline]"
  by (simp add: formatLogLine_def log_line_def)

lemma pipe_not_number [simp]: "CHR ''|'' \<notin> set (Itoa i)" "CHR ''|'' \<notin> set (fmt_08x n)"
proof -
  show "CHR ''|'' \<notin> set (Itoa i)" by (rule Itoa_not_in) (simp_all add: is_digit_def)
  show "CHR ''|'' \<notin> set (fmt_08x n)"
  proof
    assume "CHR ''|'' \<in> set (fmt_08x n)"
    then obtain d where "d < 16" "CHR ''|'' = digit_char d" using fmt_08x_chars by blast
    with of_char_digit_char [of d] have "(of_char CHR ''|'' :: nat) = (if d < 10 then 48 + d else 87 + d)"
      by metis
    with \<open>d < 16\<close> show False by (auto split: if_splits)
  qed
qed

lemma parse_fields:
  assumes "CHR ''|'' \<notin> set chk"
  shows "parseLogLine (Itoa o' @ CHR ''|'' # Itoa ts @ CHR ''|'' # chk @ CHR ''|'' # v) =
    (case Atoi (Itoa o') of None \<Rightarrow> None | Some a \<Rightarrow>
      (case Atoi (Itoa ts) of None \<Rightarrow> None | Some b \<Rightarrow>
        if EqualFold (fmt_08x (unat (ChecksumIEEE v))) chk then Some (a, b, v) else None))"
proof -
  have "SplitN (Itoa o' @ CHR ''|'' # Itoa ts @ CHR ''|'' # chk @ CHR ''|'' # v) ''|'' 4
      = [Itoa o', Itoa ts, chk, v]"
    by (intro SplitN_4) (use assms in simp_all)
  then show ?thesis by (simp add: parseLogLine_def Let_def split: option.splits)
qed

lemma parseLogLine_log_line:
  "int64_ok o' \<Longrightarrow> int64_ok ts \<Longrightarrow> parseLogLine (log_line o' ts v) = Some (o', ts, v)"
  by (simp add: log_line_def parse_fields)

lemma parseLogLine_int64_ok:
  "parseLogLine l = Some (o', ts, v) \<Longrightarrow> int64_ok o' \<and> int64_ok ts"
  by (auto simp: parseLogLine_def Let_def Atoi_int64_ok split: option.splits if_splits)

text \<open>
  A record written by \<open>formatLogLine\<close> is read back by \<open>parseLogLine\<close>: offset, timestamp and
  value, whatever bytes the value holds.
\<close>

theorem log_line_round_trip:
  "int64_ok off \<Longrightarrow> int64_ok ts \<Longrightarrow> formatLogLine off ts v = line @ [newline] \<Longrightarrow>
   parseLogLine line = Some (off, ts, v)"
  using parseLogLine_log_line [of off ts v] by (auto simp: formatLogLine_line)

theorem log_line_round_trip_witness:
  "parseLogLine (butlast (formatLogLine 7 1700000000000 ''a|b'')) = Some (7, 1700000000000, ''a|b'')"
  by (rule log_line_round_trip) (simp_all add: int64_ok_def formatLogLine_line)

text \<open>
  C35. The CRC-32 in front of a value detects every change of a single byte: a line whose checksum
  was computed for a value that differs in one byte is not accepted as a record.
\<close>

theorem parseLogLine_damaged:
  assumes "b \<noteq> b'"
  shows "parseLogLine (Itoa o' @ ''|'' @ Itoa ts @ ''|'' @ fmt_08x (unat (ChecksumIEEE (u @ b # v)))
      @ ''|'' @ u @ b' # v) = None"
proof -
  have "unat (ChecksumIEEE (u @ b' # v)) \<noteq> unat (ChecksumIEEE (u @ b # v))"
    using ChecksumIEEE_one_byte [OF assms, of u v] by (simp add: word_unat_eq_iff)
  then show ?thesis
    by (simp add: parse_fields EqualFold_fmt_08x split: option.splits)
qed

theorem parseLogLine_damaged_witness:
  "CHR ''a'' \<noteq> CHR ''b'' \<and>
   parseLogLine (Itoa 0 @ ''|'' @ Itoa 5 @ ''|'' @ fmt_08x (unat (ChecksumIEEE ''cat'')) @ ''|cbt'') = None"
  using parseLogLine_damaged [of "CHR ''a''" "CHR ''b''" 0 5 "''c''" "''t''"] by simp

section \<open>Segment names\<close>

lemma Index_SomeD: "Index s sub = Some i \<Longrightarrow> HasPrefix (drop i s) sub"
  by (induction s arbitrary: i) (auto split: if_splits)

lemma Index_NoneD: "Index s sub = None \<Longrightarrow> \<not> HasPrefix (drop i s) sub \<or> length s < i"
proof (induction s arbitrary: i)
  case (Cons c s)
  then show ?case by (cases i) (auto split: if_splits)
qed (auto split: if_splits)

lemma Index_SomeI:
  "HasPrefix (drop n s) sub \<Longrightarrow> n \<le> length s \<Longrightarrow> \<forall>i < n. \<not> HasPrefix (drop i s) sub
    \<Longrightarrow> Index s sub = Some n"
proof (induction s arbitrary: n)
  case (Cons c s)
  show ?case
  proof (cases n)
    case (Suc m)
    have "\<forall>i < m. \<not> HasPrefix (drop i s) sub" and "\<not> HasPrefix (c # s) sub"
      using Cons.prems(3) Suc by (auto dest: spec [of _ "Suc _"])
    with Cons Suc show ?thesis by simp
  qed (use Cons.prems in simp)
qed auto

lemma HasPrefix_nth:
  assumes "HasPrefix (drop i s) sub" and "k < length sub"
  shows "i + k < length s \<and> s ! (i + k) = sub ! k"
proof -
  have k: "k < length (drop i s)" using HasPrefix_length [OF assms(1)] assms(2) by simp
  moreover have "sub ! k = drop i s ! k"
    using assms by (metis HasPrefix_def nth_take)
  ultimately show ?thesis by simp
qed

text \<open>
  An occurrence of the separator cannot start inside \<open>a\<close> and reach the end of \<open>a\<close> when the
  last character of \<open>a\<close> does not occur in the separator.
\<close>

lemma Index_append:
  assumes "a \<noteq> []" and "last a \<notin> set sub" and "\<not> Contains a sub"
  shows "Index (a @ sub @ b) sub = Some (length a)"
proof (rule Index_SomeI)
  show "\<forall>i < length a. \<not> HasPrefix (drop i (a @ sub @ b)) sub"
  proof (intro allI impI notI)
    fix i
    assume i: "i < length a" and p: "HasPrefix (drop i (a @ sub @ b)) sub"
    show False
    proof (cases "i + length sub \<le> length a")
      case True
      then have "HasPrefix (drop i a) sub" using p by (simp add: HasPrefix_def)
      with assms(3) i show False using Index_NoneD [of a sub i] by (auto simp: Contains_def)
    next
      case False
      define k where "k = length a - 1 - i"
      have k: "k < length sub" "i + k = length a - 1" using False i by (auto simp: k_def)
      have "sub ! k = (a @ sub @ b) ! (length a - 1)" using HasPrefix_nth [OF p k(1)] k(2) by simp
      also have "\<dots> = last a" using assms(1) by (simp add: nth_append last_conv_nth)
      finally show False using k assms(2) by (metis nth_mem)
    qed
  qed
qed auto

lemma Contains_append_disjoint:
  assumes "\<not> Contains a sub" and "set d \<inter> set sub = {}" and "sub \<noteq> []"
  shows "\<not> Contains (a @ d) sub"
proof -
  have "\<not> HasPrefix (drop i (a @ d)) sub" for i
  proof
    assume p: "HasPrefix (drop i (a @ d)) sub"
    let ?k = "length sub - 1"
    have k: "?k < length sub" using assms(3) by simp
    show False
    proof (cases "i + length sub \<le> length a")
      case True
      then have "HasPrefix (drop i a) sub" using p by (simp add: HasPrefix_def)
      with assms(1, 3) True show False using Index_NoneD [of a sub i] by (auto simp: Contains_def)
    next
      case False
      then have "length a \<le> i + ?k" using assms(3) by (cases sub) auto
      with HasPrefix_nth [OF p k] have "sub ! ?k = d ! (i + ?k - length a)"
          and "i + ?k - length a < length d"
        by (auto simp: nth_append)
      then have "sub ! ?k \<in> set d" by simp
      with k assms(2) show False by (meson disjoint_iff nth_mem)
    qed
  qed
  then show ?thesis by (metis Contains_def Index_SomeD option.exhaust)
qed

lemma Contains_mid: "Contains (a @ sub @ b) sub"
  using Index_NoneD [of "a @ sub @ b" sub "length a"] by (auto simp: Contains_def)

lemma Split_two:
  assumes "Index (a @ sep @ b) sep = Some (length a)" and "Index b sep = None" and "sep \<noteq> []"
  shows "Split (a @ sep @ b) sep = [a, b]"
proof -
  obtain n where "length (a @ sep @ b) = Suc n" using assms(3) by (cases sep) auto
  moreover have "SplitN b sep (Suc n) = [b]" using assms(2) by (cases n) auto
  ultimately show ?thesis using assms(1) by (simp add: Split_def)
qed

lemma segment_sep_no_digit: "is_digit c \<Longrightarrow> c \<notin> set ''-segment-''"
  by (auto simp: is_digit_def)

text \<open>
  The name of a segment determines topic, partition and segment. The hypotheses exclude only
  topics that contain (or, with the dash that follows, complete) the separator.
\<close>

lemma parseSegmentFileName_segmentName:
  assumes "topic \<noteq> []" and "\<not> Contains (topic @ ''-'') ''-segment-''"
    and "0 \<le> part" "int64_ok part" "0 \<le> seg" "int64_ok seg"
  shows "parseSegmentFileName (segmentName topic part seg) = Some (topic, part, seg)"
proof -
  let ?left = "topic @ CHR ''-'' # Itoa part"
  let ?sep = "''-segment-''"
  have digits: "\<forall>c \<in> set (Itoa part). is_digit c" "\<forall>c \<in> set (fmt_06d seg). is_digit c"
    using assms(3, 5) Itoa_nonneg_chars fmt_06d_nonneg_chars by blast+
  have nc: "\<not> Contains ?left ?sep"
    using Contains_append_disjoint [OF assms(2), of "Itoa part"] digits(1) segment_sep_no_digit
    by fastforce
  have idx: "Index (?left @ ?sep @ fmt_06d seg) ?sep = Some (length ?left)"
  proof (rule Index_append [OF _ _ nc])
    have "last ?left \<in> set (Itoa part)" by simp
    then show "last ?left \<notin> set ?sep" using digits(1) segment_sep_no_digit by blast
  qed simp
  have none: "Index (fmt_06d seg) ?sep = None"
  proof -
    have "\<not> Contains ([] @ fmt_06d seg) ?sep"
      by (rule Contains_append_disjoint) (use digits(2) segment_sep_no_digit in \<open>auto simp: Contains_def\<close>)
    then show ?thesis by (simp add: Contains_def)
  qed
  have base: "segmentName topic part seg = (?left @ ?sep @ fmt_06d seg) @ ''.log''"
    by (simp add: segmentName_def)
  have "Split (?left @ ?sep @ fmt_06d seg) ?sep = [?left, fmt_06d seg]"
    by (rule Split_two [OF idx none]) simp
  moreover have "LastIndex ?left ''-'' = Some (length topic)"
    by (rule LastIndex_char) (use digits(1) in \<open>auto simp: is_digit_def\<close>)
  moreover have "Contains (segmentName topic part seg) ?sep"
    using Contains_mid [of ?left ?sep "fmt_06d seg @ ''.log''"] by (simp add: segmentName_def)
  ultimately show ?thesis
    unfolding parseSegmentFileName_def base using assms by (simp del: append_assoc)
qed

section \<open>Names do not collide\<close>

lemma split_last_sep:
  "a @ c # x = b @ c # y \<Longrightarrow> c \<notin> set x \<Longrightarrow> c \<notin> set y \<Longrightarrow> a = b \<and> x = y"
  by (auto simp: append_eq_append_conv2 append_eq_Cons_conv Cons_eq_append_conv)

lemma digits_base_10_inj [simp]: "digits_base 10 m = digits_base 10 n \<longleftrightarrow> m = n"
  by (metis digits_val_digits_base)

lemma pad0_digits_base_10_inj: "pad0 k (digits_base 10 m) = pad0 k (digits_base 10 n) \<longleftrightarrow> m = n"
  by (metis digits_val_digits_base digits_val_pad0)

definition seg_prefix :: "int \<Rightarrow> string" where
  "seg_prefix seg = (if seg < 0 then ''-segment-'' else ''-segment'')"

definition seg_digits :: "int \<Rightarrow> string" where
  "seg_digits seg =
     (if seg < 0 then pad0 5 (digits_base 10 (nat (- seg))) else pad0 6 (digits_base 10 (nat seg)))"

lemma segmentName_alt:
  "segmentName t p seg = ((t @ CHR ''-'' # Itoa p @ seg_prefix seg) @ CHR ''-'' # seg_digits seg) @ ''.log''"
  by (simp add: segmentName_def seg_prefix_def seg_digits_def fmt_06d_def)

lemma seg_digits_no_dash: "CHR ''-'' \<notin> set (seg_digits seg)"
proof -
  have "CHR ''-'' \<notin> set (pad0 w (digits_base 10 n))" for w n
    using pad0_digits [OF digits_base_10_digits, of w n] by (auto simp: list_all_iff is_digit_def)
  then show ?thesis by (simp add: seg_digits_def)
qed

lemma Itoa_no_dash: "0 \<le> p \<Longrightarrow> CHR ''-'' \<notin> set (Itoa p)"
  using Itoa_nonneg_chars [of p "CHR ''-''"] by (auto simp: is_digit_def)

lemma Itoa_nonneg_inj: "0 \<le> i \<Longrightarrow> 0 \<le> j \<Longrightarrow> Itoa i = Itoa j \<longleftrightarrow> i = j"
  by (auto simp: Itoa_def)

lemma topic_part_inj:
  "0 \<le> p \<Longrightarrow> 0 \<le> p' \<Longrightarrow> t @ CHR ''-'' # Itoa p = t' @ CHR ''-'' # Itoa p' \<longleftrightarrow> t = t' \<and> p = p'"
  using split_last_sep [of t "CHR ''-''" "Itoa p" t' "Itoa p'"] Itoa_no_dash Itoa_nonneg_inj by auto

lemma segmentName_inj:
  assumes "0 \<le> p" and "0 \<le> p'"
  shows "segmentName t p seg = segmentName t' p' seg' \<longleftrightarrow> t = t' \<and> p = p' \<and> seg = seg'"
proof
  assume "segmentName t p seg = segmentName t' p' seg'"
  then have "(t @ CHR ''-'' # Itoa p @ seg_prefix seg) @ CHR ''-'' # seg_digits seg
      = (t' @ CHR ''-'' # Itoa p' @ seg_prefix seg') @ CHR ''-'' # seg_digits seg'"
    unfolding segmentName_alt by (simp only: same_append_eq append_same_eq)
  from split_last_sep [OF this seg_digits_no_dash seg_digits_no_dash]
  have pre: "t @ CHR ''-'' # Itoa p @ seg_prefix seg = t' @ CHR ''-'' # Itoa p' @ seg_prefix seg'"
    and dig: "seg_digits seg = seg_digits seg'" by auto
  have "last (t @ CHR ''-'' # Itoa p @ seg_prefix seg) = last (seg_prefix seg)" for t p seg
    by (simp add: seg_prefix_def)
  with pre have "last (seg_prefix seg) = last (seg_prefix seg')" by metis
  then have sign: "seg < 0 \<longleftrightarrow> seg' < 0" by (auto simp: seg_prefix_def split: if_splits)
  with dig have "seg = seg'"
    by (auto simp: seg_digits_def pad0_digits_base_10_inj split: if_splits)
  with pre have "(t @ CHR ''-'' # Itoa p) @ seg_prefix seg = (t' @ CHR ''-'' # Itoa p') @ seg_prefix seg"
    by simp
  then have "t @ CHR ''-'' # Itoa p = t' @ CHR ''-'' # Itoa p'"
    by (simp only: append_same_eq)
  with assms \<open>seg = seg'\<close> show "t = t' \<and> p = p' \<and> seg = seg'" by (simp add: topic_part_inj)
qed simp

lemma segmentName_not_index:
  "segmentName t p seg \<noteq> offsetIndexName t' p'" "segmentName t p seg \<noteq> timestampIndexName t' p'"
proof -
  have l: "last (segmentName t p seg) = CHR ''g''" by (simp add: segmentName_def)
  show "segmentName t p seg \<noteq> offsetIndexName t' p'"
    using l by (auto simp: offsetIndexName_def dest!: arg_cong [of _ _ last])
  show "segmentName t p seg \<noteq> timestampIndexName t' p'"
    using l by (auto simp: timestampIndexName_def dest!: arg_cong [of _ _ last])
qed

text \<open>
  The mirror of a segment bears the name of a segment of the topic \<open>topic-partition-replica\<close>,
  whose partition number is the replica number.
\<close>

lemma replicaSegmentName_eq:
  "replicaSegmentName t p r seg = segmentName (t @ ''-'' @ Itoa p @ ''-replica'') r seg"
  by (simp add: replicaSegmentName_def segmentName_def)

text \<open>Index files are never taken for segments.\<close>

lemma HasSuffix_last: "HasSuffix s p \<Longrightarrow> p \<noteq> [] \<Longrightarrow> last s = last p"
  by (metis HasSuffix_def append_take_drop_id last_append)

lemma parseSegmentFileName_index:
  "parseSegmentFileName (offsetIndexName t p) = None"
  "parseSegmentFileName (timestampIndexName t p) = None"
  using HasSuffix_last [of "offsetIndexName t p" "''.log''"]
    HasSuffix_last [of "timestampIndexName t p" "''.log''"]
  by (auto simp: parseSegmentFileName_def offsetIndexName_def timestampIndexName_def)

text \<open>Whatever the topic, a segment name that parses at all parses to what it was made from.\<close>

lemma Join_SplitN: "sep \<noteq> [] \<Longrightarrow> Join (SplitN s sep (Suc n)) sep = s"
proof (induction n arbitrary: s)
  case (Suc n)
  show ?case
  proof (cases "Index s sep")
    case (Some i)
    have rest: "drop i s = sep @ drop (i + length sep) s"
      using Index_SomeD [OF Some] by (metis HasPrefix_def append_take_drop_id drop_drop add.commute)
    have "SplitN (drop (i + length sep) s) sep (Suc n) \<noteq> []"
      by (cases n) (auto split: option.split)
    then obtain x xs where xs: "SplitN (drop (i + length sep) s) sep (Suc n) = x # xs"
      by (auto simp: neq_Nil_conv)
    with Suc.IH [OF Suc.prems, of "drop (i + length sep) s"] Some
    have "Join (SplitN s sep (Suc (Suc n))) sep = take i s @ sep @ drop (i + length sep) s" by simp
    then show ?thesis using rest by (metis append_take_drop_id)
  qed simp
qed simp

lemma Join_Split: "sep \<noteq> [] \<Longrightarrow> Join (Split s sep) sep = s"
  unfolding Split_def by (rule Join_SplitN)

lemma Atoi_SomeD:
  assumes "Atoi s = Some i"
  shows "\<forall>c \<in> set s. is_digit c \<or> c = CHR ''-'' \<or> c = CHR ''+''"
    and "list_all is_digit s \<Longrightarrow> i = int (digits_val s)"
    and "s = CHR ''-'' # ds \<Longrightarrow> i = - int (digits_val ds)"
  using assms
  by (auto simp: Atoi_def Let_def list_all_iff is_digit_def split: list.splits if_splits)

lemma Atoi_Itoa_D: "Atoi (Itoa i) = Some j \<Longrightarrow> j = i"
  using Atoi_SomeD(2) [of "Itoa i" j] Atoi_SomeD(3) [of "Itoa i" j] digits_base_10_digits
  by (auto simp: Itoa_def split: if_splits)

lemma Atoi_fmt_06d_D: "Atoi (fmt_06d i) = Some j \<Longrightarrow> j = i"
  using Atoi_SomeD(2) [of "fmt_06d i" j] Atoi_SomeD(3) [of "fmt_06d i" j]
    pad0_digits [OF digits_base_10_digits]
  by (auto simp: fmt_06d_def split: if_splits)

lemma parseSegmentFileName_unique:
  assumes parse: "parseSegmentFileName (segmentName t p seg) = Some (t', p', seg')" and p: "0 \<le> p"
  shows "t' = t \<and> p' = p \<and> seg' = seg"
proof -
  let ?left = "t @ CHR ''-'' # Itoa p" and ?sep = "''-segment-''"
  have base: "segmentName t p seg = (?left @ ?sep @ fmt_06d seg) @ ''.log''"
    by (simp add: segmentName_def)
  then have trim: "TrimSuffix (segmentName t p seg) ''.log'' = ?left @ ?sep @ fmt_06d seg"
    by (simp del: append_assoc add: TrimSuffix_def)
  obtain l r idx where split: "Split (?left @ ?sep @ fmt_06d seg) ?sep = [l, r]"
    and r: "Atoi r = Some seg'" and idx: "LastIndex l ''-'' = Some idx" "t' = take idx l"
      "Atoi (drop (idx + 1) l) = Some p'"
    using parse unfolding parseSegmentFileName_def trim Let_def
    by (auto simp: length_Suc_conv numeral_2_eq_2 split: if_splits option.splits)
  have "Join (Split (?left @ ?sep @ fmt_06d seg) ?sep) ?sep = ?left @ ?sep @ fmt_06d seg"
    by (rule Join_Split) simp
  then have "(l @ ''-segmen'') @ CHR ''t'' # CHR ''-'' # r = (?left @ ''-segmen'') @ CHR ''t'' # CHR ''-'' # fmt_06d seg"
    unfolding split by simp
  then have eq: "l @ ''-segmen'' = ?left @ ''-segmen'' \<and> CHR ''-'' # r = CHR ''-'' # fmt_06d seg"
  proof (rule split_last_sep)
    show "CHR ''t'' \<notin> set (CHR ''-'' # r)" using Atoi_SomeD(1) [OF r] by (auto simp: is_digit_def)
    show "CHR ''t'' \<notin> set (CHR ''-'' # fmt_06d seg)"
      using fmt_06d_chars [of "CHR ''t''" seg] by (auto simp: is_digit_def)
  qed
  then have l: "l = ?left" and "r = fmt_06d seg" by simp_all
  with r have "seg' = seg" by (simp add: Atoi_fmt_06d_D)
  have "LastIndex ?left ''-'' = Some (length t)"
    by (rule LastIndex_char) (rule Itoa_no_dash [OF p])
  with idx l \<open>seg' = seg\<close> show ?thesis by (auto dest: Atoi_Itoa_D)
qed

text \<open>
  Startup reads back the name of every segment it wrote: for a topic that is not empty and does
  not contain \<open>-segment-\<close>, \<open>parseSegmentFileName\<close> inverts \<open>segmentName\<close>; and no two partitions or
  segments share a name.
\<close>

theorem segment_name_round_trip:
  assumes "topic \<noteq> []" and "\<not> Contains (topic @ ''-'') ''-segment-''"
    and "0 \<le> part" and "int64_ok part" and "0 \<le> seg" and "int64_ok seg"
  shows "parseSegmentFileName (segmentName topic part seg) = Some (topic, part, seg) \<and>
    (\<forall>topic' part' seg'. 0 \<le> part' \<longrightarrow> segmentName topic' part' seg' = segmentName topic part seg \<longrightarrow>
       topic' = topic \<and> part' = part \<and> seg' = seg)"
  using parseSegmentFileName_segmentName [OF assms] segmentName_inj assms(3) by blast

theorem segment_name_round_trip_witness:
  "parseSegmentFileName (segmentName ''my-topic'' 2 41) = Some (''my-topic'', 2, 41)"
  using segment_name_round_trip [of "''my-topic''" 2 41]
  by (simp add: Contains_def HasPrefix_def int64_ok_def)

text \<open>
  The local mirror of a segment has the name of a segment of another topic: startup takes the
  mirror of replica \<open>r\<close> of partition \<open>p\<close> of a topic for partition \<open>r\<close> of a topic called
  \<open>topic-p-replica\<close>.
\<close>

lemma mirror_read_as_topic:
  assumes "topic \<noteq> []" and "\<not> Contains (topic @ ''-'' @ Itoa part @ ''-replica-'') ''-segment-''"
    and "0 \<le> r" and "int64_ok r" and "0 \<le> seg" and "int64_ok seg"
  shows "parseSegmentFileName (replicaSegmentName topic part r seg)
    = Some (topic @ ''-'' @ Itoa part @ ''-replica'', r, seg)"
  unfolding replicaSegmentName_eq using assms by (intro parseSegmentFileName_segmentName) simp_all

section \<open>Paths\<close>

lemma Itoa_flat [simp]: "flat_name (Itoa i)" "flat_name (fmt_06d i)"
  using Itoa_chars [of "CHR ''/''" i] fmt_06d_chars [of "CHR ''/''" i]
  by (auto simp: flat_name_def is_digit_def)

lemma flat_append [simp]: "flat_name (a @ b) \<longleftrightarrow> flat_name a \<and> flat_name b"
  "flat_name (c # b) \<longleftrightarrow> c \<noteq> CHR ''/'' \<and> flat_name b" "flat_name []"
  by (auto simp: flat_name_def)

lemma proper_long: "2 < length e \<Longrightarrow> proper_elem e"
  by (auto simp: proper_elem_def)

lemma last_elem_name:
  assumes "flat_name b" "2 < length b"
  shows "last_elem (filepath_Join dir (t @ b)) = last_elem t @ b"
proof -
  have "proper_elem (last_elem (t @ b))"
    using assms(2) by (intro proper_long) (simp add: last_elem_append [OF assms(1)])
  then show ?thesis by (simp add: last_elem_Join last_elem_append [OF assms(1)])
qed

lemma last_elem_paths:
  "last_elem (segmentPath d t p seg) = segmentName (last_elem t) p seg"
  "last_elem (offsetIndexPath d t p) = offsetIndexName (last_elem t) p"
  "last_elem (timestampIndexPath d t p) = timestampIndexName (last_elem t) p"
  "last_elem (replicaSegmentPath d t p r seg) = replicaSegmentName (last_elem t) p r seg"
  unfolding segmentPath_def segmentName_def offsetIndexPath_def offsetIndexName_def
    timestampIndexPath_def timestampIndexName_def replicaSegmentPath_def replicaSegmentName_def
  by (rule last_elem_name; simp)+

lemma segmentPath_flat:
  assumes "flat_name t"
  shows "segmentPath d t p seg = dir_prefix d @ segmentName t p seg"
  unfolding segmentPath_def
  by (rule Join_flat) (use assms in \<open>simp_all add: segmentName_def proper_long\<close>)

lemma segmentPath_inj:
  assumes "0 \<le> p" "0 \<le> p'" "flat_name t" "flat_name t'"
  shows "segmentPath d t p seg = segmentPath d t' p' seg' \<longleftrightarrow> t = t' \<and> p = p' \<and> seg = seg'"
  using assms by (simp add: segmentPath_flat segmentName_inj)

lemma segmentPath_seg_inj [simp]: "0 \<le> p \<Longrightarrow> segmentPath d t p seg = segmentPath d t p seg' \<longleftrightarrow> seg = seg'"
  by (metis last_elem_paths(1) segmentName_inj)

lemma segmentPath_not_index:
  "segmentPath d t p seg \<noteq> offsetIndexPath d t' p'" "segmentPath d t p seg \<noteq> timestampIndexPath d t' p'"
  using segmentName_not_index last_elem_paths by metis+

text \<open>
  Topic names are not checked for slashes. The segments of \<open>x/../orders\<close> are those of \<open>orders\<close>,
  and those of \<open>../orders\<close> are outside the data directory.
\<close>

lemma topic_alias:
  assumes "flat_name x" "proper_elem x" "dir \<noteq> []"
  shows "segmentPath dir (x @ ''/../'' @ topic) part seg = segmentPath dir topic part seg"
  using Join_dotdot [OF assms, of "segmentName topic part seg"] by (simp add: segmentPath_def segmentName_def)

lemma topic_escape:
  assumes "flat_name topic"
  shows "segmentPath ''data'' (''../'' @ topic) part seg = segmentName topic part seg"
proof -
  have n: "flat_name (segmentName topic part seg)" "2 < length (segmentName topic part seg)"
    using assms by (simp_all add: segmentName_def)
  have "segmentPath ''data'' (''../'' @ topic) part seg = filepath_Clean (''data/../'' @ segmentName topic part seg)"
    by (simp add: segmentPath_def segmentName_def filepath_Join_def)
  then show ?thesis
    using n proper_long [OF n(2)]
    by (simp add: filepath_Clean_def path_elems_flat cleanElems_def cleanElem_def proper_elem_def HasPrefix_def)
qed

end
