(* ===== verification/Config.thy ===== *)
theory Config
  imports Go_Strings
begin

text \<open>
  \<open>config/config.go\<close>: the settings of a broker, read from environment variables over built-in
  defaults and validated. The environment is a function from names to values, the empty string
  for an unset variable, as \<open>os.Getenv\<close> gives it. \<open>InvalidVar\<close> is the error of a variable that
  does not hold a number, \<open>Rejected\<close> the error of the validation.
\<close>

record Config =
  ListenAddr :: string
  AdvertisedHost :: string
  AdvertisedPort :: int
  BrokerID :: int
  ClusterPeers :: "string list"
  DataDir :: string
  NumPartitions :: int
  ReplicationFactor :: int
  MinInSyncReplicas :: int
  ReplicaMaxLag :: int
  ReplicaLagTimeoutMs :: int
  AckAllTimeoutMs :: int
  SegmentMaxBytes :: int
  RetentionMaxBytes :: int
  RetentionMaxAgeSeconds :: int
  FlushIntervalMs :: int
  FlushBytes :: int
  FsyncMode :: string

datatype config_error = InvalidVar string | Rejected string

type_synonym environment = "string \<Rightarrow> string"

definition getEnv :: "environment \<Rightarrow> string \<Rightarrow> string \<Rightarrow> string" where
  "getEnv env key fallback = (if env key = [] then fallback else env key)"

definition parseCSVEnv :: "environment \<Rightarrow> string \<Rightarrow> string list" where
  "parseCSVEnv env key =
     (let raw = TrimSpace (env key)
      in if raw = [] then [] else filter (\<lambda>p. p \<noteq> []) (map TrimSpace (Split raw '','')))"

definition defaultConfig :: "environment \<Rightarrow> Config" where
  "defaultConfig env =
     \<lparr>ListenAddr = getEnv env ''FLUX_LISTEN_ADDR'' '':9092'',
      AdvertisedHost = getEnv env ''FLUX_ADVERTISED_HOST'' ''127.0.0.1'',
      AdvertisedPort = 9092,
      BrokerID = 0,
      ClusterPeers = parseCSVEnv env ''FLUX_CLUSTER_PEERS'',
      DataDir = getEnv env ''FLUX_DATA_DIR'' ''data'',
      NumPartitions = 3,
      ReplicationFactor = 3,
      MinInSyncReplicas = 2,
      ReplicaMaxLag = 0,
      ReplicaLagTimeoutMs = 10000,
      AckAllTimeoutMs = 2000,
      SegmentMaxBytes = 1 * 1024 * 1024,
      RetentionMaxBytes = 50 * 1024 * 1024,
      RetentionMaxAgeSeconds = 86400,
      FlushIntervalMs = 1000,
      FlushBytes = 64 * 1024,
      FsyncMode = ''always''\<rparr>"

text \<open>One \<open>if raw := os.Getenv(name); raw != ""\<close> block: parse the variable and store it.\<close>

definition overrideInt ::
  "environment \<Rightarrow> string \<Rightarrow> (int \<Rightarrow> Config \<Rightarrow> Config) \<Rightarrow> config_error + Config \<Rightarrow> config_error + Config" where
  "overrideInt env name store r =
     (case r of
        Inl e \<Rightarrow> Inl e
      | Inr cfg \<Rightarrow>
          if env name = [] then Inr cfg
          else case Atoi (env name) of
            None \<Rightarrow> Inl (InvalidVar name)
          | Some parsed \<Rightarrow> Inr (store parsed cfg))"

definition overrides :: "(string \<times> (int \<Rightarrow> Config \<Rightarrow> Config)) list" where
  "overrides =
     [(''FLUX_NUM_PARTITIONS'', \<lambda>v c. c\<lparr>NumPartitions := v\<rparr>),
      (''FLUX_ADVERTISED_PORT'', \<lambda>v c. c\<lparr>AdvertisedPort := v\<rparr>),
      (''FLUX_BROKER_ID'', \<lambda>v c. c\<lparr>BrokerID := v\<rparr>),
      (''FLUX_REPLICATION_FACTOR'', \<lambda>v c. c\<lparr>ReplicationFactor := v\<rparr>),
      (''FLUX_MIN_ISR'', \<lambda>v c. c\<lparr>MinInSyncReplicas := v\<rparr>),
      (''FLUX_REPLICA_MAX_LAG'', \<lambda>v c. c\<lparr>ReplicaMaxLag := v\<rparr>),
      (''FLUX_REPLICA_LAG_TIMEOUT_MS'', \<lambda>v c. c\<lparr>ReplicaLagTimeoutMs := v\<rparr>),
      (''FLUX_ACK_ALL_TIMEOUT_MS'', \<lambda>v c. c\<lparr>AckAllTimeoutMs := v\<rparr>),
      (''FLUX_SEGMENT_MAX_BYTES'', \<lambda>v c. c\<lparr>SegmentMaxBytes := v\<rparr>),
      (''FLUX_RETENTION_MAX_BYTES'', \<lambda>v c. c\<lparr>RetentionMaxBytes := v\<rparr>),
      (''FLUX_RETENTION_MAX_AGE_SECONDS'', \<lambda>v c. c\<lparr>RetentionMaxAgeSeconds := v\<rparr>),
      (''FLUX_FLUSH_INTERVAL_MS'', \<lambda>v c. c\<lparr>FlushIntervalMs := v\<rparr>),
      (''FLUX_FLUSH_BYTES'', \<lambda>v c. c\<lparr>FlushBytes := v\<rparr>)]"

definition overrideFsync :: "environment \<Rightarrow> Config \<Rightarrow> Config" where
  "overrideFsync env cfg =
     (if env ''FLUX_FSYNC_MODE'' = [] then cfg else cfg\<lparr>FsyncMode := env ''FLUX_FSYNC_MODE''\<rparr>)"

text \<open>The checks of \<open>Load\<close> in the order of the source, each with its message.\<close>

definition checks :: "Config \<Rightarrow> (bool \<times> string) list" where
  "checks cfg =
     [(NumPartitions cfg \<le> 0, ''num partitions must be > 0''),
      (ReplicationFactor cfg \<le> 0, ''replication factor must be > 0''),
      (MinInSyncReplicas cfg \<le> 0, ''min isr must be > 0''),
      (MinInSyncReplicas cfg > ReplicationFactor cfg, ''min isr cannot exceed replication factor''),
      (ReplicaMaxLag cfg < 0, ''replica max lag must be >= 0''),
      (ReplicaLagTimeoutMs cfg \<le> 0, ''replica lag timeout must be > 0''),
      (AckAllTimeoutMs cfg \<le> 0, ''ack all timeout must be > 0''),
      (ListenAddr cfg = [], ''listen addr cannot be empty''),
      (AdvertisedHost cfg = [], ''advertised host cannot be empty''),
      (AdvertisedPort cfg \<le> 0, ''advertised port must be > 0''),
      (BrokerID cfg < 0, ''broker id must be >= 0''),
      (DataDir cfg = [], ''data dir cannot be empty''),
      (SegmentMaxBytes cfg \<le> 0, ''segment max bytes must be > 0''),
      (RetentionMaxBytes cfg \<le> 0, ''retention max bytes must be > 0''),
      (RetentionMaxAgeSeconds cfg \<le> 0, ''retention max age seconds must be > 0''),
      (FlushIntervalMs cfg \<le> 0, ''flush interval ms must be > 0''),
      (FlushBytes cfg \<le> 0, ''flush bytes must be > 0''),
      (FsyncMode cfg \<noteq> ''always'' \<and> FsyncMode cfg \<noteq> ''interval'' \<and> FsyncMode cfg \<noteq> ''never'',
       ''fsync mode must be one of: always, interval, never'')]"

fun firstError :: "(bool \<times> string) list \<Rightarrow> string option" where
  "firstError [] = None"
| "firstError ((bad, msg) # cs) = (if bad then Some msg else firstError cs)"

definition validate :: "Config \<Rightarrow> config_error + Config" where
  "validate cfg = (case firstError (checks cfg) of Some msg \<Rightarrow> Inl (Rejected msg) | None \<Rightarrow> Inr cfg)"

definition Load :: "environment \<Rightarrow> config_error + Config" where
  "Load env =
     (case fold (\<lambda>(name, store). overrideInt env name store) overrides (Inr (defaultConfig env)) of
        Inl e \<Rightarrow> Inl e
      | Inr cfg \<Rightarrow> validate (overrideFsync env cfg))"

text \<open>What the rest of the broker relies on.\<close>

definition config_ok :: "Config \<Rightarrow> bool" where
  "config_ok cfg \<longleftrightarrow>
     0 < NumPartitions cfg \<and> 0 < MinInSyncReplicas cfg \<and>
     MinInSyncReplicas cfg \<le> ReplicationFactor cfg \<and> 0 \<le> ReplicaMaxLag cfg \<and>
     0 < ReplicaLagTimeoutMs cfg \<and> 0 < AckAllTimeoutMs cfg \<and> ListenAddr cfg \<noteq> [] \<and>
     AdvertisedHost cfg \<noteq> [] \<and> 0 < AdvertisedPort cfg \<and> 0 \<le> BrokerID cfg \<and> DataDir cfg \<noteq> [] \<and>
     0 < SegmentMaxBytes cfg \<and> 0 < RetentionMaxBytes cfg \<and> 0 < RetentionMaxAgeSeconds cfg \<and>
     0 < FlushIntervalMs cfg \<and> 0 < FlushBytes cfg \<and>
     FsyncMode cfg \<in> {''always'', ''interval'', ''never''}"

lemma firstError_None: "firstError cs = None \<longleftrightarrow> (\<forall>(bad, msg) \<in> set cs. \<not> bad)"
  by (induction cs rule: firstError.induct) auto

lemma validate_Inr: "validate cfg = Inr cfg' \<longleftrightarrow> cfg' = cfg \<and> config_ok cfg"
proof -
  have "firstError (checks cfg) = None \<longleftrightarrow> config_ok cfg"
    unfolding firstError_None checks_def config_ok_def by (simp add: not_le not_less) linarith
  then show ?thesis by (auto simp: validate_def split: option.splits)
qed

lemma overrideInt_Inl: "overrideInt env n f (Inl e) = Inl e"
  by (simp add: overrideInt_def)

lemma fold_override_Inl: "fold (\<lambda>(n, f). overrideInt env n f) os (Inl e) = Inl e"
  by (induction os) (auto simp: overrideInt_Inl)

lemma fold_override_bad:
  assumes "(name, f) \<in> set os" and "env name \<noteq> []" and "Atoi (env name) = None"
  shows "\<exists>e. fold (\<lambda>(n, f). overrideInt env n f) os r = Inl e"
  using assms
proof (induction os arbitrary: r)
  case (Cons o' os)
  show ?case
  proof (cases "o' = (name, f)")
    case True
    then have "\<exists>e. overrideInt env name f r = Inl e"
      using Cons.prems by (auto simp: overrideInt_def split: sum.splits)
    with True show ?thesis by (auto simp: fold_override_Inl)
  next
    case False
    with Cons show ?thesis by auto
  qed
qed simp

lemma Load_bad_number:
  assumes "name \<in> fst ` set overrides" and "env name \<noteq> []" and "Atoi (env name) = None"
  shows "\<exists>e. Load env = Inl e"
proof -
  from assms(1) obtain f where "(name, f) \<in> set overrides" by auto
  from fold_override_bad [where env = env and r = "Inr (defaultConfig env)", OF this assms(2, 3)]
  show ?thesis by (auto simp: Load_def)
qed

lemma Load_defaults:
  "Load (\<lambda>_. []) = Inr (defaultConfig (\<lambda>_. []))"
  by (simp add: Load_def overrides_def overrideInt_def overrideFsync_def validate_Inr config_ok_def
      defaultConfig_def getEnv_def)

text \<open>
  C37. A configuration that \<open>Load\<close> accepts satisfies every bound the broker relies on, and a numeric
  variable that does not hold a number makes \<open>Load\<close> fail.
\<close>

theorem Load_validates:
  "(\<forall>cfg. Load env = Inr cfg \<longrightarrow> config_ok cfg) \<and>
   (\<forall>name \<in> fst ` set overrides. env name \<noteq> [] \<longrightarrow> Atoi (env name) = None \<longrightarrow> (\<exists>e. Load env = Inl e))"
  using Load_bad_number by (auto simp: Load_def validate_Inr split: sum.splits)

theorem Load_validates_witness:
  "Load (\<lambda>_. []) = Inr (defaultConfig (\<lambda>_. [])) \<and> config_ok (defaultConfig (\<lambda>_. [])) \<and>
   (\<exists>e. Load (\<lambda>name. if name = ''FLUX_NUM_PARTITIONS'' then ''three'' else []) = Inl e)"
proof -
  have "''FLUX_NUM_PARTITIONS'' \<in> fst ` set overrides" by (simp add: overrides_def)
  moreover have "Atoi ''three'' = None" by (simp add: Atoi_def is_digit_def)
  ultimately show ?thesis
    using Load_validates [of "\<lambda>_. []"] Load_defaults
      Load_validates [of "\<lambda>name. if name = ''FLUX_NUM_PARTITIONS'' then ''three'' else []"] by auto
qed

end
