(* ===== verification/Storage.thy ===== *)
theory Storage
  imports Log_Format Config
begin

text \<open>
  \<open>storage/storage.go\<close>: the partition logs of a broker, with the file system they live on.

  \<^item> The struct \<open>Storage\<close> is the record \<open>Storage\<close>; its last field, \<open>disk\<close>, is the file system, a map
    from cleaned paths to files. The lock is held for the whole of every operation, so an operation is one
    step from a record to a record.
  \<^item> Everything an operation asks of the operating system is in the record \<open>io\<close>: the instant
    of the operation, and which calls fail (an open in a directory that does not exist is one). \<open>writeCut p = Some k\<close> is a write to \<open>p\<close> that fails
    after \<open>k\<close> bytes.
  \<^item> \<open>Consume\<close> and \<open>Produce\<close> return \<open>None\<close> where the source panics (a negative slice bound, a
    zero divisor).
  \<^item> Local variables that alias a \<open>*partitionState\<close> are values here, stored back by \<open>putState\<close>
    where the source writes through the pointer.
\<close>

section \<open>Data\<close>

record Message =
  Offset :: int
  Value :: string

record partitionState =
  nextOffset :: int
  activeSegmentID :: int
  segments :: "int list"
  lastFsyncAt :: int
  pendingBytes :: int

record diskFile =
  content :: string
  modTime :: int

type_synonym filesystem = "(string, diskFile) gomap"

record io =
  now :: int
  mkdirOK :: bool
  readDirOK :: bool
  statOK :: "string \<Rightarrow> bool"
  openOK :: "string \<Rightarrow> bool"
  writeCut :: "string \<Rightarrow> nat option"
  syncOK :: "string \<Rightarrow> bool"
  removeOK :: "string \<Rightarrow> bool"

record StorageSettings =
  dataDir :: string
  numPartitions :: int
  segmentMaxBytes :: int
  retentionMaxBytes :: int
  retentionMaxAge :: int
  flushInterval :: int
  flushBytes :: int
  fsyncMode :: string
  localReplicaCount :: nat

record Storage = StorageSettings +
  data :: "(string, (int, Message list) gomap) gomap"
  partitionStates :: "(string, (int, partitionState) gomap) gomap"
  disk :: filesystem

record segmentEntry =
  entryTopic :: string
  entryPartition :: int
  entrySegmentID :: int
  entryPath :: string

section \<open>Files\<close>

text \<open>\<open>os.Stat\<close>, which fails for a missing file or by a fault of the system.\<close>

definition statFile :: "io \<Rightarrow> string \<Rightarrow> filesystem \<Rightarrow> diskFile option" where
  "statFile env path fs = (if statOK env path then map_of fs path else None)"

text \<open>
  The names that \<open>os.ReadDir(dir)\<close> lists, in order: those of the files directly in \<open>dir\<close>. Paths are
  the cleaned ones that \<open>filepath.Join\<close> yields.
\<close>

definition readDir :: "string \<Rightarrow> filesystem \<Rightarrow> string list" where
  "readDir dir fs =
     sort (map last_elem (filter (\<lambda>path. filepath_Join dir (last_elem path) = path) (mkeys fs)))"

text \<open>\<open>os.OpenFile(path, O_APPEND|O_CREATE|O_WRONLY)\<close> and \<open>WriteString\<close> on the open file.\<close>

definition openAppend :: "io \<Rightarrow> string \<Rightarrow> filesystem \<Rightarrow> filesystem option" where
  "openAppend env path fs =
     (if \<not> openOK env path then None
      else Some (case map_of fs path of
          None \<Rightarrow> mput path \<lparr>content = [], modTime = now env\<rparr> fs
        | Some _ \<Rightarrow> fs))"

definition writeString :: "io \<Rightarrow> string \<Rightarrow> string \<Rightarrow> filesystem \<Rightarrow> filesystem \<times> bool" where
  "writeString env path line fs =
     (case map_of fs path of
        None \<Rightarrow> (fs, False)
      | Some f \<Rightarrow>
          (case writeCut env path of
             None \<Rightarrow> (mput path \<lparr>content = content f @ line, modTime = now env\<rparr> fs, True)
           | Some k \<Rightarrow>
               (if take k line = [] then fs
                else mput path \<lparr>content = content f @ take k line, modTime = now env\<rparr> fs, False)))"

definition appendLine :: "io \<Rightarrow> string \<Rightarrow> string \<Rightarrow> filesystem \<Rightarrow> filesystem \<times> bool" where
  "appendLine env path line fs =
     (case openAppend env path fs of
        None \<Rightarrow> (fs, False)
      | Some fs' \<Rightarrow> writeString env path line fs')"

section \<open>Partition state and cache\<close>

definition putState :: "string \<Rightarrow> int \<Rightarrow> partitionState \<Rightarrow> Storage \<Rightarrow> Storage" where
  "putState topic part st s = s\<lparr>partitionStates := mput2 topic part st (partitionStates s)\<rparr>"

definition ensurePartitionState :: "io \<Rightarrow> string \<Rightarrow> int \<Rightarrow> Storage \<Rightarrow> Storage \<times> partitionState" where
  "ensurePartitionState env topic part s =
     (case mget2 (partitionStates s) topic part of
        Some st \<Rightarrow> (s, st)
      | None \<Rightarrow>
          let st = \<lparr>nextOffset = 0, activeSegmentID = 0, segments = [0], lastFsyncAt = now env,
                    pendingBytes = 0\<rparr>
          in (putState topic part st s, st))"

definition cachedMessages :: "Storage \<Rightarrow> string \<Rightarrow> int \<Rightarrow> Message list" where
  "cachedMessages s topic part =
     (case mget2 (data s) topic part of None \<Rightarrow> [] | Some ms \<Rightarrow> ms)"

definition cacheMessage :: "string \<Rightarrow> int \<Rightarrow> Message \<Rightarrow> Storage \<Rightarrow> Storage" where
  "cacheMessage topic part m s =
     s\<lparr>data := mput2 topic part (cachedMessages s topic part @ [m]) (data s)\<rparr>"

section \<open>Appending\<close>

definition shouldRotate :: "io \<Rightarrow> string \<Rightarrow> int \<Rightarrow> int \<Rightarrow> int \<Rightarrow> Storage \<Rightarrow> bool" where
  "shouldRotate env topic part segmentID appendBytes s =
     (case statFile env (segmentPath (dataDir s) topic part segmentID) (disk s) of
        None \<Rightarrow> False
      | Some f \<Rightarrow> iadd (int (length (content f))) appendBytes > segmentMaxBytes s)"

definition rotate :: "io \<Rightarrow> string \<Rightarrow> int \<Rightarrow> int \<Rightarrow> Storage \<Rightarrow> partitionState \<Rightarrow> partitionState" where
  "rotate env topic part appendBytes s st =
     (if shouldRotate env topic part (activeSegmentID st) appendBytes s
      then let seg = iadd (activeSegmentID st) 1
           in st\<lparr>activeSegmentID := seg, segments := segments st @ [seg]\<rparr>
      else st)"

definition applyFsyncPolicy ::
  "io \<Rightarrow> string \<Rightarrow> Storage \<Rightarrow> partitionState \<Rightarrow> int \<Rightarrow> partitionState \<times> bool" where
  "applyFsyncPolicy env path s st written =
     (if fsyncMode s = ''never'' then (st, True)
      else if fsyncMode s = ''always'' then (st, syncOK env path)
      else if fsyncMode s = ''interval'' then
        let st1 = st\<lparr>pendingBytes := iadd (pendingBytes st) written\<rparr>
        in if pendingBytes st1 \<ge> flushBytes s
              \<or> time_Sub (now env) (lastFsyncAt st1) \<ge> flushInterval s
           then if \<not> syncOK env path then (st1, False)
                else (st1\<lparr>pendingBytes := 0, lastFsyncAt := now env\<rparr>, True)
           else (st1, True)
      else (st, syncOK env path))"

definition appendOffsetIndex :: "io \<Rightarrow> string \<Rightarrow> int \<Rightarrow> int \<Rightarrow> int \<Rightarrow> Storage \<Rightarrow> Storage" where
  "appendOffsetIndex env topic part offset segmentID s =
     s\<lparr>disk := fst (appendLine env (offsetIndexPath (dataDir s) topic part)
                     (Itoa offset @ '':'' @ fmt_06d segmentID @ [newline]) (disk s))\<rparr>"

definition appendTimestampIndex ::
  "io \<Rightarrow> string \<Rightarrow> int \<Rightarrow> int \<Rightarrow> int \<Rightarrow> int \<Rightarrow> Storage \<Rightarrow> Storage" where
  "appendTimestampIndex env topic part ts segmentID offset s =
     s\<lparr>disk := fst (appendLine env (timestampIndexPath (dataDir s) topic part)
                     (Itoa ts @ '':'' @ fmt_06d segmentID @ '':'' @ Itoa offset @ [newline])
                     (disk s))\<rparr>"

definition writeLocalReplicas :: "io \<Rightarrow> string \<Rightarrow> int \<Rightarrow> int \<Rightarrow> string \<Rightarrow> Storage \<Rightarrow> Storage" where
  "writeLocalReplicas env topic part segmentID line s =
     fold (\<lambda>replicaID s. s\<lparr>disk := fst (appendLine env
                   (replicaSegmentPath (dataDir s) topic part (int replicaID) segmentID) line (disk s))\<rparr>)
          [1..<Suc (localReplicaCount s)] s"

section \<open>Replaying segments\<close>

definition loadLine :: "io \<Rightarrow> string \<Rightarrow> int \<Rightarrow> int \<Rightarrow> string \<Rightarrow> Storage \<Rightarrow> Storage" where
  "loadLine env topic part segmentID line s =
     (case parseLogLine line of
        None \<Rightarrow> s
      | Some (offset, ts, val) \<Rightarrow>
          let s1 = cacheMessage topic part \<lparr>Offset = offset, Value = val\<rparr> s;
              (s2, st) = ensurePartitionState env topic part s1;
              s3 = (if nextOffset st \<le> offset
                    then putState topic part (st\<lparr>nextOffset := iadd offset 1\<rparr>) s2 else s2)
          in appendTimestampIndex env topic part ts segmentID offset
               (appendOffsetIndex env topic part offset segmentID s3))"

definition loadSegment :: "io \<Rightarrow> string \<Rightarrow> int \<Rightarrow> int \<Rightarrow> string \<Rightarrow> Storage \<Rightarrow> Storage" where
  "loadSegment env topic part segmentID path s =
     (case map_of (disk s) path of
        None \<Rightarrow> s
      | Some f \<Rightarrow>
          if \<not> openOK env path then s
          else fold (loadLine env topic part segmentID) (scan_lines (content f)) s)"

definition rebuildPartitionFromSegments :: "io \<Rightarrow> string \<Rightarrow> int \<Rightarrow> Storage \<Rightarrow> Storage" where
  "rebuildPartitionFromSegments env topic part s =
     (case mget2 (partitionStates s) topic part of
        None \<Rightarrow> s
      | Some st \<Rightarrow>
          let s1 = (case map_of (data s) topic of
                 None \<Rightarrow> s
               | Some _ \<Rightarrow> s\<lparr>data := mput2 topic part [] (data s)\<rparr>);
              s2 = putState topic part (st\<lparr>nextOffset := 0\<rparr>) s1
          in fold (\<lambda>segID. loadSegment env topic part segID (segmentPath (dataDir s) topic part segID))
               (segments st) s2)"

section \<open>Retention\<close>

definition dropSegment :: "string \<Rightarrow> int \<Rightarrow> Storage \<Rightarrow> Storage" where
  "dropSegment topic part s =
     (case mget2 (partitionStates s) topic part of
        None \<Rightarrow> s
      | Some st \<Rightarrow> putState topic part (st\<lparr>segments := tl (segments st)\<rparr>) s)"

definition deleteSegment :: "io \<Rightarrow> string \<Rightarrow> int \<Rightarrow> int \<Rightarrow> Storage \<Rightarrow> Storage" where
  "deleteSegment env topic part segID s =
     (let path = segmentPath (dataDir s) topic part segID;
          s1 = (if removeOK env path then s\<lparr>disk := mdel path (disk s)\<rparr> else s)
      in rebuildPartitionFromSegments env topic part (dropSegment topic part s1))"

text \<open>The loops of the two policies, by recursion on the segments that are left.\<close>

fun ageLoop :: "io \<Rightarrow> string \<Rightarrow> int \<Rightarrow> int \<Rightarrow> int list \<Rightarrow> Storage \<Rightarrow> Storage" where
  "ageLoop env topic part cutoff (segID # seg # segs) s =
     (case statFile env (segmentPath (dataDir s) topic part segID) (disk s) of
        None \<Rightarrow> ageLoop env topic part cutoff (seg # segs) (dropSegment topic part s)
      | Some f \<Rightarrow>
          if modTime f > cutoff then s
          else ageLoop env topic part cutoff (seg # segs) (deleteSegment env topic part segID s))"
| "ageLoop env topic part cutoff segs s = s"

definition applyAgeRetention :: "io \<Rightarrow> string \<Rightarrow> int \<Rightarrow> Storage \<Rightarrow> Storage" where
  "applyAgeRetention env topic part s =
     (if retentionMaxAge s \<le> 0 then s
      else case mget2 (partitionStates s) topic part of
        None \<Rightarrow> s
      | Some st \<Rightarrow> ageLoop env topic part (now env - retentionMaxAge s) (segments st) s)"

definition segmentSize :: "io \<Rightarrow> Storage \<Rightarrow> string \<Rightarrow> int \<Rightarrow> int \<Rightarrow> int" where
  "segmentSize env s topic part segID =
     (case statFile env (segmentPath (dataDir s) topic part segID) (disk s) of
        None \<Rightarrow> 0
      | Some f \<Rightarrow> int (length (content f)))"

fun sizeLoop :: "io \<Rightarrow> string \<Rightarrow> int \<Rightarrow> int \<Rightarrow> int list \<Rightarrow> Storage \<Rightarrow> Storage" where
  "sizeLoop env topic part tot (segID # seg # segs) s =
     (if tot > retentionMaxBytes s
      then sizeLoop env topic part (isub tot (segmentSize env s topic part segID)) (seg # segs)
             (deleteSegment env topic part segID s)
      else s)"
| "sizeLoop env topic part tot segs s = s"

definition applySizeRetention :: "io \<Rightarrow> string \<Rightarrow> int \<Rightarrow> Storage \<Rightarrow> Storage" where
  "applySizeRetention env topic part s =
     (if retentionMaxBytes s \<le> 0 then s
      else case mget2 (partitionStates s) topic part of
        None \<Rightarrow> s
      | Some st \<Rightarrow>
          let tot = fold (\<lambda>segID tot. iadd tot (segmentSize env s topic part segID)) (segments st) 0
          in sizeLoop env topic part tot (segments st) s)"

definition enforceRetentionLocked :: "io \<Rightarrow> Storage \<Rightarrow> Storage" where
  "enforceRetentionLocked env s =
     fold (\<lambda>(topic, part) s. applySizeRetention env topic part (applyAgeRetention env topic part s))
       (mkeys2 (partitionStates s)) s"

section \<open>Operations\<close>

definition ProduceToPartition ::
  "io \<Rightarrow> string \<Rightarrow> int \<Rightarrow> string \<Rightarrow> Storage \<Rightarrow> Storage \<times> int \<times> int" where
  "ProduceToPartition env topic part value s =
     (let (s1, st) = ensurePartitionState env topic part s;
          offset = nextOffset st;
          timestamp = time_UnixMilli (now env);
          line = formatLogLine offset timestamp value
      in if \<not> mkdirOK env then (s1, part, offset)
         else
           let st1 = rotate env topic part (int (length line)) s1 st;
               s2 = putState topic part st1 s1;
               path = segmentPath (dataDir s) topic part (activeSegmentID st1)
           in case openAppend env path (disk s2) of
                None \<Rightarrow> (s2, part, offset)
              | Some fs \<Rightarrow>
                  let (fs', written) = writeString env path line fs;
                      s3 = s2\<lparr>disk := fs'\<rparr>
                  in if \<not> written then (s3, part, offset)
                     else
                       let (st2, _) = applyFsyncPolicy env path s3 st1 (int (length line));
                           s4 = writeLocalReplicas env topic part (activeSegmentID st2) line
                                  (putState topic part st2 s3);
                           s5 = appendOffsetIndex env topic part offset (activeSegmentID st2) s4;
                           s6 = appendTimestampIndex env topic part timestamp (activeSegmentID st2)
                                  offset s5;
                           s7 = cacheMessage topic part \<lparr>Offset = offset, Value = value\<rparr> s6;
                           s8 = putState topic part (st2\<lparr>nextOffset := iadd (nextOffset st2) 1\<rparr>) s7
                       in (enforceRetentionLocked env s8, part, offset))"

definition Produce ::
  "io \<Rightarrow> string \<Rightarrow> string \<Rightarrow> string \<Rightarrow> Storage \<Rightarrow> (Storage \<times> int \<times> int) option" where
  "Produce env topic key value s =
     (case getPartition key (numPartitions s) of
        None \<Rightarrow> None
      | Some part \<Rightarrow> Some (ProduceToPartition env topic part value s))"

datatype append_error =
  NonContiguous int int
| MkdirFailed
| OpenFailed
| WriteFailed
| SyncFailed

definition AppendReplicated ::
  "io \<Rightarrow> string \<Rightarrow> int \<Rightarrow> int \<Rightarrow> string \<Rightarrow> Storage \<Rightarrow> Storage \<times> append_error option" where
  "AppendReplicated env topic part offset value s =
     (let (s1, st) = ensurePartitionState env topic part s
      in if offset < nextOffset st then (s1, None)
         else if offset > nextOffset st then (s1, Some (NonContiguous (nextOffset st) offset))
         else
           let timestamp = time_UnixMilli (now env);
               line = formatLogLine offset timestamp value
           in if \<not> mkdirOK env then (s1, Some MkdirFailed)
              else
                let st1 = rotate env topic part (int (length line)) s1 st;
                    s2 = putState topic part st1 s1;
                    path = segmentPath (dataDir s) topic part (activeSegmentID st1)
                in case openAppend env path (disk s2) of
                     None \<Rightarrow> (s2, Some OpenFailed)
                   | Some fs \<Rightarrow>
                       let (fs', written) = writeString env path line fs;
                           s3 = s2\<lparr>disk := fs'\<rparr>
                       in if \<not> written then (s3, Some WriteFailed)
                          else
                            let (st2, synced) = applyFsyncPolicy env path s3 st1 (int (length line));
                                s4 = putState topic part st2 s3
                            in if \<not> synced then (s4, Some SyncFailed)
                               else
                                 let s5 = appendOffsetIndex env topic part offset (activeSegmentID st2) s4;
                                     s6 = appendTimestampIndex env topic part timestamp
                                            (activeSegmentID st2) offset s5;
                                     s7 = cacheMessage topic part \<lparr>Offset = offset, Value = value\<rparr> s6;
                                     s8 = putState topic part (st2\<lparr>nextOffset := iadd offset 1\<rparr>) s7
                                 in (enforceRetentionLocked env s8, None))"

definition PartitionForKeyWithCount :: "string \<Rightarrow> int \<Rightarrow> int option" where
  "PartitionForKeyWithCount key partitionCount = getPartition key partitionCount"

definition PartitionForKey :: "string \<Rightarrow> Storage \<Rightarrow> int option" where
  "PartitionForKey key s = getPartition key (numPartitions s)"

definition LastOffset :: "string \<Rightarrow> int \<Rightarrow> Storage \<Rightarrow> int" where
  "LastOffset topic part s =
     (case map_of (data s) topic of
        None \<Rightarrow> - 1
      | Some partitions \<Rightarrow>
          (case map_of partitions part of
             None \<Rightarrow> - 1
           | Some messages \<Rightarrow> if messages = [] then - 1 else Offset (last messages)))"

definition Consume :: "string \<Rightarrow> int \<Rightarrow> int \<Rightarrow> Storage \<Rightarrow> Message list option" where
  "Consume topic part offset s =
     (case map_of (data s) topic of
        None \<Rightarrow> Some []
      | Some partitions \<Rightarrow>
          (case map_of partitions part of
             None \<Rightarrow> Some []
           | Some messages \<Rightarrow>
               if offset \<ge> int (length messages) then Some []
               else if offset < 0 then None
               else Some (drop (nat offset) messages)))"

section \<open>Startup\<close>

definition segmentEntries :: "string \<Rightarrow> filesystem \<Rightarrow> segmentEntry list" where
  "segmentEntries dir fs =
     List.map_filter
       (\<lambda>name. map_option
          (\<lambda>(topic, part, segID). \<lparr>entryTopic = topic, entryPartition = part,
                                 entrySegmentID = segID, entryPath = filepath_Join dir name\<rparr>)
          (parseSegmentFileName name))
       (readDir dir fs)"

definition entryKey :: "segmentEntry \<Rightarrow> string \<times> int \<times> int" where
  "entryKey e = (entryTopic e, entryPartition e, entrySegmentID e)"

definition loadEntry :: "io \<Rightarrow> segmentEntry \<Rightarrow> Storage \<Rightarrow> Storage" where
  "loadEntry env e s =
     (let (s1, st) = ensurePartitionState env (entryTopic e) (entryPartition e) s;
          st1 = (if segments st = [] \<or> last (segments st) \<noteq> entrySegmentID e
                 then st\<lparr>segments := segments st @ [entrySegmentID e]\<rparr> else st);
          st2 = (if entrySegmentID e > activeSegmentID st1
                 then st1\<lparr>activeSegmentID := entrySegmentID e\<rparr> else st1)
      in loadSegment env (entryTopic e) (entryPartition e) (entrySegmentID e) (entryPath e)
           (putState (entryTopic e) (entryPartition e) st2 s1))"

definition loadData :: "io \<Rightarrow> Storage \<Rightarrow> Storage" where
  "loadData env s =
     (if \<not> mkdirOK env \<or> \<not> readDirOK env then s
      else fold (loadEntry env) (sort_key entryKey (segmentEntries (dataDir s) (disk s))) s)"

definition valueOrDefaultInt :: "int \<Rightarrow> int \<Rightarrow> int" where
  "valueOrDefaultInt v fallback = (if v > 0 then v else fallback)"

definition valueOrDefaultString :: "string \<Rightarrow> string \<Rightarrow> string" where
  "valueOrDefaultString v fallback = (if TrimSpace v = [] then fallback else v)"

definition newStorageRecord :: "Config \<Rightarrow> filesystem \<Rightarrow> Storage" where
  "newStorageRecord cfg fs =
     \<lparr>dataDir = DataDir cfg,
      numPartitions = NumPartitions cfg,
      segmentMaxBytes = valueOrDefaultInt (SegmentMaxBytes cfg) (1 * 1024 * 1024),
      retentionMaxBytes = valueOrDefaultInt (RetentionMaxBytes cfg) (50 * 1024 * 1024),
      retentionMaxAge =
        valueOrDefaultInt (imul (RetentionMaxAgeSeconds cfg) Second) (24 * 60 * 60 * Second),
      flushInterval =
        valueOrDefaultInt (imul (FlushIntervalMs cfg) Millisecond) (1000 * Millisecond),
      flushBytes = valueOrDefaultInt (FlushBytes cfg) (64 * 1024),
      fsyncMode = valueOrDefaultString (FsyncMode cfg) ''always'',
      localReplicaCount = 2,
      data = [], partitionStates = [], disk = fs\<rparr>"

definition NewStorage :: "io \<Rightarrow> Config \<Rightarrow> filesystem \<Rightarrow> Storage" where
  "NewStorage env cfg fs = enforceRetentionLocked env (loadData env (newStorageRecord cfg fs))"

end
