(* ===== verification/Storage_Views.thy ===== *)
theory Storage_Views
  imports Storage
begin

text \<open>
  How the primitives of \<open>storage/storage.go\<close> act on one partition.

  \<^item> A partition is seen through its cached messages, its \<open>partitionState\<close> and its segment files.
    Every primitive of \<open>Storage\<close> is described by its effect on these three views; \<open>frame\<close> says
    that a step concerns one partition and leaves the others alone.
  \<^item> \<open>log_ok\<close> is the invariant of one partition: the cache is what replaying the segment files
    would give, offsets are consecutive up to \<open>nextOffset\<close>, segments are in order, and a log that
    still has its first segment file has lost no record to retention.
    \<open>storage_ok\<close> asks it of every partition.
  \<^item> Replaying segments (\<open>loadSegment\<close>, \<open>rebuildPartitionFromSegments\<close>) yields the records the
    files hold.
\<close>

named_theorems view

section \<open>Views of a partition\<close>

definition segFiles :: "Storage \<Rightarrow> string \<Rightarrow> int \<Rightarrow> int \<Rightarrow> diskFile option" where
  "segFiles s t p = (\<lambda>seg. map_of (disk s) (segmentPath (dataDir s) t p seg))"

definition settings :: "Storage \<Rightarrow> StorageSettings" where
  "settings s = StorageSettings.truncate s"

text \<open>
  The topics the theorems are about: without a slash, so that every path is the data directory
  followed by the name, and not named like the local mirror of another topic.
\<close>

definition plain_topic :: "string \<Rightarrow> bool" where
  "plain_topic t \<longleftrightarrow> flat_name t \<and> \<not> HasSuffix t ''-replica''"

text \<open>A partition whose files no other partition without a slash in its topic can reach.\<close>

definition placed :: "string \<Rightarrow> int \<Rightarrow> bool" where
  "placed t p \<longleftrightarrow> 0 \<le> p \<and> flat_name t"

definition msg_of_line :: "string \<Rightarrow> Message option" where
  "msg_of_line l = map_option (\<lambda>(off, ts, v). \<lparr>Offset = off, Value = v\<rparr>) (parseLogLine l)"

definition records_of_lines :: "string list \<Rightarrow> Message list" where
  "records_of_lines ls = List.map_filter msg_of_line ls"

definition file_records :: "diskFile option \<Rightarrow> Message list" where
  "file_records fo = (case fo of None \<Rightarrow> [] | Some f \<Rightarrow> records_of_lines (scan_lines (content f)))"

definition segment_records :: "(int \<Rightarrow> diskFile option) \<Rightarrow> int list \<Rightarrow> Message list" where
  "segment_records F segs = concat (map (\<lambda>seg. file_records (F seg)) segs)"

definition consecutive :: "int \<Rightarrow> Message list \<Rightarrow> bool" where
  "consecutive next ms \<longleftrightarrow>
     int (length ms) \<le> next \<and>
     (\<forall>i < length ms. Offset (ms ! i) = next - int (length ms) + int i)"

definition log_ok :: "Message list \<Rightarrow> partitionState \<Rightarrow> (int \<Rightarrow> diskFile option) \<Rightarrow> bool" where
  "log_ok ms st F \<longleftrightarrow>
     ms = segment_records F (segments st) \<and>
     consecutive (nextOffset st) ms \<and> (ms = [] \<longrightarrow> nextOffset st = 0) \<and> int64_ok (nextOffset st) \<and>
     sorted_wrt (<) (segments st) \<and> segments st \<noteq> [] \<and> 0 \<le> hd (segments st) \<and>
     last (segments st) = activeSegmentID st \<and> activeSegmentID st \<le> nextOffset st \<and>
     (\<forall>seg. F seg \<noteq> None \<longrightarrow> seg \<in> set (segments st)) \<and>
     (\<forall>f \<in> ran F. lines_fit (content f) \<and> file_records (Some f) \<noteq> []) \<and>
     (segments st \<noteq> [0] \<longrightarrow> file_records (F (activeSegmentID st)) \<noteq> []) \<and>
     (F 0 \<noteq> None \<longrightarrow> nextOffset st = int (length ms))"

definition part_ok :: "Storage \<Rightarrow> string \<Rightarrow> int \<Rightarrow> bool" where
  "part_ok s t p \<longleftrightarrow>
     (case mget2 (partitionStates s) t p of
        None \<Rightarrow> cachedMessages s t p = [] \<and> segFiles s t p = Map.empty
      | Some st \<Rightarrow> log_ok (cachedMessages s t p) st (segFiles s t p))"

definition storage_ok :: "Storage \<Rightarrow> bool" where
  "storage_ok s \<longleftrightarrow>
     mwf2 (partitionStates s) \<and> mwf (disk s) \<and>
     (\<forall>t p. mget2 (partitionStates s) t p \<noteq> None \<longrightarrow> placed t p) \<and>
     (\<forall>t p. plain_topic t \<longrightarrow> 0 \<le> p \<longrightarrow> part_ok s t p)"

text \<open>An environment in which no system call fails, at an instant that 64 bits of nanoseconds hold.\<close>

definition io_ok :: "io \<Rightarrow> bool" where
  "io_ok env \<longleftrightarrow>
     mkdirOK env \<and> readDirOK env \<and> statOK env = (\<lambda>_. True) \<and> openOK env = (\<lambda>_. True) \<and> writeCut env = (\<lambda>_. None) \<and>
     syncOK env = (\<lambda>_. True) \<and> removeOK env = (\<lambda>_. True) \<and> int64_ok (now env)"

text \<open>
  A value that a segment line can carry: no line break, no trailing carriage return, and short
  enough for the line to fit the reader's buffer of 64 KiB.
\<close>

definition value_ok :: "string \<Rightarrow> bool" where
  "value_ok v \<longleftrightarrow> newline \<notin> set v \<and> (v \<noteq> [] \<longrightarrow> last v \<noteq> carriage_return) \<and> length v + 51 \<le> max_line"

definition nextAt :: "Storage \<Rightarrow> string \<Rightarrow> int \<Rightarrow> int" where
  "nextAt s t p = (case mget2 (partitionStates s) t p of None \<Rightarrow> 0 | Some st \<Rightarrow> nextOffset st)"

definition activeAt :: "Storage \<Rightarrow> string \<Rightarrow> int \<Rightarrow> int" where
  "activeAt s t p = (case mget2 (partitionStates s) t p of None \<Rightarrow> 0 | Some st \<Rightarrow> activeSegmentID st)"

lemma dataDir_settings: "settings s' = settings s \<Longrightarrow> dataDir s' = dataDir s"
  by (simp add: settings_def StorageSettings.defs)

lemma plain_placed: "plain_topic t \<Longrightarrow> 0 \<le> p \<Longrightarrow> placed t p"
  by (simp add: plain_topic_def placed_def)

section \<open>Files\<close>

lemma statFile_ok: "io_ok env \<Longrightarrow> statFile env path fs = map_of fs path"
  by (simp add: io_ok_def statFile_def)

lemma map_of_appendLine_other:
  "q \<noteq> path \<Longrightarrow> map_of (fst (appendLine env path line fs)) q = map_of fs q"
  by (auto simp: appendLine_def openAppend_def writeString_def map_of_mput split: option.splits)

lemma mwf_openAppend: "mwf fs \<Longrightarrow> openAppend env path fs = Some fs' \<Longrightarrow> mwf fs'"
  by (auto simp: openAppend_def mwf_mput split: option.splits if_splits)

lemma mwf_writeString: "mwf fs \<Longrightarrow> mwf (fst (writeString env path line fs))"
  by (auto simp: writeString_def mwf_mput split: option.splits)

lemma mwf_appendLine: "mwf fs \<Longrightarrow> mwf (fst (appendLine env path line fs))"
  by (auto simp: appendLine_def mwf_openAppend mwf_writeString split: option.splits)

lemma appendLine_ok:
  assumes "io_ok env"
  shows "openAppend env path fs = Some fs' \<Longrightarrow> writeString env path line fs' = (fs'', b)
     \<Longrightarrow> b \<and> map_of fs'' = (map_of fs)(path \<mapsto> \<lparr>content = (case map_of fs path of
              None \<Rightarrow> [] | Some f \<Rightarrow> content f) @ line, modTime = now env\<rparr>)"
  using assms
  by (auto simp: io_ok_def openAppend_def writeString_def map_of_mput fun_eq_iff split: option.splits)

section \<open>Effect of the primitives\<close>

lemma disk_putState [view]: "disk (putState t p st s) = disk s"
  and data_putState [view]: "data (putState t p st s) = data s"
  and settings_putState [view]: "settings (putState t p st s) = settings s"
  and states_putState [view]:
    "partitionStates (putState t p st s) = mput2 t p st (partitionStates s)"
  by (simp_all add: putState_def settings_def StorageSettings.defs)

lemma data_appendOffsetIndex [view]:
  "data (appendOffsetIndex env t p off seg s) = data s"
  "partitionStates (appendOffsetIndex env t p off seg s) = partitionStates s"
  "settings (appendOffsetIndex env t p off seg s) = settings s"
  "segFiles (appendOffsetIndex env t p off seg s) t' p' = segFiles s t' p'"
  by (simp_all add: appendOffsetIndex_def settings_def StorageSettings.defs segFiles_def
      map_of_appendLine_other segmentPath_not_index)

lemma data_appendTimestampIndex [view]:
  "data (appendTimestampIndex env t p ts seg off s) = data s"
  "partitionStates (appendTimestampIndex env t p ts seg off s) = partitionStates s"
  "settings (appendTimestampIndex env t p ts seg off s) = settings s"
  "segFiles (appendTimestampIndex env t p ts seg off s) t' p' = segFiles s t' p'"
  by (simp_all add: appendTimestampIndex_def settings_def StorageSettings.defs segFiles_def
      map_of_appendLine_other segmentPath_not_index)

lemma mirror_not_plain:
  "plain_topic t' \<Longrightarrow> 0 \<le> p' \<Longrightarrow> segmentPath d t' p' seg' \<noteq> replicaSegmentPath d t p (int r) seg"
proof
  assume a: "plain_topic t'" "0 \<le> p'" and eq: "segmentPath d t' p' seg' = replicaSegmentPath d t p (int r) seg"
  from eq have "segmentName (last_elem t') p' seg' = replicaSegmentName (last_elem t) p (int r) seg"
    by (metis last_elem_paths(1,4))
  with a show False
    by (simp add: plain_topic_def last_elem_flat replicaSegmentName_eq segmentName_inj) (auto simp: HasSuffix_def)
qed

lemma mirror_step:
  assumes "plain_topic t'" "0 \<le> p'"
  shows "segFiles (s\<lparr>disk := fst (appendLine env (replicaSegmentPath (dataDir s) t p (int r) seg) line (disk s))\<rparr>) t' p'
    = segFiles s t' p'"
  by (simp add: segFiles_def map_of_appendLine_other mirror_not_plain [OF assms])

lemma writeLocalReplicas_fold:
  "plain_topic t' \<Longrightarrow> 0 \<le> p' \<Longrightarrow>
   let s' = fold (\<lambda>r s. s\<lparr>disk := fst (appendLine env (replicaSegmentPath (dataDir s) t p (int r) seg) line (disk s))\<rparr>) rs s
   in data s' = data s \<and> partitionStates s' = partitionStates s \<and> settings s' = settings s
      \<and> segFiles s' t' p' = segFiles s t' p'"
proof (induction rs arbitrary: s)
  case (Cons r rs)
  let ?s1 = "s\<lparr>disk := fst (appendLine env (replicaSegmentPath (dataDir s) t p (int r) seg) line (disk s))\<rparr>"
  have "settings ?s1 = settings s" by (simp add: settings_def StorageSettings.defs)
  with Cons.IH [OF Cons.prems, of ?s1] mirror_step [OF Cons.prems, where s = s] show ?case by (simp add: Let_def)
qed simp

lemma data_writeLocalReplicas [view]:
  "data (writeLocalReplicas env t p seg line s) = data s"
  "partitionStates (writeLocalReplicas env t p seg line s) = partitionStates s"
  "settings (writeLocalReplicas env t p seg line s) = settings s"
  using writeLocalReplicas_fold [of "[]" 0]
  by (simp_all add: writeLocalReplicas_def Let_def plain_topic_def flat_name_def HasSuffix_def)

lemma segFiles_writeLocalReplicas [view]:
  "plain_topic t' \<Longrightarrow> 0 \<le> p' \<Longrightarrow> segFiles (writeLocalReplicas env t p seg line s) t' p' = segFiles s t' p'"
  using writeLocalReplicas_fold by (simp add: writeLocalReplicas_def Let_def)

lemma mwf_disk_writeLocalReplicas [view]:
  "mwf (disk s) \<Longrightarrow> mwf (disk (writeLocalReplicas env t p seg line s))"
proof -
  have "mwf (disk s) \<Longrightarrow> mwf (disk (fold (\<lambda>r s. s\<lparr>disk := fst (appendLine env
      (replicaSegmentPath (dataDir s) t p (int r) seg) line (disk s))\<rparr>) rs s))" for rs
    by (induction rs arbitrary: s) (simp_all add: mwf_appendLine)
  then show "mwf (disk s) \<Longrightarrow> ?thesis" by (simp add: writeLocalReplicas_def)
qed

lemma mwf_disk_index [view]:
  "mwf (disk s) \<Longrightarrow> mwf (disk (appendOffsetIndex env t p off seg s))"
  "mwf (disk s) \<Longrightarrow> mwf (disk (appendTimestampIndex env t p ts seg off s))"
  by (simp_all add: appendOffsetIndex_def appendTimestampIndex_def mwf_appendLine)

lemma cacheMessage_view [view]:
  "disk (cacheMessage t p m s) = disk s"
  "partitionStates (cacheMessage t p m s) = partitionStates s"
  "settings (cacheMessage t p m s) = settings s"
  "cachedMessages (cacheMessage t p m s) t' p' =
     (if t' = t \<and> p' = p then cachedMessages s t p @ [m] else cachedMessages s t' p')"
  by (auto simp: cacheMessage_def settings_def StorageSettings.defs cachedMessages_def mget2_mput2)

lemma cachedMessages_view [view]:
  "cachedMessages (putState t p st s) = cachedMessages s"
  "cachedMessages (appendOffsetIndex env t p off seg s) = cachedMessages s"
  "cachedMessages (appendTimestampIndex env t p ts seg off s) = cachedMessages s"
  "cachedMessages (writeLocalReplicas env t p seg line s) = cachedMessages s"
  "cachedMessages (s\<lparr>disk := fs\<rparr>) = cachedMessages s"
  by (simp_all add: cachedMessages_def fun_eq_iff view)

lemma segFiles_view [view]:
  "segFiles (putState t p st s) = segFiles s"
  "segFiles (cacheMessage t p m s) = segFiles s"
  "segFiles (s\<lparr>data := d\<rparr>) = segFiles s"
  by (simp_all add: segFiles_def fun_eq_iff putState_def cacheMessage_def)

lemma settings_update [view]:
  "settings (s\<lparr>disk := fs\<rparr>) = settings s" "settings (s\<lparr>data := d\<rparr>) = settings s"
  by (simp_all add: settings_def StorageSettings.defs)

section \<open>Steps that concern one partition\<close>

definition frame :: "string \<Rightarrow> int \<Rightarrow> Storage \<Rightarrow> Storage \<Rightarrow> bool" where
  "frame t p s s' \<longleftrightarrow>
     settings s' = settings s \<and>
     (mwf2 (partitionStates s) \<longrightarrow> mwf2 (partitionStates s')) \<and>
     (mwf (disk s) \<longrightarrow> mwf (disk s')) \<and>
     (\<forall>t' p'. (t', p') \<noteq> (t, p) \<longrightarrow>
        cachedMessages s' t' p' = cachedMessages s t' p' \<and>
        mget2 (partitionStates s') t' p' = mget2 (partitionStates s) t' p' \<and>
        (plain_topic t' \<longrightarrow> 0 \<le> p' \<longrightarrow> segFiles s' t' p' = segFiles s t' p'))"

lemma frame_refl [simp]: "frame t p s s"
  by (simp add: frame_def)

lemma frame_dataDir: "frame t p s s' \<Longrightarrow> dataDir s' = dataDir s"
  unfolding frame_def by (blast dest: dataDir_settings)

lemma frame_trans [trans]: "frame t p s s' \<Longrightarrow> frame t p s' s'' \<Longrightarrow> frame t p s s''"
  unfolding frame_def by auto

lemma frame_putState: "frame t p s (putState t p st s)"
  by (auto simp: frame_def view mget2_mput2 mwf2_mput2)

lemma frame_cacheMessage: "frame t p s (cacheMessage t p m s)"
  by (auto simp: frame_def view)

lemma frame_index:
  "frame t p s (appendOffsetIndex env t p off seg s)"
  "frame t p s (appendTimestampIndex env t p ts seg off s)"
  by (auto simp: frame_def view)

lemma frame_writeLocalReplicas: "frame t p s (writeLocalReplicas env t p seg line s)"
  by (auto simp: frame_def view)

lemma frame_disk:
  assumes "mwf (disk s) \<Longrightarrow> mwf fs"
    and "\<And>q. q \<noteq> segmentPath (dataDir s) t p seg \<Longrightarrow> map_of fs q = map_of (disk s) q"
    and "placed t p"
  shows "frame t p s (s\<lparr>disk := fs\<rparr>)"
  using assms by (auto simp: frame_def view segFiles_def fun_eq_iff segmentPath_inj plain_topic_def placed_def)

lemma frame_ensure: "frame t p s (fst (ensurePartitionState env t p s))"
  by (auto simp: ensurePartitionState_def frame_putState Let_def split: option.splits)

lemma frame_steps:
  "frame t p s s' \<Longrightarrow> frame t p s (putState t p st s')"
  "frame t p s s' \<Longrightarrow> frame t p s (cacheMessage t p m s')"
  "frame t p s s' \<Longrightarrow> frame t p s (appendOffsetIndex env t p off seg s')"
  "frame t p s s' \<Longrightarrow> frame t p s (appendTimestampIndex env t p ts seg off s')"
  "frame t p s s' \<Longrightarrow> frame t p s (writeLocalReplicas env t p seg line s')"
  by (rule frame_trans, assumption,
      rule frame_putState frame_cacheMessage frame_index frame_writeLocalReplicas)+

lemma ensure_state:
  "ensurePartitionState env t p s = (s', st) \<Longrightarrow>
     mget2 (partitionStates s') t p = Some st \<and> cachedMessages s' = cachedMessages s \<and>
     segFiles s' = segFiles s \<and> data s' = data s \<and> disk s' = disk s \<and> dataDir s' = dataDir s \<and>
     (mget2 (partitionStates s) t p = Some st \<and> s' = s \<or>
      mget2 (partitionStates s) t p = None \<and> nextOffset st = 0 \<and> activeSegmentID st = 0
      \<and> segments st = [0])"
  by (auto simp: ensurePartitionState_def view Let_def intro: dataDir_settings split: option.splits)

section \<open>Replaying a segment\<close>

definition bump :: "Message list \<Rightarrow> int \<Rightarrow> int" where
  "bump ms next = fold (\<lambda>m next. if next \<le> Offset m then iadd (Offset m) 1 else next) ms next"

lemma bump_simps [simp]: "bump [] n = n" "bump (ms @ ms') n = bump ms' (bump ms n)"
  by (simp_all add: bump_def)

lemma records_of_lines_simps [simp]:
  "records_of_lines [] = []"
  "records_of_lines (l # ls) = (case msg_of_line l of None \<Rightarrow> [] | Some m \<Rightarrow> [m]) @ records_of_lines ls"
  "records_of_lines (ls @ ls') = records_of_lines ls @ records_of_lines ls'"
  by (simp_all add: records_of_lines_def List.map_filter_def split: option.splits)

lemma frame_loadLine: "frame t p s (loadLine env t p seg l s)"
proof (cases "parseLogLine l")
  case None
  then show ?thesis by (simp add: loadLine_def)
next
  case (Some r)
  obtain off ts v where r: "r = (off, ts, v)" by (cases r) auto
  let ?s1 = "cacheMessage t p \<lparr>Offset = off, Value = v\<rparr> s"
  obtain s2 st where e: "ensurePartitionState env t p ?s1 = (s2, st)" by force
  have "frame t p s s2"
    using frame_trans [OF frame_cacheMessage frame_ensure] by (metis e fst_conv)
  then show ?thesis
    using Some r e by (auto simp: loadLine_def Let_def intro: frame_steps)
qed

lemma loadLine_view:
  assumes "mget2 (partitionStates s) t p = Some st"
  shows "cachedMessages (loadLine env t p seg l s) t p = cachedMessages s t p @ records_of_lines [l]"
    and "mget2 (partitionStates (loadLine env t p seg l s)) t p =
      Some (st\<lparr>nextOffset := bump (records_of_lines [l]) (nextOffset st)\<rparr>)"
    and "segFiles (loadLine env t p seg l s) = segFiles s"
  using assms
  by (auto simp: loadLine_def view ensurePartitionState_def msg_of_line_def bump_def Let_def
      fun_eq_iff split: option.splits)

lemma fold_loadLine:
  assumes "mget2 (partitionStates s) t p = Some st"
  shows "cachedMessages (fold (loadLine env t p seg) ls s) t p = cachedMessages s t p @ records_of_lines ls"
    and "mget2 (partitionStates (fold (loadLine env t p seg) ls s)) t p =
      Some (st\<lparr>nextOffset := bump (records_of_lines ls) (nextOffset st)\<rparr>)"
    and "segFiles (fold (loadLine env t p seg) ls s) = segFiles s"
    and "frame t p s (fold (loadLine env t p seg) ls s)"
  using assms
proof (induction ls arbitrary: s st)
  case (Cons l ls)
  {
    case 1
    then show ?case using Cons.IH(1) [OF loadLine_view(2)] by (simp add: loadLine_view(1))
  next
    case 2
    then show ?case using Cons.IH(2) [OF loadLine_view(2)] by simp
  next
    case 3
    then show ?case using Cons.IH(3) [OF loadLine_view(2)] by (simp add: loadLine_view(3))
  next
    case 4
    then show ?case using frame_trans [OF frame_loadLine Cons.IH(4) [OF loadLine_view(2)]] by simp
  }
qed simp_all

lemma frame_fold: "(\<And>x s. frame t p s (f x s)) \<Longrightarrow> frame t p s (fold f xs s)"
  by (induction xs arbitrary: s) (auto intro: frame_trans)

lemma frame_loadSegment: "frame t p s (loadSegment env t p seg path s)"
  by (auto simp: loadSegment_def intro: frame_fold frame_loadLine split: option.splits)

lemma loadSegment_view:
  assumes "openOK env = (\<lambda>_. True)" and "mget2 (partitionStates s) t p = Some st"
  shows "cachedMessages (loadSegment env t p seg path s) t p =
      cachedMessages s t p @ file_records (map_of (disk s) path)"
    and "mget2 (partitionStates (loadSegment env t p seg path s)) t p =
      Some (st\<lparr>nextOffset := bump (file_records (map_of (disk s) path)) (nextOffset st)\<rparr>)"
    and "segFiles (loadSegment env t p seg path s) = segFiles s"
  using assms by (auto simp: loadSegment_def file_records_def fold_loadLine split: option.splits)

lemma segment_records_simps [simp]:
  "segment_records F [] = []"
  "segment_records F (seg # segs) = file_records (F seg) @ segment_records F segs"
  "segment_records F (segs @ segs') = segment_records F segs @ segment_records F segs'"
  by (simp_all add: segment_records_def)

lemma segment_records_cong:
  "(\<And>seg. seg \<in> set segs \<Longrightarrow> F seg = G seg) \<Longrightarrow> segment_records F segs = segment_records G segs"
  unfolding segment_records_def by (metis (no_types, lifting) map_cong)

lemma fold_loadSegment:
  fixes env t p d
  defines "load \<equiv> \<lambda>seg. loadSegment env t p seg (segmentPath d t p seg)"
  assumes "openOK env = (\<lambda>_. True)" and "mget2 (partitionStates s) t p = Some st"
    and "segFiles s t p = F" and "dataDir s = d"
  shows "cachedMessages (fold load segs s) t p = cachedMessages s t p @ segment_records F segs
    \<and> mget2 (partitionStates (fold load segs s)) t p =
      Some (st\<lparr>nextOffset := bump (segment_records F segs) (nextOffset st)\<rparr>)
    \<and> segFiles (fold load segs s) = segFiles s"
  using assms(2-)
proof (induction segs arbitrary: s st)
  case (Cons seg segs)
  note v = loadSegment_view [OF Cons.prems(1,2), of seg "segmentPath d t p seg"]
  have F: "map_of (disk s) (segmentPath d t p seg) = F seg"
    using Cons.prems(3,4) by (auto simp: segFiles_def)
  have G: "segFiles (loadSegment env t p seg (segmentPath d t p seg) s) t p = F"
    using Cons.prems(3) v(3) by simp
  have D: "dataDir (loadSegment env t p seg (segmentPath d t p seg) s) = d"
    by (simp add: frame_dataDir [OF frame_loadSegment] Cons.prems(4))
  from Cons.IH [OF Cons.prems(1) v(2) G D] v F show ?case by (simp add: load_def)
qed simp

lemma frame_resetData:
  "frame t p s (s\<lparr>data := mput2 t p [] (data s)\<rparr>)"
  by (auto simp: frame_def view cachedMessages_def mget2_mput2)

lemma frame_rebuild: "frame t p s (rebuildPartitionFromSegments env t p s)"
proof -
  have "frame t p s (putState t p st (case map_of (data s) t of
      None \<Rightarrow> s | Some _ \<Rightarrow> s\<lparr>data := mput2 t p [] (data s)\<rparr>))" for st
    by (auto intro: frame_steps frame_resetData split: option.splits)
  then have "frame t p s (fold (\<lambda>seg. loadSegment env t p seg (segmentPath (dataDir s) t p seg)) segs
      (putState t p st (case map_of (data s) t of
        None \<Rightarrow> s | Some _ \<Rightarrow> s\<lparr>data := mput2 t p [] (data s)\<rparr>)))" for segs st
    using frame_trans frame_fold frame_loadSegment by meson
  then show ?thesis
    by (auto simp: rebuildPartitionFromSegments_def Let_def split: option.split)
qed

lemma rebuild_view:
  assumes "io_ok env" and "mget2 (partitionStates s) t p = Some st"
  defines "s' \<equiv> rebuildPartitionFromSegments env t p s"
    and "ms \<equiv> segment_records (segFiles s t p) (segments st)"
  shows "cachedMessages s' t p = ms"
    and "mget2 (partitionStates s') t p = Some (st\<lparr>nextOffset := bump ms 0\<rparr>)"
    and "segFiles s' = segFiles s"
proof -
  let ?s1 = "case map_of (data s) t of None \<Rightarrow> s | Some _ \<Rightarrow> s\<lparr>data := mput2 t p [] (data s)\<rparr>"
  let ?s2 = "putState t p (st\<lparr>nextOffset := 0\<rparr>) ?s1"
  have c: "cachedMessages ?s2 t p = []"
    by (auto simp: view cachedMessages_def mget2_mput2 split: option.splits) (simp add: mget2_def)
  have g: "mget2 (partitionStates ?s2) t p = Some (st\<lparr>nextOffset := 0\<rparr>)" by (simp add: view)
  have f: "segFiles ?s2 = segFiles s" by (auto simp: view split: option.splits)
  have eq: "s' = fold (\<lambda>seg. loadSegment env t p seg (segmentPath (dataDir s) t p seg)) (segments st) ?s2"
    using assms(2) by (simp add: s'_def rebuildPartitionFromSegments_def)
  have open_ok: "openOK env = (\<lambda>_. True)" using assms(1) by (simp add: io_ok_def)
  have ff: "segFiles ?s2 t p = segFiles s t p" by (simp add: f)
  have "settings ?s2 = settings s" by (simp add: view split: option.split)
  note v = fold_loadSegment [OF open_ok g ff dataDir_settings [OF this], of "segments st"]
  show "cachedMessages s' t p = ms" using v unfolding eq by (simp add: c ms_def)
  show "mget2 (partitionStates s') t p = Some (st\<lparr>nextOffset := bump ms 0\<rparr>)"
    using v unfolding eq by (simp add: ms_def)
  show "segFiles s' = segFiles s" using v unfolding eq f by simp
qed

end
