(* ===== verification/Storage_Log.thy ===== *)
theory Storage_Log
  imports Storage_Views
begin

text \<open>
  The partition logs of \<open>storage/storage.go\<close> while the broker runs: retention only takes a prefix
  of a log, appends keep the invariant \<open>storage_ok\<close> and put one record at the end, and the size
  policy leaves at most the configured number of bytes or one segment.
\<close>

section \<open>Consecutive offsets\<close>

lemma consecutive_Nil [simp]: "consecutive n [] \<longleftrightarrow> 0 \<le> n"
  by (simp add: consecutive_def)

lemma consecutive_snoc:
  "consecutive n (ms @ [m]) \<longleftrightarrow> consecutive (n - 1) ms \<and> Offset m = n - 1"
  by (auto simp: consecutive_def nth_append less_Suc_eq algebra_simps)

lemma consecutive_appendD: "consecutive n (ms @ ms') \<Longrightarrow> consecutive n ms'"
proof -
  assume c: "consecutive n (ms @ ms')"
  have "Offset (ms' ! i) = n - int (length ms') + int i" if "i < length ms'" for i
    using c that unfolding consecutive_def
    by (auto dest!: spec [of _ "length ms + i"])
  then show ?thesis using c by (simp add: consecutive_def)
qed

lemma bump_consecutive:
  "consecutive n ms \<Longrightarrow> ms \<noteq> [] \<Longrightarrow> int64_ok n \<Longrightarrow> bump ms 0 = n"
proof (induction ms arbitrary: n rule: rev_induct)
  case (snoc m ms)
  then have c: "consecutive (n - 1) ms" and m: "Offset m = n - 1" by (simp_all add: consecutive_snoc)
  then have "0 \<le> n - 1" by (simp add: consecutive_def)
  moreover have "bump ms 0 \<le> n - 1"
  proof (cases "ms = []")
    case False
    with snoc.IH [OF c] \<open>0 \<le> n - 1\<close> snoc.prems(3) show ?thesis by (simp add: int64_ok_def)
  qed (use \<open>0 \<le> n - 1\<close> in simp)
  ultimately show ?case using m snoc.prems(3) by (simp add: bump_def iadd_id int64_ok_def)
qed simp

section \<open>Retention takes a prefix\<close>

lemma log_ok_tl:
  assumes ok: "log_ok ms st F" and segs: "segments st = seg # seg2 # segs"
  defines "ms' \<equiv> segment_records F (seg2 # segs)"
  shows "ms = file_records (F seg) @ ms'" and "ms' \<noteq> []" and "bump ms' 0 = nextOffset st"
    and "segment_records (F(seg := None)) (seg2 # segs) = ms'"
    and "log_ok ms' (st\<lparr>segments := seg2 # segs\<rparr>) (F(seg := None))"
proof -
  have act: "activeSegmentID st \<in> set (seg2 # segs)"
    using ok segs last_in_set [of "seg2 # segs"] by (auto simp: log_ok_def)
  have notin: "seg \<notin> set (seg2 # segs)" using ok segs by (auto simp: log_ok_def)
  show ms: "ms = file_records (F seg) @ ms'" using ok segs by (simp add: log_ok_def ms'_def)
  have "file_records (F (activeSegmentID st)) \<noteq> []" using ok segs by (simp add: log_ok_def)
  with act show ne: "ms' \<noteq> []" by (auto simp: ms'_def segment_records_def)
  have c: "consecutive (nextOffset st) ms'"
    using ok ms by (auto simp: log_ok_def dest: consecutive_appendD)
  with ne ok show "bump ms' 0 = nextOffset st" by (simp add: bump_consecutive log_ok_def)
  show eq: "segment_records (F(seg := None)) (seg2 # segs) = ms'"
    unfolding ms'_def using notin by (intro segment_records_cong) auto
  have "ran (F(seg := None)) \<subseteq> ran F" by (auto simp: ran_def)
  moreover have "(F(seg := None)) 0 = None"
  proof (rule ccontr)
    assume "(F(seg := None)) 0 \<noteq> None"
    then have "0 \<noteq> seg" "0 \<in> set (segments st)" using ok by (auto simp: log_ok_def split: if_splits)
    with ok segs show False by (auto simp: log_ok_def)
  qed
  ultimately have "ran (F(seg := None)) \<subseteq> ran F" "(F(seg := None)) 0 = None" by blast+
  with ok c ne eq notin act segs show "log_ok ms' (st\<lparr>segments := seg2 # segs\<rparr>) (F(seg := None))"
    by (auto simp: log_ok_def)
qed

definition trimmed :: "string \<Rightarrow> int \<Rightarrow> Storage \<Rightarrow> Storage \<Rightarrow> bool" where
  "trimmed t p s s' \<longleftrightarrow> settings s' = settings s \<and>
     (\<exists>st k j. mget2 (partitionStates s) t p = Some st \<and>
        mget2 (partitionStates s') t p = Some (st\<lparr>segments := drop j (segments st)\<rparr>) \<and>
        cachedMessages s' t p = drop k (cachedMessages s t p) \<and>
        (cachedMessages s t p \<noteq> [] \<longrightarrow> cachedMessages s' t p \<noteq> []) \<and>
        part_ok s' t p)"

lemma trimmed_refl:
  "mget2 (partitionStates s) t p = Some st \<Longrightarrow> part_ok s t p \<Longrightarrow> trimmed t p s s"
  unfolding trimmed_def by (auto intro!: exI [of _ "0::nat"])

lemma trimmed_trans [trans]: "trimmed t p s s' \<Longrightarrow> trimmed t p s' s'' \<Longrightarrow> trimmed t p s s''"
proof -
  assume a: "trimmed t p s s'" and b: "trimmed t p s' s''"
  from a obtain st k j where st: "mget2 (partitionStates s) t p = Some st"
    and a': "mget2 (partitionStates s') t p = Some (st\<lparr>segments := drop j (segments st)\<rparr>)"
      "cachedMessages s' t p = drop k (cachedMessages s t p)"
      "cachedMessages s t p \<noteq> [] \<longrightarrow> cachedMessages s' t p \<noteq> []"
    unfolding trimmed_def by blast
  from b obtain st' k' j' where "mget2 (partitionStates s') t p = Some st'"
      "mget2 (partitionStates s'') t p = Some (st'\<lparr>segments := drop j' (segments st')\<rparr>)"
      "cachedMessages s'' t p = drop k' (cachedMessages s' t p)"
      "cachedMessages s' t p \<noteq> [] \<longrightarrow> cachedMessages s'' t p \<noteq> []" and ok: "part_ok s'' t p"
    unfolding trimmed_def by blast
  with a' have "mget2 (partitionStates s'') t p = Some (st\<lparr>segments := drop (j' + j) (segments st)\<rparr>)"
    "cachedMessages s'' t p = drop (k' + k) (cachedMessages s t p)"
    "cachedMessages s t p \<noteq> [] \<longrightarrow> cachedMessages s'' t p \<noteq> []" by auto
  with st ok a b show ?thesis unfolding trimmed_def by auto
qed

lemma trimmed_part_ok: "trimmed t p s s' \<Longrightarrow> part_ok s' t p"
  by (auto simp: trimmed_def)

lemma dropSegment_trimmed:
  assumes "part_ok s t p" and "mget2 (partitionStates s) t p = Some st"
    and "segments st = seg # seg2 # segs" and "segFiles s t p seg = None"
  shows "trimmed t p s (dropSegment t p s)"
    and "mget2 (partitionStates (dropSegment t p s)) t p = Some (st\<lparr>segments := seg2 # segs\<rparr>)"
proof -
  have ok: "log_ok (cachedMessages s t p) st (segFiles s t p)"
    using assms by (simp add: part_ok_def)
  note tl = log_ok_tl [OF ok assms(3)]
  have eq: "dropSegment t p s = putState t p (st\<lparr>segments := seg2 # segs\<rparr>) s"
    using assms by (simp add: dropSegment_def)
  show "mget2 (partitionStates (dropSegment t p s)) t p = Some (st\<lparr>segments := seg2 # segs\<rparr>)"
    by (simp add: eq view)
  have F: "(segFiles s t p)(seg := None) = segFiles s t p" using assms(4) by (auto simp: fun_eq_iff)
  have c: "cachedMessages s t p = segment_records (segFiles s t p) (seg2 # segs)"
    using tl(1) assms(4) by (simp add: file_records_def)
  have "part_ok (dropSegment t p s) t p"
    using tl(5) unfolding F by (simp add: eq part_ok_def view c)
  then show "trimmed t p s (dropSegment t p s)"
    using assms(2,3) unfolding trimmed_def
    by (intro conjI exI [of _ st] exI [of _ "0::nat"] exI [of _ "1::nat"])
       (simp_all add: eq view)
qed

lemma frame_delete:
  assumes "placed t p"
  shows "frame t p s (deleteSegment env t p seg s)"
proof -
  have "frame t p s (s\<lparr>disk := mdel (segmentPath (dataDir s) t p seg) (disk s)\<rparr>)"
    using assms by (intro frame_disk [where seg = seg]) (auto simp: mwf_mdel map_of_mdel)
  then have "frame t p s (dropSegment t p
      (if removeOK env (segmentPath (dataDir s) t p seg) then s\<lparr>disk := mdel (segmentPath (dataDir s) t p seg) (disk s)\<rparr> else s))"
    by (auto simp: dropSegment_def intro: frame_steps split: option.splits)
  from frame_trans [OF this frame_rebuild] show ?thesis by (simp add: deleteSegment_def Let_def)
qed

lemma settings_delete: "settings (deleteSegment env t p seg s) = settings s"
  using frame_rebuild [of t p _ env]
  by (simp add: deleteSegment_def dropSegment_def frame_def Let_def view split: option.split)

lemma deleteSegment_trimmed:
  assumes io: "io_ok env" and p: "0 \<le> p" and "part_ok s t p"
    and st: "mget2 (partitionStates s) t p = Some st" and segs: "segments st = seg # seg2 # segs"
  shows "trimmed t p s (deleteSegment env t p seg s)"
    and "mget2 (partitionStates (deleteSegment env t p seg s)) t p = Some (st\<lparr>segments := seg2 # segs\<rparr>)"
    and "segFiles (deleteSegment env t p seg s) t p = (segFiles s t p)(seg := None)"
proof -
  let ?d = "deleteSegment env t p seg s"
  let ?s1 = "s\<lparr>disk := mdel (segmentPath (dataDir s) t p seg) (disk s)\<rparr>"
  let ?st = "st\<lparr>segments := seg2 # segs\<rparr>"
  have ok: "log_ok (cachedMessages s t p) st (segFiles s t p)"
    using assms by (simp add: part_ok_def)
  define R where "R = segment_records (segFiles s t p) (seg2 # segs)"
  note tl = log_ok_tl [OF ok segs, folded R_def]
  have eq: "?d = rebuildPartitionFromSegments env t p (putState t p ?st ?s1)"
    using io st segs by (simp add: deleteSegment_def dropSegment_def io_ok_def)
  have F: "segFiles (putState t p ?st ?s1) t p = (segFiles s t p)(seg := None)"
    using p by (auto simp: view segFiles_def map_of_mdel fun_eq_iff)
  have g: "mget2 (partitionStates (putState t p ?st ?s1)) t p = Some ?st" by (simp add: view)
  have sg: "segments ?st = seg2 # segs" by simp
  note v = rebuild_view [OF io g, folded eq, unfolded F sg tl(4)]
  show "mget2 (partitionStates ?d) t p = Some ?st" using v(2) tl(3) by simp
  show "segFiles ?d t p = (segFiles s t p)(seg := None)" using v(3) F by simp
  then have "part_ok ?d t p" using v tl by (simp add: part_ok_def)
  moreover have "cachedMessages ?d t p = drop (length (file_records (segFiles s t p seg))) (cachedMessages s t p)"
    using v(1) tl(1) by simp
  moreover have "cachedMessages ?d t p \<noteq> []" using v(1) tl(2) by simp
  moreover have "mget2 (partitionStates ?d) t p = Some (st\<lparr>segments := drop 1 (segments st)\<rparr>)"
    using v(2) tl(3) segs by simp
  ultimately show "trimmed t p s ?d"
    using st settings_delete unfolding trimmed_def by blast
qed

lemma ageLoop_trimmed:
  "io_ok env \<Longrightarrow> 0 \<le> p \<Longrightarrow> part_ok s t p \<Longrightarrow> mget2 (partitionStates s) t p = Some st
    \<Longrightarrow> segments st = segs \<Longrightarrow> trimmed t p s (ageLoop env t p cutoff segs s)"
proof (induction env t p cutoff segs s arbitrary: st rule: ageLoop.induct)
  case (1 env t p cutoff seg seg2 segs s)
  show ?case
  proof (cases "map_of (disk s) (segmentPath (dataDir s) t p seg)")
    case None
    then have "segFiles s t p seg = None" by (simp add: segFiles_def)
    note d = dropSegment_trimmed [OF "1.prems"(3-5) this]
    have none: "statFile env (segmentPath (dataDir s) t p seg) (disk s) = None"
      using None by (simp add: statFile_ok [OF "1.prems"(1)])
    from "1.IH"(1) [OF none "1.prems"(1,2) trimmed_part_ok [OF d(1)] d(2)] none d(1) show ?thesis
      by (auto intro: trimmed_trans)
  next
    case (Some f)
    note d = deleteSegment_trimmed [OF "1.prems"]
    have some: "statFile env (segmentPath (dataDir s) t p seg) (disk s) = Some f"
      using Some by (simp add: statFile_ok [OF "1.prems"(1)])
    from "1.IH"(2) [OF some _ "1.prems"(1,2) trimmed_part_ok [OF d(1)] d(2)] some d(1) show ?thesis
      by (auto intro: trimmed_trans trimmed_refl "1.prems")
  qed
qed (auto intro: trimmed_refl)

lemma sizeLoop_trimmed:
  "io_ok env \<Longrightarrow> 0 \<le> p \<Longrightarrow> part_ok s t p \<Longrightarrow> mget2 (partitionStates s) t p = Some st
    \<Longrightarrow> segments st = segs \<Longrightarrow> trimmed t p s (sizeLoop env t p tot segs s)"
proof (induction env t p tot segs s arbitrary: st rule: sizeLoop.induct)
  case (1 env t p tot seg seg2 segs s)
  note d = deleteSegment_trimmed [OF "1.prems"]
  from "1.IH" [OF _ "1.prems"(1,2) trimmed_part_ok [OF d(1)] d(2)] d(1) show ?case
    by (auto intro: trimmed_trans trimmed_refl "1.prems")
qed (auto intro: trimmed_refl)

lemma retention_trimmed:
  assumes "io_ok env" "0 \<le> p" "part_ok s t p" "mget2 (partitionStates s) t p = Some st"
  shows "trimmed t p s (applySizeRetention env t p (applyAgeRetention env t p s))"
proof -
  have a: "trimmed t p s (applyAgeRetention env t p s)"
    using assms by (auto simp: applyAgeRetention_def intro: trimmed_refl ageLoop_trimmed)
  then obtain st' where st': "mget2 (partitionStates (applyAgeRetention env t p s)) t p = Some st'"
    by (auto simp: trimmed_def)
  have "trimmed t p (applyAgeRetention env t p s) (applySizeRetention env t p (applyAgeRetention env t p s))"
    using assms st' trimmed_part_ok [OF a]
    by (auto simp: applySizeRetention_def Let_def intro: trimmed_refl sizeLoop_trimmed)
  with a show ?thesis by (rule trimmed_trans)
qed

lemma frame_dropSegment: "frame t p s (dropSegment t p s)"
  by (auto simp: dropSegment_def frame_putState split: option.splits)

lemma frame_ageLoop: "placed t p \<Longrightarrow> frame t p s (ageLoop env t p cutoff segs s)"
  by (induction env t p cutoff segs s rule: ageLoop.induct)
     (auto intro: frame_trans frame_dropSegment frame_delete split: option.splits)

lemma frame_sizeLoop: "placed t p \<Longrightarrow> frame t p s (sizeLoop env t p tot segs s)"
  by (induction env t p tot segs s rule: sizeLoop.induct) (auto intro: frame_trans frame_delete)

lemma frame_retention:
  "placed t p \<Longrightarrow> frame t p s (applySizeRetention env t p (applyAgeRetention env t p s))"
proof -
  assume p: "placed t p"
  have "frame t p s (applyAgeRetention env t p s)" for s
    by (auto simp: applyAgeRetention_def frame_ageLoop p split: option.splits)
  moreover have "frame t p s (applySizeRetention env t p s)" for s
    by (auto simp: applySizeRetention_def frame_sizeLoop p Let_def split: option.splits)
  ultimately show ?thesis by (rule frame_trans)
qed

text \<open>
  What a whole pass of retention does to a storage: every partition loses a prefix of its
  messages, keeps its offsets and its last message.
\<close>

definition retained :: "Storage \<Rightarrow> Storage \<Rightarrow> bool" where
  "retained s s' \<longleftrightarrow> settings s' = settings s \<and>
     (\<forall>t p. plain_topic t \<longrightarrow> 0 \<le> p \<longrightarrow>
        nextAt s' t p = nextAt s t p \<and> activeAt s' t p = activeAt s t p \<and>
        (\<exists>k. cachedMessages s' t p = drop k (cachedMessages s t p)) \<and>
        (cachedMessages s t p \<noteq> [] \<longrightarrow> cachedMessages s' t p \<noteq> []))"

lemma retained_refl [simp]: "retained s s"
  unfolding retained_def by (auto intro: exI [of _ "0::nat"])

lemma ex_drop_trans: "\<exists>k. ys = drop k xs \<Longrightarrow> \<exists>k. zs = drop k ys \<Longrightarrow> \<exists>k. zs = drop k xs"
  by auto

lemma retained_trans [trans]: "retained s s' \<Longrightarrow> retained s' s'' \<Longrightarrow> retained s s''"
  unfolding retained_def by simp (blast intro: ex_drop_trans)

lemma frame_part_ok:
  "frame t p s s' \<Longrightarrow> (t', p') \<noteq> (t, p) \<Longrightarrow> plain_topic t' \<Longrightarrow> 0 \<le> p' \<Longrightarrow> part_ok s' t' p' \<longleftrightarrow> part_ok s t' p'"
proof -
  assume a: "frame t p s s'" "(t', p') \<noteq> (t, p)" "plain_topic t'" "0 \<le> p'"
  then have "cachedMessages s' t' p' = cachedMessages s t' p'"
    "mget2 (partitionStates s') t' p' = mget2 (partitionStates s) t' p'"
    "segFiles s' t' p' = segFiles s t' p'" unfolding frame_def by auto
  then show ?thesis by (simp add: part_ok_def split: option.split)
qed

lemma frame_storage_ok:
  assumes f: "frame t p s s'" and s: "storage_ok s" and p: "placed t p"
    and own: "plain_topic t \<Longrightarrow> part_ok s' t p"
  shows "storage_ok s'"
  unfolding storage_ok_def
proof (intro conjI allI impI)
  show "mwf2 (partitionStates s')" "mwf (disk s')" using f s by (auto simp: frame_def storage_ok_def)
  show "placed t' p'" if "mget2 (partitionStates s') t' p' \<noteq> None" for t' p'
    using f s p that by (cases "(t', p') = (t, p)") (auto simp: frame_def storage_ok_def)
  show "part_ok s' t' p'" if "plain_topic t'" "0 \<le> p'" for t' p'
    using frame_part_ok [OF f _ that] own s that
    by (cases "(t', p') = (t, p)") (auto simp: storage_ok_def)
qed

lemma trimmed_retained:
  assumes f: "frame t p s s'" and own: "plain_topic t \<Longrightarrow> trimmed t p s s'"
  shows "retained s s'"
  unfolding retained_def
proof (intro conjI allI impI)
  show "settings s' = settings s" using f by (simp add: frame_def)
  fix t' p' assume pl: "plain_topic t'" "0 \<le> (p' :: int)"
  have "(nextAt s' t' p' = nextAt s t' p' \<and> activeAt s' t' p' = activeAt s t' p') \<and>
        (\<exists>k. cachedMessages s' t' p' = drop k (cachedMessages s t' p')) \<and>
        (cachedMessages s t' p' \<noteq> [] \<longrightarrow> cachedMessages s' t' p' \<noteq> [])"
  proof (cases "(t', p') = (t, p)")
    case True
    with own pl show ?thesis by (auto simp: trimmed_def nextAt_def activeAt_def)
  next
    case False
    with f show ?thesis by (auto simp: frame_def nextAt_def activeAt_def intro: exI [of _ "0::nat"])
  qed
  then show "nextAt s' t' p' = nextAt s t' p'" "activeAt s' t' p' = activeAt s t' p'"
    "\<exists>k. cachedMessages s' t' p' = drop k (cachedMessages s t' p')"
    "cachedMessages s t' p' \<noteq> [] \<Longrightarrow> cachedMessages s' t' p' \<noteq> []" by auto
qed

lemma retention_pass:
  fixes t :: string
  assumes io: "io_ok env" and s: "storage_ok s" and p: "placed t p"
  defines "s' \<equiv> applySizeRetention env t p (applyAgeRetention env t p s)"
  shows "storage_ok s' \<and> retained s s'"
proof (cases "mget2 (partitionStates s) t p")
  case None
  then have "s' = s" by (simp add: s'_def applyAgeRetention_def applySizeRetention_def)
  with s show ?thesis by simp
next
  case (Some st)
  have f: "frame t p s s'" unfolding s'_def using p by (rule frame_retention)
  have "trimmed t p s s'" if "plain_topic t"
    unfolding s'_def using io p s that Some by (auto simp: storage_ok_def placed_def intro!: retention_trimmed)
  then show ?thesis
    using frame_storage_ok [OF f s p] trimmed_retained [OF f] trimmed_part_ok by blast
qed

lemma enforceRetention_ok:
  assumes io: "io_ok env" and s: "storage_ok s"
  shows "storage_ok (enforceRetentionLocked env s) \<and> retained s (enforceRetentionLocked env s)"
proof -
  let ?f = "\<lambda>(t, p) s. applySizeRetention env t p (applyAgeRetention env t p s)"
  have "\<forall>(t, p) \<in> set ks. placed t p \<Longrightarrow> storage_ok s \<Longrightarrow> storage_ok (fold ?f ks s) \<and> retained s (fold ?f ks s)" for ks
  proof (induction ks arbitrary: s)
    case (Cons k ks)
    obtain t p where k: "k = (t, p)" by force
    with Cons.prems have "placed t p" by simp
    note r = retention_pass [OF io Cons.prems(2) this]
    from r Cons.prems(1) have "storage_ok (fold ?f ks (?f k s)) \<and> retained (?f k s) (fold ?f ks (?f k s))"
      by (intro Cons.IH) (simp_all add: k)
    with r show ?case by (auto simp: k intro: retained_trans)
  qed simp
  moreover have "\<forall>(t, p) \<in> set (mkeys2 (partitionStates s)). placed t p"
    using s mkeys2_mget2 by (fastforce simp: storage_ok_def)
  ultimately show ?thesis using s unfolding enforceRetentionLocked_def by blast
qed

section \<open>Appending one record\<close>

lemma length_Itoa: "int64_ok i \<Longrightarrow> length (Itoa i) \<le> 20"
proof -
  assume "int64_ok i"
  then have "nat (- i) < 10 ^ 19" "nat i < 10 ^ 19" by (auto simp: int64_ok_def)
  then have "length (digits_base 10 (nat (- i))) \<le> 19" "length (digits_base 10 (nat i)) \<le> 19"
    by (auto intro: length_digits_base)
  then show ?thesis by (simp add: Itoa_def)
qed

lemma log_line_fits:
  assumes "value_ok v" and "int64_ok off" and "int64_ok ts"
  shows "newline \<notin> set (log_line off ts v)" and "length (log_line off ts v) \<le> max_line"
    and "dropCR (log_line off ts v) = log_line off ts v"
proof -
  have "newline \<notin> set (fmt_08x n)" for n
    using fmt_08x_chars [of newline n] of_char_digit_char
    by (auto simp: newline_def dest!: arg_cong [of _ _ "of_char :: char \<Rightarrow> nat"] split: if_splits)
  moreover have "newline \<notin> set (Itoa i)" for i
    by (rule Itoa_not_in) (simp_all add: newline_def is_digit_def)
  ultimately show "newline \<notin> set (log_line off ts v)"
    using assms(1) by (auto simp: log_line_def value_ok_def newline_def)
  have "unat (ChecksumIEEE v) < 4294967296" using unsigned_less [of "ChecksumIEEE v"] by simp
  then show "length (log_line off ts v) \<le> max_line"
    using assms(1) length_Itoa [OF assms(2)] length_Itoa [OF assms(3)]
      length_fmt_08x [of "unat (ChecksumIEEE v)"]
    by (simp add: log_line_def value_ok_def)
  show "dropCR (log_line off ts v) = log_line off ts v"
    using assms(1) by (auto simp: dropCR_def log_line_def value_ok_def carriage_return_def)
qed

lemma file_records_append:
  assumes "\<And>f. fo = Some f \<Longrightarrow> lines_fit (content f)"
    and "value_ok v" and "int64_ok off" and "int64_ok ts"
    and "f' = \<lparr>content = (case fo of None \<Rightarrow> [] | Some f \<Rightarrow> content f) @ formatLogLine off ts v, modTime = mt\<rparr>"
  shows "file_records (Some f') = file_records fo @ [\<lparr>Offset = off, Value = v\<rparr>]"
    and "lines_fit (content f')"
proof -
  define old where "old = (case fo of None \<Rightarrow> [] | Some f \<Rightarrow> content f)"
  have fit: "lines_fit old" using assms(1) by (simp add: old_def split: option.split)
  have rec: "file_records fo = records_of_lines (scan_lines old)"
    by (simp add: file_records_def old_def scan_lines_def split: option.split)
  note l = log_line_fits [OF assms(2-4)]
  have c: "content f' = old @ log_line off ts v @ [newline]"
    using assms(5) by (simp add: old_def formatLogLine_line)
  show "file_records (Some f') = file_records fo @ [\<lparr>Offset = off, Value = v\<rparr>]"
    using parseLogLine_log_line [OF assms(3,4)]
    by (simp add: file_records_def [of "Some f'"] c scan_lines_snoc [OF fit l(1,2)] l(3) rec msg_of_line_def)
  show "lines_fit (content f')" unfolding c using fit l(1,2) by (rule lines_fit_snoc)
qed

lemma log_ok_cong:
  "nextOffset st' = nextOffset st \<Longrightarrow> segments st' = segments st \<Longrightarrow> activeSegmentID st' = activeSegmentID st
    \<Longrightarrow> log_ok ms st' F \<longleftrightarrow> log_ok ms st F"
  by (simp add: log_ok_def)

text \<open>The state after a possible rotation, as the invariant sees it.\<close>

definition rotated :: "partitionState \<Rightarrow> partitionState \<Rightarrow> (int \<Rightarrow> diskFile option) \<Rightarrow> bool" where
  "rotated st st1 F \<longleftrightarrow> nextOffset st1 = nextOffset st \<and>
     (st1 = st \<or>
      activeSegmentID st1 = activeSegmentID st + 1 \<and>
      segments st1 = segments st @ [activeSegmentID st + 1] \<and> F (activeSegmentID st) \<noteq> None)"

lemma sorted_last_less:
  "sorted_wrt (<) (xs :: int list) \<Longrightarrow> x \<in> set xs \<Longrightarrow> x \<le> last xs"
  by (induction xs) (auto intro: less_imp_le)

lemma log_ok_segments_nonneg: "log_ok ms st F \<Longrightarrow> seg \<in> set (segments st) \<Longrightarrow> 0 \<le> seg"
  by (cases "segments st") (fastforce simp: log_ok_def)+

lemma log_ok_active: "log_ok ms st F \<Longrightarrow> 0 \<le> activeSegmentID st"
  using log_ok_segments_nonneg last_in_set by (metis log_ok_def)

lemma log_ok_first:
  assumes ok: "log_ok ms st F" and "activeSegmentID st = 0"
  shows "segments st = [0]"
proof -
  obtain seg segs where segs: "segments st = seg # segs" using ok by (cases "segments st") (auto simp: log_ok_def)
  have "last (seg # segs) = 0" "0 \<le> seg" "sorted_wrt (<) (seg # segs)"
    using ok assms(2) unfolding log_ok_def segs by simp_all
  moreover from this have "segs = []"
    using last_in_set [of segs] by (cases "segs = []") auto
  ultimately show ?thesis using segs by simp
qed

lemma rotate_rotated:
  assumes "log_ok ms st (segFiles s t p)" and "nextOffset st < 2 ^ 63 - 1"
  shows "rotated st (rotate env t p n s st) (segFiles s t p)"
proof -
  have "iadd (activeSegmentID st) 1 = activeSegmentID st + 1"
    using assms log_ok_active [OF assms(1)] by (intro iadd_id) (simp add: log_ok_def int64_ok_def)
  then show ?thesis
    by (auto simp: rotated_def rotate_def shouldRotate_def statFile_def segFiles_def Let_def split: option.splits if_splits)
qed

lemma log_ok_append:
  assumes ok: "log_ok ms st F" and rot: "rotated st st1 F"
    and bnd: "nextOffset st < 2 ^ 63 - 1"
    and v: "value_ok v" and ts: "int64_ok ts"
    and st2: "nextOffset st2 = nextOffset st + 1" "segments st2 = segments st1"
      "activeSegmentID st2 = activeSegmentID st1"
    and f': "f' = \<lparr>content = (case F (activeSegmentID st1) of None \<Rightarrow> [] | Some f \<Rightarrow> content f) @
      formatLogLine (nextOffset st) ts v, modTime = mt\<rparr>"
  shows "log_ok (ms @ [\<lparr>Offset = nextOffset st, Value = v\<rparr>]) st2 (F(activeSegmentID st1 \<mapsto> f'))"
proof -
  let ?m = "\<lparr>Offset = nextOffset st, Value = v\<rparr>" and ?a = "activeSegmentID st1"
  let ?F = "F(?a \<mapsto> f')"
  have fit: "\<And>f. F ?a = Some f \<Longrightarrow> lines_fit (content f)" and i: "int64_ok (nextOffset st)"
    using ok by (auto simp: log_ok_def intro: ranI)
  note rec = file_records_append [OF fit v i ts f']
  obtain pre where pre: "segments st1 = pre @ [?a]" and
    old: "segment_records F pre @ file_records (F ?a) = ms" and
    srt: "sorted_wrt (<) (segments st1)" and sub: "set (segments st) \<subseteq> set (segments st1)"
    and hd: "0 \<le> hd (segments st1)"
  proof (cases "st1 = st")
    case True
    with ok obtain pre where "segments st1 = pre @ [?a]"
      by (simp add: log_ok_def) (metis append_butlast_last_id)
    with True ok show thesis by (intro that [of pre]) (auto simp: log_ok_def)
  next
    case False
    with rot have a: "?a = activeSegmentID st + 1" and sg: "segments st1 = segments st @ [?a]"
      by (auto simp: rotated_def)
    have le: "\<forall>seg \<in> set (segments st). seg < ?a"
      using ok sorted_last_less by (fastforce simp: log_ok_def a)
    then have "F ?a = None" using ok by (auto simp: log_ok_def)
    with ok sg le show thesis
      by (intro that [of "segments st"]) (auto simp: log_ok_def file_records_def sorted_wrt_append)
  qed
  have "?a \<notin> set pre" using srt pre by (auto simp: sorted_wrt_append)
  then have "segment_records ?F pre = segment_records F pre"
    by (intro segment_records_cong) auto
  with rec old have new: "segment_records ?F (segments st1) = ms @ [?m]" by (auto simp: pre)
  have "ran ?F \<subseteq> insert f' (ran F)" by (auto simp: ran_def)
  then have lf: "\<forall>f \<in> ran ?F. lines_fit (content f) \<and> file_records (Some f) \<noteq> []"
    using ok rec by (auto simp: log_ok_def)
  have act: "?a \<le> nextOffset st + 1" using ok rot by (auto simp: log_ok_def rotated_def)
  have nx: "0 \<le> nextOffset st" using ok by (auto simp: log_ok_def consecutive_def)
  have zero: "nextOffset st = int (length ms)" if "?F 0 \<noteq> None"
  proof (cases "F 0 = None")
    case True
    with that have "?a = 0" by (simp split: if_splits)
    then have "?a \<noteq> activeSegmentID st + 1" using log_ok_active [OF ok] by simp
    with rot have "st1 = st" by (simp add: rotated_def)
    with \<open>?a = 0\<close> have "segments st = [0]" using log_ok_first [OF ok] by simp
    with ok True have "ms = []" by (simp add: log_ok_def file_records_def)
    with ok show ?thesis by (simp add: log_ok_def)
  qed (use ok in \<open>simp add: log_ok_def\<close>)
  show ?thesis
    unfolding log_ok_def st2 using ok new srt sub hd lf act nx bnd rec(1) zero
    by (auto simp: log_ok_def pre consecutive_snoc int64_ok_def)
qed

lemma applyFsyncPolicy_keeps:
  "nextOffset (fst (applyFsyncPolicy env path s st n)) = nextOffset st"
  "segments (fst (applyFsyncPolicy env path s st n)) = segments st"
  "activeSegmentID (fst (applyFsyncPolicy env path s st n)) = activeSegmentID st"
  "io_ok env \<Longrightarrow> snd (applyFsyncPolicy env path s st n)"
  by (simp_all add: applyFsyncPolicy_def io_ok_def Let_def)

lemma openAppend_ok: "io_ok env \<Longrightarrow> \<exists>fs'. openAppend env path fs = Some fs'"
  by (simp add: openAppend_def io_ok_def)

text \<open>
  \<open>append_step env t p m s s'\<close>: between \<open>s\<close> and \<open>s'\<close>, the record \<open>m\<close> was put at the end of the
  partition and nothing else happened to any log.
\<close>

definition append_step :: "string \<Rightarrow> int \<Rightarrow> Message \<Rightarrow> Storage \<Rightarrow> Storage \<Rightarrow> bool" where
  "append_step t p m s s' \<longleftrightarrow>
     frame t p s s' \<and> storage_ok s' \<and>
     cachedMessages s' t p = cachedMessages s t p @ [m] \<and>
     Offset m = nextAt s t p \<and> nextAt s' t p = nextAt s t p + 1 \<and>
     activeAt s t p \<le> activeAt s' t p \<and> activeAt s' t p \<le> activeAt s t p + 1"

lemma ensure_part_ok:
  assumes "part_ok s t p" and "ensurePartitionState env t p s = (s1, st)"
  shows "log_ok (cachedMessages s1 t p) st (segFiles s1 t p)"
    and "nextAt s t p = nextOffset st" and "activeAt s t p = activeSegmentID st"
proof -
  have "log_ok (cachedMessages s1 t p) st (segFiles s1 t p) \<and> nextAt s t p = nextOffset st
      \<and> activeAt s t p = activeSegmentID st"
    using assms(1) ensure_state [OF assms(2)]
    by (auto simp: part_ok_def log_ok_def nextAt_def activeAt_def file_records_def int64_ok_def)
  then show "log_ok (cachedMessages s1 t p) st (segFiles s1 t p)"
    and "nextAt s t p = nextOffset st" and "activeAt s t p = activeSegmentID st" by auto
qed

definition append_pre :: "io \<Rightarrow> string \<Rightarrow> int \<Rightarrow> string \<Rightarrow> Storage \<Rightarrow> bool" where
  "append_pre env t p v s \<longleftrightarrow> io_ok env \<and> storage_ok s \<and> plain_topic t \<and> 0 \<le> p \<and> value_ok v \<and>
     nextAt s t p < 2 ^ 63 - 1"

lemma append_core:
  assumes pre: "append_pre env t p v s" and ens: "ensurePartitionState env t p s = (s1, st)"
    and st1: "st1 = rotate env t p n s1 st" and path: "path = segmentPath (dataDir s) t p (activeSegmentID st1)"
    and op: "openAppend env path (disk s1) = Some fs"
    and wr: "writeString env path (formatLogLine (nextOffset st) (time_UnixMilli (now env)) v) fs = (fs', w)"
    and F8: "segFiles s8 t p = segFiles (s1\<lparr>disk := fs'\<rparr>) t p" and fr: "frame t p (s1\<lparr>disk := fs'\<rparr>) s8"
    and c8: "cachedMessages s8 t p = cachedMessages s1 t p @ [\<lparr>Offset = nextOffset st, Value = v\<rparr>]"
    and st8: "mget2 (partitionStates s8) t p = Some st8" "nextOffset st8 = nextOffset st + 1"
      "segments st8 = segments st1" "activeSegmentID st8 = activeSegmentID st1"
  shows "append_step t p \<lparr>Offset = nextOffset st, Value = v\<rparr> s s8"
proof -
  have p: "placed t p" and io: "io_ok env" and s: "storage_ok s" and v: "value_ok v"
    using pre by (auto simp: append_pre_def plain_placed)
  have ok: "part_ok s t p" using pre by (auto simp: append_pre_def storage_ok_def)
  have dir: "dataDir s = dataDir s1" using ensure_state [OF ens] by simp
  note e = ensure_part_ok [OF ok ens]
  have bnd: "nextOffset st < 2 ^ 63 - 1"
    using pre e by (auto simp: append_pre_def)
  have rot: "rotated st st1 (segFiles s1 t p)"
    unfolding st1 using e(1) bnd by (rule rotate_rotated)
  note file' = appendLine_ok [OF io op wr]
  define f' where "f' = \<lparr>content = (case segFiles s1 t p (activeSegmentID st1) of None \<Rightarrow> [] | Some f \<Rightarrow> content f)
      @ formatLogLine (nextOffset st) (time_UnixMilli (now env)) v, modTime = now env\<rparr>"
  have F: "segFiles s8 t p = (segFiles s1 t p)(activeSegmentID st1 \<mapsto> f')"
    unfolding F8 using file' p by (auto simp: segFiles_def fun_eq_iff path dir segmentPath_inj f'_def placed_def)
  have ts: "int64_ok (time_UnixMilli (now env))"
    using io by (auto simp: io_ok_def int64_ok_def time_UnixMilli_def)
  have ok8: "part_ok s8 t p"
    using log_ok_append [OF e(1) rot bnd v ts st8(2-4) f'_def] by (simp add: part_ok_def st8(1) c8 F)
  have "frame t p s1 (s1\<lparr>disk := fs'\<rparr>)"
  proof (rule frame_disk [OF _ _ p])
    show "mwf (disk s1) \<Longrightarrow> mwf fs'" using mwf_openAppend [OF _ op] mwf_writeString by (metis wr fst_conv)
    show "map_of fs' q = map_of (disk s1) q" if "q \<noteq> segmentPath (dataDir s1) t p (activeSegmentID st1)" for q
      using file' that by (simp add: path dir)
  qed
  then have "frame t p s s8"
    using fr frame_ensure [of t p s env] frame_trans by (metis ens fst_conv)
  moreover from this have "storage_ok s8" using s p ok8 by (rule frame_storage_ok)
  ultimately show ?thesis
    using e rot st8 c8 ensure_state [OF ens]
    by (auto simp: append_step_def nextAt_def activeAt_def rotated_def)
qed

lemma ProduceToPartition_step:
  assumes pre: "append_pre env t p v s"
  obtains s8 where "ProduceToPartition env t p v s = (enforceRetentionLocked env s8, p, nextAt s t p)"
    and "append_step t p \<lparr>Offset = nextAt s t p, Value = v\<rparr> s s8"
proof -
  have io: "io_ok env" and pl: "plain_topic t" "0 \<le> p" using pre by (auto simp: append_pre_def)
  obtain s1 st where ens: "ensurePartitionState env t p s = (s1, st)" by force
  have ok: "part_ok s t p" using pre by (auto simp: append_pre_def storage_ok_def)
  note e = ensure_part_ok [OF ok ens]
  let ?line = "formatLogLine (nextOffset st) (time_UnixMilli (now env)) v"
  define st1 where "st1 = rotate env t p (int (length ?line)) s1 st"
  define path where "path = segmentPath (dataDir s) t p (activeSegmentID st1)"
  obtain fs where op: "openAppend env path (disk s1) = Some fs" using openAppend_ok [OF io] by blast
  obtain fs' w where wr: "writeString env path ?line fs = (fs', w)" by force
  obtain st2 sy where sy: "applyFsyncPolicy env path ((putState t p st1 s1)\<lparr>disk := fs'\<rparr>) st1
      (int (length ?line)) = (st2, sy)" by force
  note keep = applyFsyncPolicy_keeps(1-3) [of env path "(putState t p st1 s1)\<lparr>disk := fs'\<rparr>" st1
      "int (length ?line)", unfolded sy fst_conv]
  let ?m = "\<lparr>Offset = nextOffset st, Value = v\<rparr>" and ?a = "activeSegmentID st2"
  let ?s3 = "putState t p st1 s1\<lparr>disk := fs'\<rparr>"
  let ?s6 = "appendTimestampIndex env t p (time_UnixMilli (now env)) ?a (nextOffset st)
      (appendOffsetIndex env t p (nextOffset st) ?a
        (writeLocalReplicas env t p ?a ?line (putState t p st2 ?s3)))"
  let ?s8 = "putState t p (st2\<lparr>nextOffset := iadd (nextOffset st2) 1\<rparr>) (cacheMessage t p ?m ?s6)"
  have "w" using appendLine_ok [OF io op wr] by simp
  then have "ProduceToPartition env t p v s = (enforceRetentionLocked env ?s8, p, nextOffset st)"
    using io ens op wr sy
    by (simp add: ProduceToPartition_def Let_def io_ok_def view flip: st1_def path_def)
  moreover have "append_step t p ?m s ?s8"
  proof (rule append_core [OF pre ens st1_def path_def op wr])
    have eq: "?s3 = putState t p st1 (s1\<lparr>disk := fs'\<rparr>)" by (simp add: putState_def)
    show "frame t p (s1\<lparr>disk := fs'\<rparr>) ?s8" unfolding eq by (intro frame_steps frame_refl)
    show "segFiles ?s8 t p = segFiles (s1\<lparr>disk := fs'\<rparr>) t p"
      using pl by (simp add: view eq)
    show "mget2 (partitionStates ?s8) t p = Some (st2\<lparr>nextOffset := iadd (nextOffset st2) 1\<rparr>)"
      by (simp add: view)
    show "cachedMessages ?s8 t p = cachedMessages s1 t p @ [?m]" by (simp add: view)
    have "nextOffset st1 = nextOffset st" by (simp add: st1_def rotate_def Let_def)
    then show "nextOffset (st2\<lparr>nextOffset := iadd (nextOffset st2) 1\<rparr>) = nextOffset st + 1"
      using keep pre e(1,2) by (simp add: iadd_id append_pre_def int64_ok_def log_ok_def)
  qed (use keep in simp_all)
  ultimately show thesis using that e(2) by simp
qed

lemma AppendReplicated_step:
  assumes pre: "append_pre env t p v s"
  obtains s8 where "AppendReplicated env t p (nextAt s t p) v s = (enforceRetentionLocked env s8, None)"
    and "append_step t p \<lparr>Offset = nextAt s t p, Value = v\<rparr> s s8"
proof -
  have io: "io_ok env" and pl: "plain_topic t" "0 \<le> p" using pre by (auto simp: append_pre_def)
  obtain s1 st where ens: "ensurePartitionState env t p s = (s1, st)" by force
  have ok: "part_ok s t p" using pre by (auto simp: append_pre_def storage_ok_def)
  note e = ensure_part_ok [OF ok ens]
  let ?line = "formatLogLine (nextOffset st) (time_UnixMilli (now env)) v"
  define st1 where "st1 = rotate env t p (int (length ?line)) s1 st"
  define path where "path = segmentPath (dataDir s) t p (activeSegmentID st1)"
  obtain fs where op: "openAppend env path (disk s1) = Some fs" using openAppend_ok [OF io] by blast
  obtain fs' w where wr: "writeString env path ?line fs = (fs', w)" by force
  let ?s3 = "putState t p st1 s1\<lparr>disk := fs'\<rparr>"
  obtain st2 sy where sy: "applyFsyncPolicy env path ?s3 st1 (int (length ?line)) = (st2, sy)" by force
  note keep = applyFsyncPolicy_keeps [of env path ?s3 st1 "int (length ?line)", unfolded sy fst_conv snd_conv]
  let ?m = "\<lparr>Offset = nextOffset st, Value = v\<rparr>" and ?a = "activeSegmentID st2"
  let ?s6 = "appendTimestampIndex env t p (time_UnixMilli (now env)) ?a (nextOffset st)
      (appendOffsetIndex env t p (nextOffset st) ?a (putState t p st2 ?s3))"
  let ?s8 = "putState t p (st2\<lparr>nextOffset := iadd (nextOffset st) 1\<rparr>) (cacheMessage t p ?m ?s6)"
  have "w" using appendLine_ok [OF io op wr] by simp
  then have "AppendReplicated env t p (nextOffset st) v s = (enforceRetentionLocked env ?s8, None)"
    using io ens op wr sy keep(4) [OF io]
    by (simp add: AppendReplicated_def Let_def io_ok_def view flip: st1_def path_def)
  moreover have "append_step t p ?m s ?s8"
  proof (rule append_core [OF pre ens st1_def path_def op wr])
    have eq: "?s3 = putState t p st1 (s1\<lparr>disk := fs'\<rparr>)" by (simp add: putState_def)
    show "frame t p (s1\<lparr>disk := fs'\<rparr>) ?s8" unfolding eq by (intro frame_steps frame_refl)
    show "segFiles ?s8 t p = segFiles (s1\<lparr>disk := fs'\<rparr>) t p" using pl by (simp add: view eq)
    show "mget2 (partitionStates ?s8) t p = Some (st2\<lparr>nextOffset := iadd (nextOffset st) 1\<rparr>)"
      "cachedMessages ?s8 t p = cachedMessages s1 t p @ [?m]" by (simp_all add: view)
    show "nextOffset (st2\<lparr>nextOffset := iadd (nextOffset st) 1\<rparr>) = nextOffset st + 1"
      using pre e(1,2) by (simp add: iadd_id append_pre_def int64_ok_def log_ok_def)
  qed (use keep in simp_all)
  ultimately show thesis using that e(2) by simp
qed

section \<open>What clients of the storage rely on\<close>

text \<open>
  \<open>grown t p m s s'\<close>: the record \<open>m\<close> was appended to the partition, and retention may then have
  taken the front of any log, but never the record just written.
\<close>

definition grown :: "string \<Rightarrow> int \<Rightarrow> Message \<Rightarrow> Storage \<Rightarrow> Storage \<Rightarrow> bool" where
  "grown t p m s s' \<longleftrightarrow>
     settings s' = settings s \<and> Offset m = nextAt s t p \<and> nextAt s' t p = nextAt s t p + 1 \<and>
     (\<exists>k \<le> length (cachedMessages s t p). cachedMessages s' t p = drop k (cachedMessages s t p @ [m])) \<and>
     (\<forall>t' p'. plain_topic t' \<longrightarrow> 0 \<le> p' \<longrightarrow> (t', p') \<noteq> (t, p) \<longrightarrow>
        nextAt s' t' p' = nextAt s t' p' \<and>
        (\<exists>k. cachedMessages s' t' p' = drop k (cachedMessages s t' p')) \<and>
        (cachedMessages s t' p' \<noteq> [] \<longrightarrow> cachedMessages s' t' p' \<noteq> []))"

lemma append_step_grown:
  assumes a: "append_step t p m s s8" and r: "retained s8 s'" and pl: "plain_topic t" "0 \<le> p"
  shows "grown t p m s s'"
proof -
  have own: "nextAt s' t p = nextAt s8 t p" "\<exists>k. cachedMessages s' t p = drop k (cachedMessages s8 t p)"
    "cachedMessages s8 t p \<noteq> [] \<longrightarrow> cachedMessages s' t p \<noteq> []" "settings s' = settings s8"
    using r pl unfolding retained_def by auto
  then obtain k where k: "cachedMessages s' t p = drop k (cachedMessages s8 t p)" by blast
  have "k \<le> length (cachedMessages s t p)"
    using a own(3) k by (auto simp: append_step_def)
  moreover have "nextAt s' t' p' = nextAt s t' p' \<and>
      (\<exists>k. cachedMessages s' t' p' = drop k (cachedMessages s t' p')) \<and>
      (cachedMessages s t' p' \<noteq> [] \<longrightarrow> cachedMessages s' t' p' \<noteq> [])"
    if "plain_topic t'" "0 \<le> p'" "(t', p') \<noteq> (t, p)" for t' p'
  proof -
    have "cachedMessages s8 t' p' = cachedMessages s t' p'" "nextAt s8 t' p' = nextAt s t' p'"
      using a that unfolding append_step_def frame_def nextAt_def by auto
    with r that show ?thesis unfolding retained_def by metis
  qed
  moreover have "settings s' = settings s" using a own(4) by (simp add: append_step_def frame_def)
  ultimately show ?thesis using a k own(1) by (auto simp: append_step_def grown_def)
qed

lemma produce_grows:
  assumes "append_pre env t p v s" and "ProduceToPartition env t p v s = (s', part, off)"
  shows "storage_ok s' \<and> part = p \<and> off = nextAt s t p \<and> grown t p \<lparr>Offset = off, Value = v\<rparr> s s'"
proof -
  have pl: "plain_topic t" "0 \<le> p" "io_ok env" using assms(1) by (auto simp: append_pre_def)
  obtain s8 where s8: "ProduceToPartition env t p v s = (enforceRetentionLocked env s8, p, nextAt s t p)"
    "append_step t p \<lparr>Offset = nextAt s t p, Value = v\<rparr> s s8"
    using ProduceToPartition_step [OF assms(1)] by blast
  then have "storage_ok s8" by (simp add: append_step_def)
  note r = enforceRetention_ok [OF pl(3) this]
  with s8 pl append_step_grown [OF s8(2)] assms(2) show ?thesis by auto
qed

lemma replicated_grows:
  assumes "append_pre env t p v s" and "AppendReplicated env t p (nextAt s t p) v s = (s', e)"
  shows "storage_ok s' \<and> e = None \<and> grown t p \<lparr>Offset = nextAt s t p, Value = v\<rparr> s s'"
proof -
  have pl: "plain_topic t" "0 \<le> p" "io_ok env" using assms(1) by (auto simp: append_pre_def)
  obtain s8 where s8: "AppendReplicated env t p (nextAt s t p) v s = (enforceRetentionLocked env s8, None)"
    "append_step t p \<lparr>Offset = nextAt s t p, Value = v\<rparr> s s8"
    using AppendReplicated_step [OF assms(1)] by blast
  then have "storage_ok s8" by (simp add: append_step_def)
  note r = enforceRetention_ok [OF pl(3) this]
  with s8 pl append_step_grown [OF s8(2)] assms(2) show ?thesis by auto
qed

lemma ensure_storage_ok:
  assumes "storage_ok s" and "placed t p" and "ensurePartitionState env t p s = (s1, st)"
  shows "storage_ok s1" and "settings s1 = settings s" and "cachedMessages s1 = cachedMessages s"
    and "nextAt s1 = nextAt s" and "nextAt s t p = nextOffset st"
proof -
  have f: "frame t p s s1" using frame_ensure [of t p s env] assms(3) by simp
  have "part_ok s1 t p" if "plain_topic t"
    using ensure_part_ok(1) [OF _ assms(3)] ensure_state [OF assms(3)] assms(1,2) that
    by (simp add: part_ok_def [of s1] storage_ok_def placed_def)
  then show "storage_ok s1" using frame_storage_ok [OF f assms(1,2)] by blast
  show "settings s1 = settings s" using f by (simp add: frame_def)
  show "cachedMessages s1 = cachedMessages s" using ensure_state [OF assms(3)] by simp
  show "nextAt s t p = nextOffset st" using ensure_state [OF assms(3)] by (auto simp: nextAt_def)
  show "nextAt s1 = nextAt s"
  proof (intro ext)
    fix t' p'
    show "nextAt s1 t' p' = nextAt s t' p'"
    proof (cases "(t', p') = (t, p)")
      case True
      with ensure_state [OF assms(3)] show ?thesis by (auto simp: nextAt_def)
    next
      case False
      with f have "mget2 (partitionStates s1) t' p' = mget2 (partitionStates s) t' p'"
        unfolding frame_def by blast
      then show ?thesis by (simp add: nextAt_def)
    qed
  qed
qed

lemma replicated_skips:
  assumes "storage_ok s" and "placed t p" and "off \<noteq> nextAt s t p"
    and "AppendReplicated env t p off v s = (s', e)"
  shows "storage_ok s' \<and> settings s' = settings s \<and> cachedMessages s' = cachedMessages s \<and>
    nextAt s' = nextAt s \<and>
    e = (if off < nextAt s t p then None else Some (NonContiguous (nextAt s t p) off))"
proof -
  obtain s1 st where ens: "ensurePartitionState env t p s = (s1, st)" by force
  note e = ensure_storage_ok [OF assms(1,2) ens]
  then show ?thesis using assms(3,4) ens by (auto simp: AppendReplicated_def split: if_splits)
qed

lemma storage_ok_empty: "storage_ok (newStorageRecord cfg [])"
  by (simp add: storage_ok_def newStorageRecord_def part_ok_def cachedMessages_def segFiles_def
      mget2_def mwf2_def fun_eq_iff)

section \<open>Size of what retention leaves\<close>

definition fileSize :: "Storage \<Rightarrow> string \<Rightarrow> int \<Rightarrow> int \<Rightarrow> int" where
  "fileSize s t p seg = (case segFiles s t p seg of None \<Rightarrow> 0 | Some f \<Rightarrow> int (length (content f)))"

definition logSize :: "Storage \<Rightarrow> string \<Rightarrow> int \<Rightarrow> int list \<Rightarrow> int" where
  "logSize s t p segs = (\<Sum>seg \<leftarrow> segs. fileSize s t p seg)"

lemma fileSize_nonneg: "0 \<le> fileSize s t p seg"
  by (simp add: fileSize_def split: option.split)

lemma logSize_nonneg: "0 \<le> logSize s t p segs"
  unfolding logSize_def by (induction segs) (simp_all add: fileSize_nonneg add_nonneg_nonneg)

lemma segmentSize_ok: "io_ok env \<Longrightarrow> segmentSize env s t p seg = fileSize s t p seg"
  by (simp add: segmentSize_def fileSize_def segFiles_def statFile_ok)

lemma logSize_segFiles:
  "(\<And>seg. seg \<in> set segs \<Longrightarrow> segFiles s t p seg = segFiles s' t p seg) \<Longrightarrow> logSize s t p segs = logSize s' t p segs"
  unfolding logSize_def by (simp add: fileSize_def cong: map_cong)

lemma fold_segmentSize:
  "0 \<le> a \<Longrightarrow> a + logSize s t p segs < 2 ^ 63 \<Longrightarrow>
   fold (\<lambda>seg tot. iadd tot (fileSize s t p seg)) segs a = a + logSize s t p segs"
proof (induction segs arbitrary: a)
  case (Cons seg segs)
  have "a + fileSize s t p seg + logSize s t p segs < 2 ^ 63"
    using Cons.prems by (simp add: logSize_def algebra_simps)
  moreover from this have "iadd a (fileSize s t p seg) = a + fileSize s t p seg"
    using Cons.prems(1) logSize_nonneg [of s t p segs] fileSize_nonneg [of s t p seg]
    by (intro iadd_id) (simp add: int64_ok_def)
  ultimately show ?case
    using Cons.IH [of "a + fileSize s t p seg"] Cons.prems(1) fileSize_nonneg [of s t p seg]
    by (simp add: logSize_def)
qed (simp add: logSize_def)

lemma sizeLoop_bound:
  "io_ok env \<Longrightarrow> 0 \<le> p \<Longrightarrow> part_ok s t p \<Longrightarrow> mget2 (partitionStates s) t p = Some st
    \<Longrightarrow> segments st = segs \<Longrightarrow> tot = logSize s t p segs \<Longrightarrow> tot < 2 ^ 63
    \<Longrightarrow> \<exists>st'. mget2 (partitionStates (sizeLoop env t p tot segs s)) t p = Some st' \<and>
      (length (segments st') \<le> 1 \<or>
       logSize (sizeLoop env t p tot segs s) t p (segments st') \<le> retentionMaxBytes s)"
proof (induction env t p tot segs s arbitrary: st rule: sizeLoop.induct)
  case (1 env t p tot seg seg2 segs s)
  let ?d = "deleteSegment env t p seg s"
  note d = deleteSegment_trimmed [OF "1.prems"(1-5)]
  have "seg \<notin> set (seg2 # segs)" using "1.prems"(3-5) by (auto simp: part_ok_def log_ok_def)
  then have left: "logSize ?d t p (seg2 # segs) = logSize s t p (seg2 # segs)"
    by (intro logSize_segFiles) (auto simp: d(3))
  have tot: "isub tot (fileSize s t p seg) = logSize s t p (seg2 # segs)"
    using "1.prems"(6,7) logSize_nonneg [of s t p "seg2 # segs"] fileSize_nonneg [of s t p seg]
    by (subst isub_id) (simp_all add: logSize_def int64_ok_def)
  have lt: "isub tot (fileSize s t p seg) < 2 ^ 63"
    unfolding tot using "1.prems"(6,7) fileSize_nonneg [of s t p seg] by (simp add: logSize_def)
  have "settings ?d = settings s" using d(1) by (simp add: trimmed_def)
  then have "retentionMaxBytes ?d = retentionMaxBytes s"
    by (simp add: settings_def StorageSettings.defs)
  moreover have "isub tot (fileSize s t p seg) = logSize ?d t p (seg2 # segs)"
    by (simp only: tot left)
  ultimately have del: "retentionMaxBytes s < tot \<Longrightarrow> ?case"
    using "1.IH" [OF _ "1.prems"(1,2) trimmed_part_ok [OF d(1)] d(2)] lt
    by (simp add: segmentSize_ok [OF "1.prems"(1)])
  show ?case
  proof (cases "retentionMaxBytes s < tot")
    case False
    with "1.prems"(4,5,6) show ?thesis by simp
  qed (rule del)
qed simp_all

end
