(* ===== verification/Storage_Recovery.thy ===== *)
theory Storage_Recovery
  imports Storage_Log
begin

text \<open>
  Restart: \<open>NewStorage\<close> on the files a running storage left behind.

  \<^item> \<open>names_ok\<close>: every file of the data directory that reads as a segment is the segment it reads
    as. Every operation keeps it, whatever system calls fail.
  \<^item> \<open>recoverable\<close>: the topics whose segment names \<open>parseSegmentFileName\<close> reads back.
  \<^item> \<open>loadData\<close> rebuilds every log of a storage in \<open>durable\<close> state, and \<open>NewStorage\<close> then applies
    retention to it.
\<close>

definition recoverable :: "string \<Rightarrow> int \<Rightarrow> bool" where
  "recoverable t p \<longleftrightarrow> t \<noteq> [] \<and> \<not> Contains (t @ ''-'') ''-segment-'' \<and> int64_ok p"

definition good_name :: "string \<Rightarrow> bool" where
  "good_name path \<longleftrightarrow> (\<forall>t p seg. parseSegmentFileName (last_elem path) = Some (t, p, seg) \<longrightarrow>
     last_elem path = segmentName t p seg \<and> 0 \<le> p)"

definition names_ok :: "filesystem \<Rightarrow> bool" where
  "names_ok fs \<longleftrightarrow> (\<forall>path \<in> set (mkeys fs). good_name path)"

definition durable :: "Storage \<Rightarrow> bool" where
  "durable s \<longleftrightarrow> storage_ok s \<and> names_ok (disk s) \<and>
     (\<forall>t p. plain_topic t \<longrightarrow> 0 \<le> p \<longrightarrow> cachedMessages s t p \<noteq> [] \<longrightarrow> recoverable t p)"

section \<open>Names of files\<close>

lemma names_ok_mono: "names_ok fs \<Longrightarrow> set (mkeys fs') \<subseteq> set (mkeys fs) \<Longrightarrow> names_ok fs'"
  unfolding names_ok_def by blast

lemma appendLine_names:
  "set (mkeys (fst (appendLine env path line fs))) \<subseteq> insert path (set (mkeys fs))"
  by (auto simp: appendLine_def openAppend_def writeString_def mkeys_mput_set split: option.splits if_splits)

lemma good_names [simp]:
  "0 \<le> p \<Longrightarrow> good_name (segmentPath d t p seg)" "good_name (offsetIndexPath d t p)"
  "good_name (timestampIndexPath d t p)" "good_name (replicaSegmentPath d t p (int r) seg)"
  using parseSegmentFileName_unique
  by (fastforce simp: good_name_def last_elem_paths parseSegmentFileName_index replicaSegmentName_eq)+

lemma names_ok_insert:
  "names_ok fs \<Longrightarrow> good_name path \<Longrightarrow> set (mkeys fs') \<subseteq> insert path (set (mkeys fs)) \<Longrightarrow> names_ok fs'"
  unfolding names_ok_def by blast

lemma names_ok_appendLine:
  "names_ok fs \<Longrightarrow> good_name path \<Longrightarrow> names_ok (fst (appendLine env path line fs))"
  using names_ok_insert appendLine_names by blast

lemma names_ok_primitives:
  "names_ok (disk s) \<Longrightarrow> names_ok (disk (putState t p st s))"
  "names_ok (disk s) \<Longrightarrow> names_ok (disk (cacheMessage t p m s))"
  "names_ok (disk s) \<Longrightarrow> names_ok (disk (appendOffsetIndex env t p off seg s))"
  "names_ok (disk s) \<Longrightarrow> names_ok (disk (appendTimestampIndex env t p ts seg off s))"
  "names_ok (disk s) \<Longrightarrow> names_ok (disk (fst (ensurePartitionState env t p s)))"
  by (auto simp: view appendOffsetIndex_def appendTimestampIndex_def names_ok_appendLine
      ensurePartitionState_def Let_def split: option.split)

lemma names_ok_fold:
  "(\<And>x s. names_ok (disk s) \<Longrightarrow> names_ok (disk (f x s))) \<Longrightarrow> names_ok (disk s) \<Longrightarrow> names_ok (disk (fold f xs s))"
  by (induction xs arbitrary: s) auto

lemma names_ok_writeLocalReplicas:
  "names_ok (disk s) \<Longrightarrow> names_ok (disk (writeLocalReplicas env t p seg line s))"
  unfolding writeLocalReplicas_def by (rule names_ok_fold) (simp_all add: names_ok_appendLine)

lemma names_ok_loadLine: "names_ok (disk s) \<Longrightarrow> names_ok (disk (loadLine env t p seg l s))"
proof (cases "parseLogLine l")
  case (Some r)
  assume n: "names_ok (disk s)"
  obtain off ts v where r: "r = (off, ts, v)" by (cases r) auto
  obtain s2 st where e: "ensurePartitionState env t p (cacheMessage t p \<lparr>Offset = off, Value = v\<rparr> s) = (s2, st)"
    by force
  from n have "names_ok (disk s2)"
    using names_ok_primitives(5) [OF names_ok_primitives(2)] by (metis e fst_conv)
  then show ?thesis
    using Some r e by (auto simp: loadLine_def Let_def intro!: names_ok_primitives(1,3,4))
qed (simp add: loadLine_def)

lemma names_ok_loadSegment: "names_ok (disk s) \<Longrightarrow> names_ok (disk (loadSegment env t p seg path s))"
  by (auto simp: loadSegment_def intro: names_ok_fold names_ok_loadLine split: option.split)

lemma names_ok_rebuild: "names_ok (disk s) \<Longrightarrow> names_ok (disk (rebuildPartitionFromSegments env t p s))"
  by (auto simp: rebuildPartitionFromSegments_def Let_def view
      intro!: names_ok_fold names_ok_loadSegment split: option.split)

lemma names_ok_dropSegment: "names_ok (disk s) \<Longrightarrow> names_ok (disk (dropSegment t p s))"
  by (auto simp: dropSegment_def view split: option.split)

lemma names_ok_delete: "names_ok (disk s) \<Longrightarrow> names_ok (disk (deleteSegment env t p seg s))"
proof -
  assume n: "names_ok (disk s)"
  have "set (mkeys (mdel path (disk s))) \<subseteq> set (mkeys (disk s))" for path
    by (auto simp: mdel_def delete_keys)
  with n have "names_ok (mdel path (disk s))" for path using names_ok_mono by blast
  with n show ?thesis
    by (auto simp: deleteSegment_def Let_def intro!: names_ok_rebuild names_ok_dropSegment)
qed

lemma names_ok_ageLoop: "names_ok (disk s) \<Longrightarrow> names_ok (disk (ageLoop env t p cutoff segs s))"
  by (induction env t p cutoff segs s rule: ageLoop.induct)
     (auto simp: names_ok_dropSegment names_ok_delete split: option.split)

lemma names_ok_sizeLoop: "names_ok (disk s) \<Longrightarrow> names_ok (disk (sizeLoop env t p tot segs s))"
  by (induction env t p tot segs s rule: sizeLoop.induct) (auto simp: names_ok_delete)

lemma names_ok_enforceRetention:
  "names_ok (disk s) \<Longrightarrow> names_ok (disk (enforceRetentionLocked env s))"
  unfolding enforceRetentionLocked_def
  by (rule names_ok_fold)
     (auto simp: applyAgeRetention_def applySizeRetention_def Let_def
       intro!: names_ok_ageLoop names_ok_sizeLoop split: option.split)

lemma names_ok_write:
  assumes "names_ok (disk s)" and "good_name path" and "openAppend env path (disk s) = Some fs"
  shows "names_ok (fst (writeString env path line fs))"
proof -
  have "fst (writeString env path line fs) = fst (appendLine env path line (disk s))"
    using assms(3) by (simp add: appendLine_def)
  then show ?thesis using assms names_ok_appendLine by metis
qed

lemma names_ok_Produce:
  assumes "names_ok (disk s)" and "0 \<le> p"
  shows "names_ok (disk (fst (ProduceToPartition env t p v s)))"
proof -
  obtain s1 st where e: "ensurePartitionState env t p s = (s1, st)" by force
  with assms(1) have n: "names_ok (disk s1)" using names_ok_primitives(5) by (metis fst_conv)
  note w = names_ok_write [where s = s1, OF n good_names(1) [OF assms(2)], simplified]
  show ?thesis
    unfolding ProduceToPartition_def Let_def e case_prod_conv
    using n w by (auto simp: view split: option.split prod.split if_split
        intro!: names_ok_enforceRetention names_ok_primitives(1-4) names_ok_writeLocalReplicas) (metis fst_conv w)+
qed

lemma names_ok_AppendReplicated:
  assumes "names_ok (disk s)" and "0 \<le> p"
  shows "names_ok (disk (fst (AppendReplicated env t p off v s)))"
proof -
  obtain s1 st where e: "ensurePartitionState env t p s = (s1, st)" by force
  with assms(1) have n: "names_ok (disk s1)" using names_ok_primitives(5) by (metis fst_conv)
  note w = names_ok_write [where s = s1, OF n good_names(1) [OF assms(2)], simplified]
  show ?thesis
    unfolding AppendReplicated_def Let_def e case_prod_conv
    using n w by (auto simp: view split: option.split prod.split if_split
        intro!: names_ok_enforceRetention names_ok_primitives(1-4)) (metis fst_conv w)+
qed

section \<open>The entries of one partition\<close>

definition own :: "string \<Rightarrow> int \<Rightarrow> segmentEntry \<Rightarrow> bool" where
  "own t p e \<longleftrightarrow> entryTopic e = t \<and> entryPartition e = p"

definition ownSegs :: "string \<Rightarrow> int \<Rightarrow> segmentEntry list \<Rightarrow> int list" where
  "ownSegs t p es = map entrySegmentID (filter (own t p) es)"

lemma ownSegs_simps [simp]:
  "ownSegs t p [] = []" "ownSegs t p (es @ es') = ownSegs t p es @ ownSegs t p es'"
  "ownSegs t p [e] = (if own t p e then [entrySegmentID e] else [])"
  by (simp_all add: ownSegs_def)

definition loadEntries :: "string \<Rightarrow> filesystem \<Rightarrow> segmentEntry list" where
  "loadEntries d fs = sort_key entryKey (segmentEntries d fs)"

lemma set_readDir:
  "name \<in> set (readDir d fs) \<longleftrightarrow>
     (\<exists>path \<in> set (mkeys fs). filepath_Join d (last_elem path) = path \<and> name = last_elem path)"
  by (auto simp: readDir_def)

lemma set_segmentEntries:
  "e \<in> set (segmentEntries d fs) \<longleftrightarrow>
     entryPath e \<in> set (mkeys fs) \<and> filepath_Join d (last_elem (entryPath e)) = entryPath e \<and>
     parseSegmentFileName (last_elem (entryPath e)) = Some (entryTopic e, entryPartition e, entrySegmentID e)"
proof -
  have "e \<in> set (segmentEntries d fs) \<longleftrightarrow> (\<exists>name \<in> set (readDir d fs). entryPath e = filepath_Join d name \<and>
      parseSegmentFileName name = Some (entryTopic e, entryPartition e, entrySegmentID e))"
    by (cases e) (force simp: segmentEntries_def map_filter_def)
  then show ?thesis unfolding Bex_def set_readDir by (metis (no_types, lifting))
qed

lemma set_loadEntries [simp]: "set (loadEntries d fs) = set (segmentEntries d fs)"
  by (simp add: loadEntries_def)

lemma distinct_readDir: "mwf fs \<Longrightarrow> distinct (readDir d fs)"
proof -
  let ?here = "\<lambda>path. filepath_Join d (last_elem path) = path"
  assume "mwf fs"
  then have "distinct (filter ?here (mkeys fs))" by (rule distinct_filter)
  moreover have "inj_on last_elem (set (filter ?here (mkeys fs)))"
  proof (rule inj_onI)
    fix x y assume "x \<in> set (filter ?here (mkeys fs))" "y \<in> set (filter ?here (mkeys fs))" "last_elem x = last_elem y"
    then have "filepath_Join d (last_elem x) = x" "filepath_Join d (last_elem x) = y" by simp_all
    then show "x = y" by (rule subst)
  qed
  ultimately show ?thesis unfolding readDir_def distinct_sort distinct_map by (rule conjI)
qed

lemma distinct_entries:
  assumes "mwf fs"
  shows "distinct (segmentEntries d fs)"
proof -
  let ?entry = "\<lambda>f name. map_option (\<lambda>(t, p, seg). \<lparr>entryTopic = t, entryPartition = p, entrySegmentID = seg,
      entryPath = filepath_Join d name\<rparr>) (f name)"
  have "map entryPath (List.map_filter (?entry f) ns) = map (filepath_Join d) (filter (\<lambda>n. f n \<noteq> None) ns)"
    for f :: "string \<Rightarrow> (string \<times> int \<times> int) option" and ns
    by (induction ns) (auto simp: map_filter_def)
  then have "map entryPath (segmentEntries d fs)
      = map (filepath_Join d) (filter (\<lambda>n. parseSegmentFileName n \<noteq> None) (readDir d fs))"
    unfolding segmentEntries_def .
  moreover have "inj_on (filepath_Join d) (set (readDir d fs))"
    by (rule inj_onI) (metis set_readDir)
  ultimately have "distinct (map entryPath (segmentEntries d fs))"
    using distinct_readDir [OF assms, of d] by (auto simp: distinct_map intro: inj_on_subset)
  then show ?thesis by (simp add: distinct_map)
qed

lemma entry_name:
  assumes "names_ok fs" "e \<in> set (segmentEntries d fs)"
  shows "placed (entryTopic e) (entryPartition e)"
    and "entryPath e = segmentPath d (entryTopic e) (entryPartition e) (entrySegmentID e)"
proof -
  have "entryPath e \<in> set (mkeys fs)" "filepath_Join d (last_elem (entryPath e)) = entryPath e"
    "parseSegmentFileName (last_elem (entryPath e)) = Some (entryTopic e, entryPartition e, entrySegmentID e)"
    using assms(2) unfolding set_segmentEntries by auto
  moreover from this have "0 \<le> entryPartition e"
    "last_elem (entryPath e) = segmentName (entryTopic e) (entryPartition e) (entrySegmentID e)"
    using assms(1) unfolding names_ok_def good_name_def by blast+
  moreover have "flat_name (last_elem (entryPath e))" by simp
  ultimately show "placed (entryTopic e) (entryPartition e)"
    and "entryPath e = segmentPath d (entryTopic e) (entryPartition e) (entrySegmentID e)"
    by (simp_all add: placed_def segmentPath_def segmentName_def)
qed

lemma distinct_entryKeys:
  assumes "mwf fs" and "names_ok fs"
  shows "distinct (map entryKey (loadEntries d fs))"
proof -
  have "inj_on entryKey (set (segmentEntries d fs))"
    using entry_name(2) [OF assms(2)] by (intro inj_onI) (auto simp: entryKey_def)
  with distinct_entries [OF assms(1), of d] show ?thesis by (simp add: loadEntries_def distinct_map)
qed

lemma sorted_entryKeys: "sorted (map entryKey (loadEntries d fs))"
  by (simp add: loadEntries_def)

lemma ownSegs_sorted:
  assumes "mwf fs" and "names_ok fs"
  shows "sorted_wrt (<) (ownSegs t p (loadEntries d fs))"
proof -
  have "sorted_wrt (<) (map entryKey (loadEntries d fs))"
    using sorted_entryKeys distinct_entryKeys [OF assms] by (simp add: strict_sorted_iff)
  then have "sorted_wrt (\<lambda>e e'. entryKey e < entryKey e') (filter (own t p) (loadEntries d fs))"
    by (simp add: sorted_wrt_map sorted_wrt_filter)
  then have "sorted_wrt (\<lambda>e e'. entrySegmentID e < entrySegmentID e') (filter (own t p) (loadEntries d fs))"
    by (rule sorted_wrt_mono_rel [rotated]) (auto simp: own_def entryKey_def)
  then show ?thesis by (simp add: ownSegs_def sorted_wrt_map)
qed

lemma ownSegs_set:
  assumes "names_ok fs" "flat_name t"
  shows "set (ownSegs t p (loadEntries d fs)) =
    {seg. map_of fs (segmentPath d t p seg) \<noteq> None \<and>
       parseSegmentFileName (segmentName t p seg) = Some (t, p, seg)}"
proof -
  have n: "last_elem (segmentPath d t p seg) = segmentName t p seg" for seg
    using assms(2) by (simp add: last_elem_paths last_elem_flat)
  have "seg \<in> set (ownSegs t p (loadEntries d fs)) \<longleftrightarrow> segmentPath d t p seg \<in> set (mkeys fs)
      \<and> parseSegmentFileName (segmentName t p seg) = Some (t, p, seg)" for seg
  proof
    assume "seg \<in> set (ownSegs t p (loadEntries d fs))"
    then obtain e where e: "e \<in> set (segmentEntries d fs)" "own t p e" "seg = entrySegmentID e"
      by (auto simp: ownSegs_def)
    then have "entryPath e = segmentPath d t p seg" using entry_name(2) [OF assms(1) e(1)] by (simp add: own_def)
    with e show "segmentPath d t p seg \<in> set (mkeys fs)
        \<and> parseSegmentFileName (segmentName t p seg) = Some (t, p, seg)"
      unfolding set_segmentEntries own_def using n by metis
  next
    assume a: "segmentPath d t p seg \<in> set (mkeys fs)
        \<and> parseSegmentFileName (segmentName t p seg) = Some (t, p, seg)"
    let ?e = "\<lparr>entryTopic = t, entryPartition = p, entrySegmentID = seg, entryPath = segmentPath d t p seg\<rparr>"
    have "?e \<in> set (segmentEntries d fs)" using a by (simp add: set_segmentEntries n) (simp add: segmentPath_def)
    then show "seg \<in> set (ownSegs t p (loadEntries d fs))"
      by (force simp: ownSegs_def own_def intro: rev_image_eqI [of ?e])
  qed
  then show ?thesis by (auto simp: map_of_eq_None_iff)
qed

section \<open>Loading the entries\<close>

lemma frame_loadEntry: "frame (entryTopic e) (entryPartition e) s (loadEntry env e s)"
proof -
  obtain s1 st where ens: "ensurePartitionState env (entryTopic e) (entryPartition e) s = (s1, st)" by force
  have "frame (entryTopic e) (entryPartition e) s s1"
    using frame_ensure [of "entryTopic e" "entryPartition e" s env] ens by simp
  then show ?thesis
    unfolding loadEntry_def Let_def ens case_prod_conv
    by (intro frame_trans [OF _ frame_loadSegment] frame_steps)
qed

lemma loadEntry_segFiles: "segFiles (loadEntry env e s) = segFiles s"
proof -
  obtain s1 st where ens: "ensurePartitionState env (entryTopic e) (entryPartition e) s = (s1, st)" by force
  have "segFiles (loadSegment env t p seg path (putState t p st' s)) = segFiles s" for t p seg path st' s
    using fold_loadLine(3) [of "putState t p st' s" t p st']
    by (auto simp: loadSegment_def view split: option.split)
  then show ?thesis
    using ensure_state [OF ens] by (simp add: loadEntry_def Let_def ens)
qed

definition normSegs :: "int list \<Rightarrow> int list" where
  "normSegs segs = (if hd segs = 0 then segs else 0 # segs)"

definition loaded :: "string \<Rightarrow> int \<Rightarrow> (int \<Rightarrow> diskFile option) \<Rightarrow> int list \<Rightarrow> Storage \<Rightarrow> bool" where
  "loaded t p F segs s \<longleftrightarrow>
     cachedMessages s t p = segment_records F segs \<and>
     (if segs = [] then mget2 (partitionStates s) t p = None
      else \<exists>st. mget2 (partitionStates s) t p = Some st \<and> segments st = normSegs segs \<and>
             activeSegmentID st = last segs \<and> nextOffset st = bump (segment_records F segs) 0)"

lemma loadEntry_own:
  assumes open_ok: "openOK env = (\<lambda>_. True)" and own: "own t p e"
    and F: "map_of (disk s) (entryPath e) = F (entrySegmentID e)"
    and l: "loaded t p F segs s" and srt: "sorted_wrt (<) (segs @ [entrySegmentID e])"
    and nn: "\<forall>seg \<in> set (segs @ [entrySegmentID e]). 0 \<le> seg"
  shows "loaded t p F (segs @ [entrySegmentID e]) (loadEntry env e s)"
proof -
  let ?seg = "entrySegmentID e"
  have tp: "entryTopic e = t" "entryPartition e = p" using own by (simp_all add: own_def)
  obtain s1 st where ens: "ensurePartitionState env t p s = (s1, st)" by force
  define st1 where "st1 = (if segments st = [] \<or> last (segments st) \<noteq> ?seg
      then st\<lparr>segments := segments st @ [?seg]\<rparr> else st)"
  define st2 where "st2 = (if ?seg > activeSegmentID st1 then st1\<lparr>activeSegmentID := ?seg\<rparr> else st1)"
  have eq: "loadEntry env e s = loadSegment env t p ?seg (entryPath e) (putState t p st2 s1)"
    by (simp add: loadEntry_def Let_def tp ens st2_def st1_def)
  have st: "segments st2 = normSegs (segs @ [?seg]) \<and> activeSegmentID st2 = ?seg \<and>
      nextOffset st2 = bump (segment_records F segs) 0"
  proof (cases "segs = []")
    case True
    with l nn ensure_state [OF ens] show ?thesis
      by (auto simp: loaded_def st2_def st1_def normSegs_def)
  next
    case False
    have "\<forall>x \<in> set segs. x < ?seg" using srt by (simp add: sorted_wrt_append)
    then have "last segs < ?seg" using False by simp
    with False l ensure_state [OF ens] show ?thesis
      by (auto simp: loaded_def st2_def st1_def normSegs_def split: if_splits)
  qed
  have d: "disk s1 = disk s" "cachedMessages s1 = cachedMessages s" using ensure_state [OF ens] by auto
  have g: "mget2 (partitionStates (putState t p st2 s1)) t p = Some st2" by (simp add: view)
  note v = loadSegment_view [OF open_ok g, of ?seg "entryPath e", folded eq]
  show ?thesis
    using v(1,2) st l F by (simp add: loaded_def view d)
qed

lemma loadEntry_other:
  "\<not> own t p e \<Longrightarrow> loaded t p F segs s \<Longrightarrow> loaded t p F segs (loadEntry env e s)"
  using frame_loadEntry [of e s env] unfolding frame_def own_def loaded_def by auto

lemma loadEntries_loaded:
  assumes open_ok: "openOK env = (\<lambda>_. True)" and F: "segFiles s t p = F" and empty: "loaded t p F [] s"
    and paths: "\<forall>e \<in> set es. own t p e \<longrightarrow> entryPath e = segmentPath (dataDir s) t p (entrySegmentID e)"
    and srt: "sorted_wrt (<) (ownSegs t p es)" and nn: "\<forall>seg \<in> set (ownSegs t p es). 0 \<le> seg"
  shows "loaded t p F (ownSegs t p es) (fold (loadEntry env) es s) \<and>
    segFiles (fold (loadEntry env) es s) = segFiles s \<and> dataDir (fold (loadEntry env) es s) = dataDir s"
  using paths srt nn
proof (induction es rule: rev_induct)
  case Nil
  then show ?case using empty by simp
next
  case (snoc e es)
  let ?s = "fold (loadEntry env) es s"
  have IH: "loaded t p F (ownSegs t p es) ?s" "segFiles ?s = segFiles s" "dataDir ?s = dataDir s"
    using snoc by (auto simp: sorted_wrt_append)
  have dir: "dataDir (loadEntry env e ?s) = dataDir s" using IH(3) frame_dataDir [OF frame_loadEntry] by simp
  show ?case
  proof (cases "own t p e")
    case True
    then have "map_of (disk ?s) (entryPath e) = F (entrySegmentID e)"
      using snoc.prems(1) IH(2,3) F by (auto simp: segFiles_def fun_eq_iff)
    from loadEntry_own [OF open_ok True this IH(1)] snoc.prems(2,3) True show ?thesis
      by (simp add: loadEntry_segFiles IH(2) dir)
  next
    case False
    then show ?thesis using loadEntry_other [OF False IH(1)] by (simp add: loadEntry_segFiles IH(2) dir)
  qed
qed

lemma segment_records_filter:
  "segment_records F (filter (\<lambda>seg. F seg \<noteq> None) segs) = segment_records F segs"
  by (induction segs) (auto simp: file_records_def)

text \<open>The log found on disk is the log in memory.\<close>

lemma last_segment_present:
  assumes ok: "log_ok ms st F" and segs: "segs = filter (\<lambda>seg. F seg \<noteq> None) (segments st)" "segs \<noteq> []"
  shows "last segs = activeSegmentID st"
    and "normSegs segs \<noteq> [0] \<Longrightarrow> file_records (F (last segs)) \<noteq> []"
proof -
  obtain pre where pre: "segments st = pre @ [activeSegmentID st]"
    using ok by (simp add: log_ok_def) (metis append_butlast_last_id)
  have "F (activeSegmentID st) \<noteq> None"
  proof (cases "segments st = [0]")
    case True
    with pre segs show ?thesis by (auto split: if_splits)
  next
    case False
    with ok have "file_records (F (activeSegmentID st)) \<noteq> []" by (simp add: log_ok_def)
    then show ?thesis by (auto simp: file_records_def split: option.splits)
  qed
  then show act: "last segs = activeSegmentID st" using segs pre by simp
  assume a: "normSegs segs \<noteq> [0]"
  have "segments st \<noteq> [0]"
  proof
    assume "segments st = [0]"
    with segs have "segs = [0]" by (auto split: if_splits)
    with a show False by (simp add: normSegs_def)
  qed
  with ok act show "file_records (F (last segs)) \<noteq> []" by (simp add: log_ok_def)
qed

lemma normSegs_sorted:
  assumes "sorted_wrt (<) segs" "\<forall>seg \<in> set segs. 0 \<le> seg" "segs \<noteq> []"
  shows "sorted_wrt (<) (normSegs segs) \<and> hd (normSegs segs) = 0 \<and> normSegs segs \<noteq> []
    \<and> last (normSegs segs) = last segs \<and> set segs \<subseteq> set (normSegs segs)"
    and "hd segs \<noteq> 0 \<Longrightarrow> 0 \<notin> set segs"
  using assms by (cases segs; auto simp: normSegs_def)+

lemma loaded_log_ok:
  assumes ok: "log_ok ms st F" and segs: "segs = filter (\<lambda>seg. F seg \<noteq> None) (segments st)"
    and l: "loaded t p F segs s" and f: "segFiles s t p = F"
  shows "part_ok s t p" and "cachedMessages s t p = ms" and "nextAt s t p = nextOffset st"
proof -
  have rec: "segment_records F segs = ms" using ok segs segment_records_filter by (simp add: log_ok_def)
  show c: "cachedMessages s t p = ms" using l rec by (simp add: loaded_def)
  have b: "bump ms 0 = nextOffset st" using ok bump_consecutive by (cases "ms = []") (auto simp: log_ok_def)
  show "nextAt s t p = nextOffset st"
    using l b rec by (auto simp: loaded_def nextAt_def split: if_splits)
  have dom: "F seg \<noteq> None \<longleftrightarrow> seg \<in> set segs" for seg using ok segs by (auto simp: log_ok_def)
  show "part_ok s t p"
  proof (cases "segs = []")
    case True
    then have "F = Map.empty" using dom by (auto simp: fun_eq_iff)
    with True l f c rec show ?thesis by (simp add: part_ok_def loaded_def)
  next
    case False
    with l obtain st' where st': "mget2 (partitionStates s) t p = Some st'" "segments st' = normSegs segs"
        "activeSegmentID st' = last segs" "nextOffset st' = nextOffset st"
      using rec b by (auto simp: loaded_def)
    have "sorted_wrt (<) segs" "\<forall>seg \<in> set segs. 0 \<le> seg"
      using ok segs log_ok_segments_nonneg [OF ok] by (auto simp: log_ok_def sorted_wrt_filter)
    note n = normSegs_sorted [OF this False]
    have "file_records (F 0) = []" if "hd segs \<noteq> 0"
      using dom [of 0] n(2) [OF that] by (simp add: file_records_def)
    then have rec': "segment_records F (normSegs segs) = ms" using rec by (simp add: normSegs_def)
    show ?thesis
      using ok n(1) rec' dom last_segment_present [OF ok segs False]
      by (auto simp: part_ok_def st' c f log_ok_def)
  qed
qed

section \<open>Restart\<close>

lemma loadData_eq: "io_ok env \<Longrightarrow> loadData env s = fold (loadEntry env) (loadEntries (dataDir s) (disk s)) s"
  by (simp add: loadData_def loadEntries_def io_ok_def)

lemma durable_part_ok: "durable s \<Longrightarrow> plain_topic t \<Longrightarrow> 0 \<le> p \<Longrightarrow> part_ok s t p"
  by (simp add: durable_def storage_ok_def)

lemma part_ok_files:
  assumes "part_ok s t p" and "segFiles s t p seg \<noteq> None"
  shows "cachedMessages s t p \<noteq> []"
proof -
  obtain f where f: "segFiles s t p seg = Some f" using assms(2) by blast
  with assms(1) obtain st where st: "log_ok (cachedMessages s t p) st (segFiles s t p)"
    by (auto simp: part_ok_def split: option.splits)
  then have "seg \<in> set (segments st)" "file_records (segFiles s t p seg) \<noteq> []"
    using f by (auto simp: log_ok_def intro: ranI)
  with st show ?thesis by (auto simp: log_ok_def segment_records_def)
qed

lemma ownSegs_log:
  assumes d: "durable s" and pl: "plain_topic t" "0 \<le> p"
    and st: "mget2 (partitionStates s) t p = Some st"
  shows "ownSegs t p (loadEntries (dataDir s) (disk s)) = filter (\<lambda>seg. segFiles s t p seg \<noteq> None) (segments st)"
proof -
  have ok: "log_ok (cachedMessages s t p) st (segFiles s t p)"
    using durable_part_ok [OF d pl] st by (simp add: part_ok_def)
  have names: "names_ok (disk s)" and wf: "mwf (disk s)" using d by (auto simp: durable_def storage_ok_def)
  have "parseSegmentFileName (segmentName t p seg) = Some (t, p, seg)" if f: "segFiles s t p seg \<noteq> None" for seg
  proof -
    have "recoverable t p"
      using part_ok_files [OF durable_part_ok [OF d pl] f] d pl by (simp add: durable_def)
    moreover have "seg \<in> set (segments st)" using ok f by (simp add: log_ok_def)
    moreover from this have "0 \<le> seg" "seg \<le> activeSegmentID st"
      using log_ok_segments_nonneg [OF ok] ok sorted_last_less [of "segments st" seg]
      by (simp_all add: log_ok_def)
    ultimately show ?thesis
      using ok pl(2) by (intro parseSegmentFileName_segmentName) (auto simp: recoverable_def log_ok_def int64_ok_def)
  qed
  then have "set (ownSegs t p (loadEntries (dataDir s) (disk s))) = set (filter (\<lambda>seg. segFiles s t p seg \<noteq> None) (segments st))"
    using ok pl(1) ownSegs_set [OF names, of t p] by (auto simp: segFiles_def log_ok_def plain_topic_def)
  then show ?thesis
    using ownSegs_sorted [OF wf names, of t p] ok
    by (intro strict_sorted_equal) (auto simp: log_ok_def sorted_wrt_filter)
qed

lemma ownSegs_none:
  assumes d: "durable s" and pl: "plain_topic t" "0 \<le> p"
    and st: "mget2 (partitionStates s) t p = None"
  shows "ownSegs t p (loadEntries (dataDir s) (disk s)) = []"
proof -
  have "segFiles s t p = Map.empty" using durable_part_ok [OF d pl] st by (simp add: part_ok_def)
  then show ?thesis
    using ownSegs_set [of "disk s" t p "dataDir s"] d pl(1) by (auto simp: durable_def segFiles_def fun_eq_iff plain_topic_def)
qed

lemma loadData_part:
  fixes cfg :: Config
  assumes io: "io_ok env" and d: "durable s" and dir: "DataDir cfg = dataDir s" and pl: "plain_topic t" "0 \<le> p"
  defines "s' \<equiv> loadData env (newStorageRecord cfg (disk s))"
  shows "part_ok s' t p" and "cachedMessages s' t p = cachedMessages s t p" and "nextAt s' t p = nextAt s t p"
proof -
  let ?s0 = "newStorageRecord cfg (disk s)" and ?es = "loadEntries (dataDir s) (disk s)" and ?F = "segFiles s t p"
  have s': "s' = fold (loadEntry env) ?es ?s0"
    by (simp add: s'_def loadData_eq [OF io] newStorageRecord_def dir)
  have op: "openOK env = (\<lambda>_. True)" using io by (simp add: io_ok_def)
  have F0: "segFiles ?s0 t p = ?F" and dir0: "dataDir ?s0 = dataDir s"
    by (simp_all add: segFiles_def newStorageRecord_def dir)
  have l0: "loaded t p ?F [] ?s0"
    by (simp add: loaded_def newStorageRecord_def cachedMessages_def mget2_def)
  have names: "names_ok (disk s)" and wf: "mwf (disk s)" and ok: "part_ok s t p"
    using d pl by (auto simp: durable_def storage_ok_def)
  have paths: "\<forall>e \<in> set ?es. own t p e \<longrightarrow> entryPath e = segmentPath (dataDir ?s0) t p (entrySegmentID e)"
    using entry_name(2) [OF names] by (auto simp: own_def dir0)
  have nn: "\<forall>seg \<in> set (ownSegs t p ?es). 0 \<le> seg"
  proof (cases "mget2 (partitionStates s) t p")
    case None
    then show ?thesis using ownSegs_none [OF d pl] by simp
  next
    case (Some st)
    then show ?thesis
      using ownSegs_log [OF d pl Some] ok log_ok_segments_nonneg by (auto simp: part_ok_def)
  qed
  have l: "loaded t p ?F (ownSegs t p ?es) s'" and f: "segFiles s' t p = ?F"
    using loadEntries_loaded [OF op F0 l0 paths ownSegs_sorted [OF wf names] nn] F0 by (simp_all add: s')
  have "part_ok s' t p \<and> cachedMessages s' t p = cachedMessages s t p \<and> nextAt s' t p = nextAt s t p"
  proof (cases "mget2 (partitionStates s) t p")
    case None
    with l f ok ownSegs_none [OF d pl None] show ?thesis
      by (simp add: loaded_def part_ok_def nextAt_def)
  next
    case (Some st)
    with ok have "log_ok (cachedMessages s t p) st ?F" by (simp add: part_ok_def)
    from loaded_log_ok [OF this ownSegs_log [OF d pl Some] l f] show ?thesis
      by (simp add: nextAt_def [of s] Some)
  qed
  then show "part_ok s' t p" "cachedMessages s' t p = cachedMessages s t p" "nextAt s' t p = nextAt s t p"
    by auto
qed

lemma fold_loadEntry_wf:
  assumes "\<forall>e \<in> set es. placed (entryTopic e) (entryPartition e)"
    and "mwf2 (partitionStates s)" "mwf (disk s)" "\<forall>t p. mget2 (partitionStates s) t p \<noteq> None \<longrightarrow> placed t p"
  shows "mwf2 (partitionStates (fold (loadEntry env) es s)) \<and> mwf (disk (fold (loadEntry env) es s)) \<and>
    (\<forall>t p. mget2 (partitionStates (fold (loadEntry env) es s)) t p \<noteq> None \<longrightarrow> placed t p)"
  using assms
proof (induction es arbitrary: s)
  case (Cons e es)
  note f = frame_loadEntry [of e s env]
  have "placed t p" if "mget2 (partitionStates (loadEntry env e s)) t p \<noteq> None" for t p
  proof (cases "(t, p) = (entryTopic e, entryPartition e)")
    case False
    with f have "mget2 (partitionStates (loadEntry env e s)) t p = mget2 (partitionStates s) t p"
      unfolding frame_def by blast
    with that Cons.prems(4) show ?thesis by metis
  qed (use Cons.prems(1) in simp)
  moreover have "mwf2 (partitionStates (loadEntry env e s))" "mwf (disk (loadEntry env e s))"
    using f Cons.prems unfolding frame_def by blast+
  ultimately have "mwf2 (partitionStates (fold (loadEntry env) es (loadEntry env e s))) \<and>
      mwf (disk (fold (loadEntry env) es (loadEntry env e s))) \<and>
      (\<forall>t p. mget2 (partitionStates (fold (loadEntry env) es (loadEntry env e s))) t p \<noteq> None \<longrightarrow> placed t p)"
    by (intro Cons.IH) (use Cons.prems(1) in auto)
  then show ?case unfolding fold_simps .
qed simp

lemma names_ok_loadEntry: "names_ok (disk s) \<Longrightarrow> names_ok (disk (loadEntry env e s))"
proof -
  assume n: "names_ok (disk s)"
  obtain s1 st where ens: "ensurePartitionState env (entryTopic e) (entryPartition e) s = (s1, st)" by force
  have "disk s1 = disk s" using ensure_state [OF ens] by simp
  with n show ?thesis
    unfolding loadEntry_def Let_def ens case_prod_conv
    by (intro names_ok_loadSegment names_ok_primitives) simp
qed

lemma loadData_durable:
  assumes io: "io_ok env" and d: "durable s" and dir: "DataDir cfg = dataDir s"
  shows "durable (loadData env (newStorageRecord cfg (disk s)))"
proof -
  let ?s0 = "newStorageRecord cfg (disk s)"
  let ?s' = "loadData env ?s0"
  have names: "names_ok (disk s)" and wf: "mwf (disk s)" using d by (auto simp: durable_def storage_ok_def)
  have s': "?s' = fold (loadEntry env) (loadEntries (dataDir s) (disk s)) ?s0"
    by (simp add: loadData_eq [OF io] newStorageRecord_def dir)
  have s0: "mwf2 (partitionStates ?s0)" "mwf (disk ?s0)" "disk ?s0 = disk s"
    "\<forall>t p. mget2 (partitionStates ?s0) t p \<noteq> None \<longrightarrow> placed t p"
    using wf by (simp_all add: newStorageRecord_def mwf2_def mget2_def)
  have nn: "\<forall>e \<in> set (loadEntries (dataDir s) (disk s)). placed (entryTopic e) (entryPartition e)"
    using entry_name(1) [OF names] by simp
  have "names_ok (disk ?s')" unfolding s' using names s0(3) by (intro names_ok_fold names_ok_loadEntry) simp_all
  moreover have "storage_ok ?s'"
    using fold_loadEntry_wf [OF nn s0(1,2,4), of env, folded s'] loadData_part(1) [OF io d dir]
    unfolding storage_ok_def by blast
  moreover have "recoverable t p" if "plain_topic t" "0 \<le> p" "cachedMessages ?s' t p \<noteq> []" for t p
    using loadData_part(2) [OF io d dir that(1,2)] that d by (simp add: durable_def)
  ultimately show ?thesis unfolding durable_def by blast
qed

lemma durable_step:
  assumes d: "durable s" and ok: "storage_ok s'" and names: "names_ok (disk s')"
    and logs: "\<And>t p. plain_topic t \<Longrightarrow> 0 \<le> p \<Longrightarrow> cachedMessages s' t p \<noteq> [] \<Longrightarrow>
      cachedMessages s t p \<noteq> [] \<or> recoverable t p"
  shows "durable s'"
  unfolding durable_def
proof (intro conjI allI impI)
  fix t p assume a: "plain_topic t" "0 \<le> p" "cachedMessages s' t p \<noteq> []"
  from logs [OF this] d a(1,2) show "recoverable t p" by (auto simp: durable_def)
qed (use ok names in simp_all)

lemma durable_retained: "durable s \<Longrightarrow> storage_ok s' \<Longrightarrow> names_ok (disk s') \<Longrightarrow> retained s s' \<Longrightarrow> durable s'"
proof (rule durable_step, assumption+)
  fix t p assume "retained s s'" "plain_topic t" "0 \<le> p" "cachedMessages s' t p \<noteq> []"
  moreover from this obtain k where "cachedMessages s' t p = drop k (cachedMessages s t p)"
    unfolding retained_def by blast
  ultimately show "cachedMessages s t p \<noteq> [] \<or> recoverable t p" by auto
qed

lemma durable_grown:
  assumes "durable s" and "storage_ok s'" and "names_ok (disk s')" and g: "grown t p m s s'"
    and "recoverable t p"
  shows "durable s'"
proof (rule durable_step [OF assms(1-3)])
  fix t' p' assume a: "plain_topic t'" "0 \<le> p'" "cachedMessages s' t' p' \<noteq> []"
  show "cachedMessages s t' p' \<noteq> [] \<or> recoverable t' p'"
  proof (cases "(t', p') = (t, p)")
    case False
    with g a obtain k where "cachedMessages s' t' p' = drop k (cachedMessages s t' p')"
      unfolding grown_def by metis
    with a(3) show ?thesis by auto
  qed (use assms(5) in simp)
qed

lemma durable_empty: "durable (newStorageRecord cfg [])"
  using storage_ok_empty [of cfg]
  by (simp add: durable_def names_ok_def newStorageRecord_def cachedMessages_def mget2_def)

lemma NewStorage_durable:
  fixes cfg :: Config
  assumes io: "io_ok env" and d: "durable s" and dir: "DataDir cfg = dataDir s"
  defines "s' \<equiv> NewStorage env cfg (disk s)"
  shows "durable s'" and "retained (loadData env (newStorageRecord cfg (disk s))) s'"
proof -
  let ?l = "loadData env (newStorageRecord cfg (disk s))"
  have l: "durable ?l" using io d dir by (rule loadData_durable)
  then have "storage_ok ?l" "names_ok (disk ?l)" by (simp_all add: durable_def)
  note r = enforceRetention_ok [OF io this(1)] names_ok_enforceRetention [OF this(2), of env]
  then show "retained ?l s'" by (simp add: s'_def NewStorage_def)
  with r l show "durable s'" unfolding s'_def NewStorage_def by (blast intro: durable_retained)
qed

end
