(* ===== verification/Storage_Runs.thy ===== *)
theory Storage_Runs
  imports Storage_Recovery
begin

text \<open>
  Whole lives of a storage: appends, replicated appends and restarts in any order.

  \<^item> \<open>storage_run H s\<close>: the storage \<open>s\<close> is reached by such a life, and \<open>H t p\<close> is the list of all
    values ever appended to the partition. This history is the abstract log: position \<open>i\<close> holds
    the value of offset \<open>i\<close>, for ever.
  \<^item> The storage refines it: what it keeps is a suffix of the history, with the right offsets.
  \<^item> The locale \<open>replica_log\<close> is the contract of \<open>ReplicaStorage\<close> of \<open>replication/worker.go\<close>,
    interpreted on \<open>AppendReplicated\<close>.
\<close>

section \<open>Values and their offsets\<close>

definition stamped :: "int \<Rightarrow> string list \<Rightarrow> Message list" where
  "stamped off vs = map (\<lambda>i. \<lparr>Offset = off + int i, Value = vs ! i\<rparr>) [0..<length vs]"

lemma stamped_Nil [simp]: "stamped off [] = []"
  by (simp add: stamped_def)

lemma length_stamped [simp]: "length (stamped off vs) = length vs"
  by (simp add: stamped_def)

lemma nth_stamped [simp]: "i < length vs \<Longrightarrow> stamped off vs ! i = \<lparr>Offset = off + int i, Value = vs ! i\<rparr>"
  by (simp add: stamped_def)

lemma stamped_snoc: "stamped off (vs @ [v]) = stamped off vs @ [\<lparr>Offset = off + int (length vs), Value = v\<rparr>]"
  by (rule nth_equalityI) (auto simp: nth_append)

lemma stamped_Cons: "stamped off (v # vs) = \<lparr>Offset = off, Value = v\<rparr> # stamped (off + 1) vs"
  by (rule nth_equalityI) (auto simp: nth_Cons split: nat.split)

lemma drop_whole: "length (drop k xs) = length xs \<Longrightarrow> drop k xs = xs"
  by (cases xs; cases k) auto

section \<open>The contract of a replica's log\<close>

locale replica_log =
  fixes inv :: "'s \<Rightarrow> bool"
    and log :: "'s \<Rightarrow> Message list"
    and nxt :: "'s \<Rightarrow> int"
    and append :: "int \<Rightarrow> string \<Rightarrow> 's \<Rightarrow> 's \<times> append_error option"
    and fits :: "string \<Rightarrow> bool"
    and cap :: int
  assumes at_end: "inv s \<Longrightarrow> fits v \<Longrightarrow> nxt s < cap \<Longrightarrow> append (nxt s) v s = (s', e) \<Longrightarrow>
      inv s' \<and> e = None \<and> nxt s' = nxt s + 1 \<and>
      (\<exists>k \<le> length (log s). log s' = drop k (log s @ [\<lparr>Offset = nxt s, Value = v\<rparr>]))"
    and replay: "inv s \<Longrightarrow> off < nxt s \<Longrightarrow> append off v s = (s', e) \<Longrightarrow>
      inv s' \<and> e = None \<and> nxt s' = nxt s \<and> log s' = log s"
    and gap: "inv s \<Longrightarrow> nxt s < off \<Longrightarrow> append off v s = (s', e) \<Longrightarrow>
      inv s' \<and> e = Some (NonContiguous (nxt s) off) \<and> nxt s' = nxt s \<and> log s' = log s"
begin

text \<open>Whatever is appended, a log never moves backwards and only grows at its end.\<close>

lemma append_monotone:
  assumes "inv s" and "fits v" and "nxt s < cap" and "append off v s = (s', e)"
  shows "inv s' \<and> nxt s \<le> nxt s' \<and> (e = None \<longleftrightarrow> off \<le> nxt s) \<and> (e = None \<longrightarrow> off < nxt s')"
proof (cases off "nxt s" rule: linorder_cases)
  case less
  with replay [OF assms(1) less assms(4)] show ?thesis by simp
next
  case equal
  with at_end [OF assms(1-3)] assms(4) show ?thesis by auto
next
  case greater
  with gap [OF assms(1) greater assms(4)] show ?thesis by simp
qed

end

text \<open>
  A storage in an environment that answers one system call record per operation, as a follower
  sees it: the provider of the contract is \<open>AppendReplicated\<close> on one partition.
\<close>

type_synonym world = "Storage \<times> (nat \<Rightarrow> io)"

definition appendWorld ::
  "string \<Rightarrow> int \<Rightarrow> int \<Rightarrow> string \<Rightarrow> world \<Rightarrow> world \<times> append_error option" where
  "appendWorld t p off v w =
     (let (s', e) = AppendReplicated (snd w 0) t p off v (fst w) in ((s', \<lambda>n. snd w (Suc n)), e))"

definition world_ok :: "string \<Rightarrow> int \<Rightarrow> world \<Rightarrow> bool" where
  "world_ok t p w \<longleftrightarrow> durable (fst w) \<and> (\<forall>n. io_ok (snd w n)) \<and> plain_topic t \<and> recoverable t p \<and> 0 \<le> p"

lemma replicated_durable:
  assumes "durable s" "append_pre env t p v s" "recoverable t p"
    and "AppendReplicated env t p (nextAt s t p) v s = (s', e)"
  shows "durable s' \<and> e = None \<and> grown t p \<lparr>Offset = nextAt s t p, Value = v\<rparr> s s'"
proof -
  note g = replicated_grows [OF assms(2,4)]
  have "names_ok (disk s')"
    using names_ok_AppendReplicated [of s p env t "nextAt s t p" v] assms by (simp add: durable_def append_pre_def)
  with g durable_grown [OF assms(1)] assms(3) show ?thesis by blast
qed

lemma skipped_durable:
  assumes "durable s" and "placed t p" and "off \<noteq> nextAt s t p" and "AppendReplicated env t p off v s = (s', e)"
  shows "durable s' \<and> cachedMessages s' = cachedMessages s \<and> nextAt s' = nextAt s \<and> settings s' = settings s \<and>
    e = (if off < nextAt s t p then None else Some (NonContiguous (nextAt s t p) off))"
proof -
  have "storage_ok s" using assms(1) by (simp add: durable_def)
  note g = replicated_skips [OF this assms(2-4)]
  have "names_ok (disk s')"
    using names_ok_AppendReplicated [of s p env t off v] assms by (simp add: durable_def placed_def)
  with g assms(1) show ?thesis by (auto intro: durable_step [of s])
qed

lemma produced_durable:
  assumes "durable s" "append_pre env t p v s" "recoverable t p"
    and "ProduceToPartition env t p v s = (s', part, off)"
  shows "durable s' \<and> part = p \<and> off = nextAt s t p \<and> grown t p \<lparr>Offset = off, Value = v\<rparr> s s'"
proof -
  note g = produce_grows [OF assms(2,4)]
  have "names_ok (disk s')"
    using names_ok_Produce [of s p env t v] assms by (simp add: durable_def append_pre_def)
  with g durable_grown [OF assms(1)] assms(3) show ?thesis by blast
qed

interpretation replica: replica_log "world_ok t p" "\<lambda>w. cachedMessages (fst w) t p" "\<lambda>w. nextAt (fst w) t p"
    "appendWorld t p" value_ok "2 ^ 63 - 1" for t p
proof unfold_locales
  fix w v w' e
  assume w: "world_ok t p w" and v: "value_ok v" and n: "nextAt (fst w) t p < 2 ^ 63 - 1"
    and a: "appendWorld t p (nextAt (fst w) t p) v w = (w', e)"
  have pre: "append_pre (snd w 0) t p v (fst w)"
    using w v n by (simp add: append_pre_def world_ok_def durable_def)
  obtain s' where s': "AppendReplicated (snd w 0) t p (nextAt (fst w) t p) v (fst w) = (s', e)"
    and w': "w' = (s', \<lambda>n. snd w (Suc n))"
    using a by (auto simp: appendWorld_def split: prod.splits)
  from replicated_durable [OF _ pre _ s'] w show "world_ok t p w' \<and> e = None \<and>
      nextAt (fst w') t p = nextAt (fst w) t p + 1 \<and>
      (\<exists>k \<le> length (cachedMessages (fst w) t p). cachedMessages (fst w') t p =
        drop k (cachedMessages (fst w) t p @ [\<lparr>Offset = nextAt (fst w) t p, Value = v\<rparr>]))"
    by (auto simp: w' world_ok_def grown_def)
next
  fix w off v w' e
  assume w: "world_ok t p w" and n: "off < nextAt (fst w) t p" and a: "appendWorld t p off v w = (w', e)"
  then show "world_ok t p w' \<and> e = None \<and> nextAt (fst w') t p = nextAt (fst w) t p \<and>
      cachedMessages (fst w') t p = cachedMessages (fst w) t p"
    using skipped_durable [of "fst w" t p off "snd w 0" v]
    by (auto simp: appendWorld_def world_ok_def plain_placed split: prod.splits)
next
  fix w off v w' e
  assume w: "world_ok t p w" and n: "nextAt (fst w) t p < off" and a: "appendWorld t p off v w = (w', e)"
  then show "world_ok t p w' \<and> e = Some (NonContiguous (nextAt (fst w) t p) off) \<and>
      nextAt (fst w') t p = nextAt (fst w) t p \<and> cachedMessages (fst w') t p = cachedMessages (fst w) t p"
    using skipped_durable [of "fst w" t p off "snd w 0" v]
    by (auto simp: appendWorld_def world_ok_def plain_placed split: prod.splits)
qed

section \<open>Runs\<close>

type_synonym history = "string \<Rightarrow> int \<Rightarrow> string list"

definition record_value :: "string \<Rightarrow> int \<Rightarrow> string \<Rightarrow> history \<Rightarrow> history" where
  "record_value t p v H = (\<lambda>t' p'. if t' = t \<and> p' = p then H t' p' @ [v] else H t' p')"

inductive storage_run :: "history \<Rightarrow> Storage \<Rightarrow> bool" where
  start: "storage_run (\<lambda>_ _. []) (newStorageRecord cfg [])"
| produce: "storage_run H s \<Longrightarrow> io_ok env \<Longrightarrow> plain_topic t \<Longrightarrow> recoverable t p \<Longrightarrow> 0 \<le> p \<Longrightarrow> value_ok v \<Longrightarrow>
    int (length (H t p)) < 2 ^ 63 - 1 \<Longrightarrow> ProduceToPartition env t p v s = (s', part, off) \<Longrightarrow>
    storage_run (record_value t p v H) s'"
| replicate: "storage_run H s \<Longrightarrow> io_ok env \<Longrightarrow> plain_topic t \<Longrightarrow> recoverable t p \<Longrightarrow> 0 \<le> p \<Longrightarrow> value_ok v \<Longrightarrow>
    int (length (H t p)) < 2 ^ 63 - 1 \<Longrightarrow> AppendReplicated env t p off v s = (s', e) \<Longrightarrow>
    storage_run (if off = int (length (H t p)) then record_value t p v H else H) s'"
| restart: "storage_run H s \<Longrightarrow> io_ok env \<Longrightarrow> DataDir cfg = dataDir s \<Longrightarrow> storage_run H (NewStorage env cfg (disk s))"

definition keeps_history :: "history \<Rightarrow> Storage \<Rightarrow> bool" where
  "keeps_history H s \<longleftrightarrow>
     (\<forall>t p. plain_topic t \<longrightarrow> 0 \<le> p \<longrightarrow>
        nextAt s t p = int (length (H t p)) \<and>
        (\<exists>k. cachedMessages s t p = drop k (stamped 0 (H t p))) \<and>
        (H t p \<noteq> [] \<longrightarrow> cachedMessages s t p \<noteq> []))"

lemma keeps_history_grown:
  assumes H: "keeps_history H s" and g: "grown t p \<lparr>Offset = nextAt s t p, Value = v\<rparr> s s'"
    and pl: "plain_topic t" "0 \<le> p"
  shows "keeps_history (record_value t p v H) s'"
  unfolding keeps_history_def
proof (intro allI impI)
  fix t' p' assume pl': "plain_topic t'" "0 \<le> (p' :: int)"
  from H pl' obtain k where k: "cachedMessages s t' p' = drop k (stamped 0 (H t' p'))"
    and n: "nextAt s t' p' = int (length (H t' p'))" "H t' p' \<noteq> [] \<longrightarrow> cachedMessages s t' p' \<noteq> []"
    unfolding keeps_history_def by metis
  show "nextAt s' t' p' = int (length (record_value t p v H t' p')) \<and>
      (\<exists>k. cachedMessages s' t' p' = drop k (stamped 0 (record_value t p v H t' p'))) \<and>
      (record_value t p v H t' p' \<noteq> [] \<longrightarrow> cachedMessages s' t' p' \<noteq> [])"
  proof (cases "(t', p') = (t, p)")
    case True
    define k0 where "k0 = min k (length (H t p))"
    have k0: "cachedMessages s t p = drop k0 (stamped 0 (H t p))" "k0 \<le> length (H t p)"
      using k True by (auto simp: k0_def min_def)
    from g obtain j where j: "j \<le> length (cachedMessages s t p)"
        "cachedMessages s' t p = drop j (cachedMessages s t p @ [\<lparr>Offset = nextAt s t p, Value = v\<rparr>])"
      unfolding grown_def by blast
    then have "cachedMessages s' t p = drop (j + k0) (stamped 0 (H t p @ [v]))"
      using k0 n True by (simp add: stamped_snoc)
    moreover have "cachedMessages s' t p \<noteq> []" using j by simp
    ultimately show ?thesis using True g n by (auto simp: record_value_def grown_def)
  next
    case False
    with g pl' have "nextAt s' t' p' = nextAt s t' p'"
      "\<exists>k. cachedMessages s' t' p' = drop k (cachedMessages s t' p')"
      "cachedMessages s t' p' \<noteq> [] \<longrightarrow> cachedMessages s' t' p' \<noteq> []" unfolding grown_def by auto
    with k n False show ?thesis by (auto simp: record_value_def)
  qed
qed

lemma keeps_history_same:
  "keeps_history H s \<Longrightarrow> cachedMessages s' = cachedMessages s \<Longrightarrow> nextAt s' = nextAt s \<Longrightarrow> keeps_history H s'"
  by (simp add: keeps_history_def)

lemma keeps_history_restart:
  assumes H: "keeps_history H s" and io: "io_ok env" and d: "durable s" and dir: "DataDir cfg = dataDir s"
  shows "keeps_history H (NewStorage env cfg (disk s))"
  unfolding keeps_history_def
proof (intro allI impI)
  let ?l = "loadData env (newStorageRecord cfg (disk s))" and ?s' = "NewStorage env cfg (disk s)"
  fix t p assume pl: "plain_topic t" "0 \<le> (p :: int)"
  have r: "nextAt ?s' t p = nextAt ?l t p" "\<exists>k. cachedMessages ?s' t p = drop k (cachedMessages ?l t p)"
    "cachedMessages ?l t p \<noteq> [] \<longrightarrow> cachedMessages ?s' t p \<noteq> []"
    using NewStorage_durable(2) [OF io d dir] pl unfolding retained_def by auto
  note l = loadData_part(2,3) [OF io d dir pl]
  from H pl have "nextAt s t p = int (length (H t p))" "\<exists>k. cachedMessages s t p = drop k (stamped 0 (H t p))"
    "H t p \<noteq> [] \<longrightarrow> cachedMessages s t p \<noteq> []" unfolding keeps_history_def by auto
  with r show "nextAt ?s' t p = int (length (H t p)) \<and>
      (\<exists>k. cachedMessages ?s' t p = drop k (stamped 0 (H t p))) \<and>
      (H t p \<noteq> [] \<longrightarrow> cachedMessages ?s' t p \<noteq> [])"
    unfolding l by auto
qed

lemma storage_run_inv: "storage_run H s \<Longrightarrow> durable s \<and> keeps_history H s"
proof (induction rule: storage_run.induct)
  case (start cfg)
  show ?case
    using durable_empty by (simp add: keeps_history_def nextAt_def cachedMessages_def newStorageRecord_def mget2_def)
next
  case (produce H s env t p v s' part off)
  then have n: "nextAt s t p = int (length (H t p))" by (simp add: keeps_history_def)
  with produce have "append_pre env t p v s" by (simp add: append_pre_def durable_def)
  from produced_durable [OF _ this] produce show ?case using keeps_history_grown by metis
next
  case (replicate H s env t p v off s' e)
  then have n: "nextAt s t p = int (length (H t p))" by (simp add: keeps_history_def)
  with replicate have pre: "append_pre env t p v s" by (simp add: append_pre_def durable_def)
  show ?case
  proof (cases "off = int (length (H t p))")
    case True
    with replicated_durable [OF _ pre] replicate n have "durable s'"
      "grown t p \<lparr>Offset = nextAt s t p, Value = v\<rparr> s s'" "keeps_history H s" by auto
    with True replicate show ?thesis using keeps_history_grown by simp
  next
    case False
    with skipped_durable [of s t p off env v s' e] replicate n have "durable s'" "keeps_history H s"
      "cachedMessages s' = cachedMessages s" "nextAt s' = nextAt s" by (auto simp: plain_placed)
    with False show ?thesis using keeps_history_same by simp
  qed
next
  case (restart H s env cfg)
  then show ?case using NewStorage_durable(1) keeps_history_restart by blast
qed

section \<open>Reading\<close>

lemma drop_consecutive:
  assumes "consecutive next ms"
  shows "drop n ms = filter (\<lambda>m. next - int (length ms) + int n \<le> Offset m) ms"
proof -
  let ?P = "\<lambda>m. next - int (length ms) + int n \<le> Offset m"
  have off: "Offset (ms ! i) = next - int (length ms) + int i" if "i < length ms" for i
    using assms that by (simp add: consecutive_def)
  have "filter ?P (take n ms) = []"
    unfolding filter_empty_conv using off by (auto simp: in_set_conv_nth)
  moreover have "filter ?P (drop n ms) = drop n ms"
    unfolding filter_id_conv using off by (auto simp: in_set_conv_nth)
  ultimately show ?thesis by (metis append_take_drop_id filter_append self_append_conv2)
qed

lemma part_ok_consecutive: "part_ok s t p \<Longrightarrow> consecutive (nextAt s t p) (cachedMessages s t p)"
  by (auto simp: part_ok_def nextAt_def log_ok_def split: option.splits)

lemma part_ok_whole: "part_ok s t p \<Longrightarrow> segFiles s t p 0 \<noteq> None \<Longrightarrow> nextAt s t p = int (length (cachedMessages s t p))"
  by (auto simp: part_ok_def nextAt_def log_ok_def split: option.splits)

lemma Consume_drop: "0 \<le> off \<Longrightarrow> Consume t p off s = Some (drop (nat off) (cachedMessages s t p))"
  by (auto simp: Consume_def cachedMessages_def mget2_def split: option.splits)

lemma LastOffset_cached:
  "LastOffset t p s = (if cachedMessages s t p = [] then - 1 else Offset (last (cachedMessages s t p)))"
  by (auto simp: LastOffset_def cachedMessages_def mget2_def split: option.splits)

lemma LastOffset_next:
  assumes "part_ok s t p"
  shows "LastOffset t p s = nextAt s t p - 1"
proof (cases "cachedMessages s t p = []")
  case True
  with assms show ?thesis
    by (auto simp: LastOffset_cached part_ok_def nextAt_def log_ok_def split: option.splits)
next
  case False
  then have "length (cachedMessages s t p) - 1 < length (cachedMessages s t p)" by (cases "cachedMessages s t p") auto
  with part_ok_consecutive [OF assms] False show ?thesis
    by (simp add: LastOffset_cached last_conv_nth consecutive_def of_nat_diff Suc_leI)
qed

section \<open>Properties\<close>

definition quiet_io :: "int \<Rightarrow> io" where
  "quiet_io t = \<lparr>now = t, mkdirOK = True, readDirOK = True, statOK = (\<lambda>_. True), openOK = (\<lambda>_. True),
     writeCut = (\<lambda>_. None), syncOK = (\<lambda>_. True), removeOK = (\<lambda>_. True)\<rparr>"

definition sample_storage :: Storage where
  "sample_storage = newStorageRecord (defaultConfig (\<lambda>_. [])) []"

lemma quiet_io_ok: "int64_ok t \<Longrightarrow> io_ok (quiet_io t)"
  by (simp add: io_ok_def quiet_io_def)

lemma sample_next: "nextAt sample_storage t p = 0"
  and sample_cached: "cachedMessages sample_storage t p = []"
  by (simp_all add: nextAt_def sample_storage_def newStorageRecord_def mget2_def cachedMessages_def)

lemma sample_recoverable: "plain_topic ''orders''" "recoverable ''orders'' 0"
  by (simp_all add: plain_topic_def flat_name_def recoverable_def Contains_def HasPrefix_def HasSuffix_def int64_ok_def)

lemma sample_value_ok: "value_ok ''hello''"
  by (simp add: value_ok_def newline_def carriage_return_def max_line_def)

lemma sample_durable: "durable sample_storage"
  unfolding sample_storage_def by (rule durable_empty)

lemma sample_append_pre: "append_pre (quiet_io 0) ''orders'' 0 ''hello'' sample_storage"
  using sample_durable
  by (simp add: append_pre_def quiet_io_ok int64_ok_def sample_recoverable sample_value_ok sample_next durable_def)

text \<open>
  C17. A record appended by \<open>ProduceToPartition\<close> without system faults, to a topic without a slash, gets
  the next offset of its partition, stands at the end of the partition's log, and the invariant of the storage is kept:
  in every partition the cache is what the segment files hold, with consecutive offsets. Retention
  at the end of the operation may take records from the front of any log, but never the new one.
\<close>

theorem produce_appends:
  assumes "append_pre env t p v s"
  shows "case ProduceToPartition env t p v s of (s', part, off) \<Rightarrow>
    storage_ok s' \<and> part = p \<and> off = nextAt s t p \<and> nextAt s' t p = off + 1 \<and>
    (\<exists>k \<le> length (cachedMessages s t p).
       cachedMessages s' t p = drop k (cachedMessages s t p @ [\<lparr>Offset = off, Value = v\<rparr>])) \<and>
    (\<forall>t' p'. plain_topic t' \<longrightarrow> 0 \<le> p' \<longrightarrow> (t', p') \<noteq> (t, p) \<longrightarrow>
       nextAt s' t' p' = nextAt s t' p' \<and>
       (\<exists>k. cachedMessages s' t' p' = drop k (cachedMessages s t' p')))"
  using produce_grows [OF assms] unfolding grown_def by (auto split: prod.split)

theorem produce_appends_witness:
  "append_pre (quiet_io 0) ''orders'' 0 ''hello'' sample_storage \<and>
   (case ProduceToPartition (quiet_io 0) ''orders'' 0 ''hello'' sample_storage of (s', part, off) \<Rightarrow>
      storage_ok s' \<and> part = 0 \<and> off = 0 \<and>
      cachedMessages s' ''orders'' 0 = [\<lparr>Offset = 0, Value = ''hello''\<rparr>])"
  using produce_appends [OF sample_append_pre] sample_append_pre
  by (auto simp: sample_next sample_cached split: prod.splits)

text \<open>
  C18. \<open>AppendReplicated\<close> applies a leader's records in order and only in order. The record at the
  next offset is appended; a record already held is acknowledged and changes no log; a record
  beyond the next offset is refused with an error that names both offsets, and changes no log.
\<close>

theorem replicated_in_order:
  assumes "append_pre env t p v s"
  shows "case AppendReplicated env t p off v s of (s', e) \<Rightarrow>
    storage_ok s' \<and>
    (if off = nextAt s t p then
       e = None \<and> nextAt s' t p = off + 1 \<and>
       (\<exists>k \<le> length (cachedMessages s t p).
          cachedMessages s' t p = drop k (cachedMessages s t p @ [\<lparr>Offset = off, Value = v\<rparr>]))
     else cachedMessages s' = cachedMessages s \<and> nextAt s' = nextAt s \<and>
       e = (if off < nextAt s t p then None else Some (NonContiguous (nextAt s t p) off)))"
proof -
  obtain s' e where r: "AppendReplicated env t p off v s = (s', e)" by force
  have "storage_ok s" "placed t p" using assms by (auto simp: append_pre_def plain_placed)
  then show ?thesis
    using r replicated_grows [OF assms, of s' e] replicated_skips [of s t p off env v s' e]
    by (auto simp: grown_def)
qed

theorem replicated_in_order_witness:
  "append_pre (quiet_io 0) ''orders'' 0 ''hello'' sample_storage \<and>
   snd (AppendReplicated (quiet_io 0) ''orders'' 0 0 ''hello'' sample_storage) = None \<and>
   snd (AppendReplicated (quiet_io 0) ''orders'' 0 3 ''hello'' sample_storage) = Some (NonContiguous 0 3)"
  using replicated_in_order [OF sample_append_pre, of 0] replicated_in_order [OF sample_append_pre, of 3]
    sample_append_pre
  by (auto simp: sample_next split: prod.splits)

text \<open>
  C16. Restarting a broker loses nothing. From a storage whose topics have readable segment names
  and no slash, on the same data directory and without system faults, \<open>loadData\<close> on the files left
  behind gives back every log, record for record, and the next offsets; \<open>NewStorage\<close>, which then
  applies retention, keeps a suffix of each log, empty only if the log was.
\<close>

theorem restart_keeps_logs:
  assumes "io_ok env" and "durable s" and "DataDir cfg = dataDir s" and "plain_topic t" and "0 \<le> p"
  shows "cachedMessages (loadData env (newStorageRecord cfg (disk s))) t p = cachedMessages s t p \<and>
    nextAt (loadData env (newStorageRecord cfg (disk s))) t p = nextAt s t p \<and>
    durable (NewStorage env cfg (disk s)) \<and>
    nextAt (NewStorage env cfg (disk s)) t p = nextAt s t p \<and>
    (\<exists>k. cachedMessages (NewStorage env cfg (disk s)) t p = drop k (cachedMessages s t p)) \<and>
    (cachedMessages (NewStorage env cfg (disk s)) t p = [] \<longrightarrow> cachedMessages s t p = [])"
proof -
  note l = loadData_part [OF assms] and n = NewStorage_durable [OF assms(1-3)]
  from n(2) assms(4,5) l(2,3) show ?thesis
    unfolding retained_def using n(1) l(2,3) by metis
qed

lemma sample_produced:
  obtains s1 where "ProduceToPartition (quiet_io 0) ''orders'' 0 ''hello'' sample_storage = (s1, 0, 0)"
    and "durable s1" and "cachedMessages s1 ''orders'' 0 = [\<lparr>Offset = 0, Value = ''hello''\<rparr>]"
    and "nextAt s1 ''orders'' 0 = 1" and "settings s1 = settings sample_storage"
proof -
  obtain s1 part off where p: "ProduceToPartition (quiet_io 0) ''orders'' 0 ''hello'' sample_storage = (s1, part, off)"
    by (cases "ProduceToPartition (quiet_io 0) ''orders'' 0 ''hello'' sample_storage") auto
  from produced_durable [OF sample_durable sample_append_pre sample_recoverable(2) p] p show thesis
    by (intro that [of s1]) (auto simp: grown_def sample_next sample_cached)
qed

lemma sample_dir: "settings s = settings sample_storage \<Longrightarrow> DataDir (defaultConfig (\<lambda>_. [])) = dataDir s"
  by (drule dataDir_settings) (simp add: sample_storage_def newStorageRecord_def)

theorem restart_keeps_logs_witness:
  "durable (fst (ProduceToPartition (quiet_io 0) ''orders'' 0 ''hello'' sample_storage)) \<and>
   cachedMessages (loadData (quiet_io 1) (newStorageRecord (defaultConfig (\<lambda>_. []))
     (disk (fst (ProduceToPartition (quiet_io 0) ''orders'' 0 ''hello'' sample_storage))))) ''orders'' 0
   = [\<lparr>Offset = 0, Value = ''hello''\<rparr>]"
proof -
  obtain s1 where s1: "ProduceToPartition (quiet_io 0) ''orders'' 0 ''hello'' sample_storage = (s1, 0, 0)"
    "durable s1" "cachedMessages s1 ''orders'' 0 = [\<lparr>Offset = 0, Value = ''hello''\<rparr>]"
    "settings s1 = settings sample_storage"
    by (rule sample_produced)
  have "io_ok (quiet_io 1)" by (simp add: quiet_io_ok int64_ok_def)
  from restart_keeps_logs [OF this s1(2) sample_dir [OF s1(4)] sample_recoverable(1), of 0] s1 show ?thesis by simp
qed

text \<open>
  C15. Over a whole life of a storage, with appends, replicated appends and restarts in any order on
  topics without a slash, and no system call failing, the storage refines the history of the values
  appended to each partition: the next offset is the length of the history, the log kept is a suffix
  of it, every kept record carries the value the history has at its offset, the log of a partition
  that was written is not empty, and as long as retention has not deleted the first segment file the
  log is the whole history.
\<close>

theorem storage_refines_history:
  assumes "storage_run H s" and "plain_topic t" and "0 \<le> p"
  shows "nextAt s t p = int (length (H t p)) \<and>
    (\<exists>k. cachedMessages s t p = drop k (stamped 0 (H t p))) \<and>
    (H t p \<noteq> [] \<longrightarrow> cachedMessages s t p \<noteq> []) \<and>
    (map_of (disk s) (segmentPath (dataDir s) t p 0) \<noteq> None \<longrightarrow> cachedMessages s t p = stamped 0 (H t p)) \<and>
    (\<forall>m \<in> set (cachedMessages s t p).
       0 \<le> Offset m \<and> Offset m < nextAt s t p \<and> Value m = H t p ! nat (Offset m))"
proof -
  have k: "nextAt s t p = int (length (H t p))" "\<exists>k. cachedMessages s t p = drop k (stamped 0 (H t p))"
    "H t p \<noteq> [] \<longrightarrow> cachedMessages s t p \<noteq> []"
    using storage_run_inv [OF assms(1)] assms(2,3) unfolding keeps_history_def by auto
  have "0 \<le> Offset m \<and> Offset m < nextAt s t p \<and> Value m = H t p ! nat (Offset m)"
    if "m \<in> set (cachedMessages s t p)" for m
  proof -
    from k(2) that have "m \<in> set (stamped 0 (H t p))" by (metis in_set_dropD)
    then show ?thesis using k(1) by (auto simp: stamped_def)
  qed
  moreover have "cachedMessages s t p = stamped 0 (H t p)"
    if "map_of (disk s) (segmentPath (dataDir s) t p 0) \<noteq> None"
  proof -
    have "nextAt s t p = int (length (cachedMessages s t p))"
      using storage_run_inv [OF assms(1)] assms(2,3) that by (intro part_ok_whole durable_part_ok) (auto simp: segFiles_def)
    with k(1,2) show ?thesis by (metis drop_whole length_stamped of_nat_eq_iff)
  qed
  ultimately show ?thesis using k by blast
qed

lemma sample_run:
  "storage_run (record_value ''orders'' 0 ''hello'' (\<lambda>_ _. []))
     (NewStorage (quiet_io 1) (defaultConfig (\<lambda>_. []))
       (disk (fst (ProduceToPartition (quiet_io 0) ''orders'' 0 ''hello'' sample_storage))))"
proof -
  obtain s1 where s1: "ProduceToPartition (quiet_io 0) ''orders'' 0 ''hello'' sample_storage = (s1, 0, 0)"
    "settings s1 = settings sample_storage"
    by (rule sample_produced)
  have "storage_run (record_value ''orders'' 0 ''hello'' (\<lambda>_ _. [])) s1"
    by (rule storage_run.produce [OF storage_run.start [of "defaultConfig (\<lambda>_. [])"] _ _ _ _ _ _
          s1(1) [unfolded sample_storage_def]])
       (simp_all add: quiet_io_ok int64_ok_def sample_recoverable sample_value_ok)
  from storage_run.restart [OF this quiet_io_ok sample_dir [OF s1(2)], of 1] s1 show ?thesis by (simp add: int64_ok_def)
qed

theorem storage_refines_history_witness:
  "storage_run (record_value ''orders'' 0 ''hello'' (\<lambda>_ _. []))
     (NewStorage (quiet_io 1) (defaultConfig (\<lambda>_. []))
       (disk (fst (ProduceToPartition (quiet_io 0) ''orders'' 0 ''hello'' sample_storage)))) \<and>
   nextAt (NewStorage (quiet_io 1) (defaultConfig (\<lambda>_. []))
       (disk (fst (ProduceToPartition (quiet_io 0) ''orders'' 0 ''hello'' sample_storage)))) ''orders'' 0 = 1"
  using storage_refines_history [OF sample_run sample_recoverable(1), of 0] sample_run
  by (simp add: record_value_def)

text \<open>
  C36. The size policy leaves a partition either with a single segment or with no more bytes than
  \<open>RetentionMaxBytes\<close>, and it never removes the last record.
\<close>

theorem size_retention_bound:
  assumes "io_ok env" and "0 \<le> p" and "part_ok s t p" and "mget2 (partitionStates s) t p = Some st"
    and "0 < retentionMaxBytes s" and "logSize s t p (segments st) < 2 ^ 63"
  shows "\<exists>st'. mget2 (partitionStates (applySizeRetention env t p s)) t p = Some st' \<and>
    (length (segments st') \<le> 1 \<or>
     logSize (applySizeRetention env t p s) t p (segments st') \<le> retentionMaxBytes s) \<and>
    nextOffset st' = nextOffset st \<and>
    (cachedMessages s t p \<noteq> [] \<longrightarrow> cachedMessages (applySizeRetention env t p s) t p \<noteq> [])"
proof -
  have eq: "applySizeRetention env t p s = sizeLoop env t p (logSize s t p (segments st)) (segments st) s"
    using assms(4-6) fold_segmentSize [of 0 s t p "segments st"] by (simp add: applySizeRetention_def segmentSize_ok [OF assms(1)])
  let ?s' = "sizeLoop env t p (logSize s t p (segments st)) (segments st) s"
  obtain st' where st': "mget2 (partitionStates ?s') t p = Some st'"
      "length (segments st') \<le> 1 \<or> logSize ?s' t p (segments st') \<le> retentionMaxBytes s"
    using sizeLoop_bound [OF assms(1-4) refl refl assms(6)] by blast
  moreover have "trimmed t p s ?s'" by (rule sizeLoop_trimmed [OF assms(1-4) refl])
  ultimately have "nextOffset st' = nextOffset st"
    "cachedMessages s t p \<noteq> [] \<longrightarrow> cachedMessages ?s' t p \<noteq> []"
    using assms(4) unfolding trimmed_def by auto
  with st' show ?thesis unfolding eq by blast
qed

definition two_segments :: Storage where
  "two_segments = sample_storage
     \<lparr>data := [(''orders'', [(0, [\<lparr>Offset = 0, Value = ''a''\<rparr>, \<lparr>Offset = 1, Value = ''b''\<rparr>])])],
      partitionStates := [(''orders'', [(0, \<lparr>nextOffset = 2, activeSegmentID = 1, segments = [0, 1],
        lastFsyncAt = 0, pendingBytes = 0\<rparr>)])],
      disk := [(segmentPath (dataDir sample_storage) ''orders'' 0 0, \<lparr>content = formatLogLine 0 0 ''a'', modTime = 0\<rparr>),
               (segmentPath (dataDir sample_storage) ''orders'' 0 1, \<lparr>content = formatLogLine 1 0 ''b'', modTime = 0\<rparr>)],
      retentionMaxBytes := 20\<rparr>"

lemma two_segments_files:
  "segFiles two_segments ''orders'' 0 =
     [0 \<mapsto> \<lparr>content = formatLogLine 0 0 ''a'', modTime = 0\<rparr>, 1 \<mapsto> \<lparr>content = formatLogLine 1 0 ''b'', modTime = 0\<rparr>]"
  by (auto simp: segFiles_def two_segments_def fun_eq_iff segmentPath_inj)

lemma one_line_file:
  assumes "value_ok v" "int64_ok off" "int64_ok ts"
  shows "file_records (Some \<lparr>content = formatLogLine off ts v, modTime = mt\<rparr>) = [\<lparr>Offset = off, Value = v\<rparr>]"
    and "lines_fit (formatLogLine off ts v)" and "length (formatLogLine off ts v) \<le> 65536"
  using file_records_append [of None, OF _ assms, of "\<lparr>content = formatLogLine off ts v, modTime = mt\<rparr>" mt]
    log_line_fits(2) [OF assms]
  by (simp_all add: file_records_def formatLogLine_line max_line_def)

lemma two_segments_ok: "part_ok two_segments ''orders'' 0"
proof -
  have v: "value_ok ''a''" "value_ok ''b''" and i: "int64_ok 0" "int64_ok 1" "int64_ok 2"
    by (simp_all add: value_ok_def newline_def carriage_return_def max_line_def int64_ok_def)
  have c: "cachedMessages two_segments ''orders'' 0 = [\<lparr>Offset = 0, Value = ''a''\<rparr>, \<lparr>Offset = 1, Value = ''b''\<rparr>]"
    by (simp add: cachedMessages_def two_segments_def mget2_def)
  have m: "mget2 (partitionStates two_segments) ''orders'' 0 = Some \<lparr>nextOffset = 2, activeSegmentID = 1,
      segments = [0, 1], lastFsyncAt = 0, pendingBytes = 0\<rparr>"
    by (simp add: two_segments_def mget2_def)
  have cons: "consecutive 2 [\<lparr>Offset = 0, Value = ''a''\<rparr>, \<lparr>Offset = 1, Value = ''b''\<rparr>]"
    by (auto simp: consecutive_def less_Suc_eq)
  show ?thesis
    unfolding part_ok_def m c two_segments_files
    using one_line_file [OF v(1) i(1) i(1)] one_line_file [OF v(2) i(2) i(1)] cons i
    by (auto simp: log_ok_def ran_def split: if_splits)
qed

theorem size_retention_bound_witness:
  "\<exists>st'. mget2 (partitionStates (applySizeRetention (quiet_io 1) ''orders'' 0 two_segments)) ''orders'' 0 = Some st' \<and>
    (length (segments st') \<le> 1 \<or>
     logSize (applySizeRetention (quiet_io 1) ''orders'' 0 two_segments) ''orders'' 0 (segments st') \<le> 20) \<and>
    nextOffset st' = 2 \<and>
    cachedMessages (applySizeRetention (quiet_io 1) ''orders'' 0 two_segments) ''orders'' 0 \<noteq> []"
proof -
  have m: "mget2 (partitionStates two_segments) ''orders'' 0 = Some \<lparr>nextOffset = 2, activeSegmentID = 1,
      segments = [0, 1], lastFsyncAt = 0, pendingBytes = 0\<rparr>"
    by (simp add: two_segments_def mget2_def)
  have "length (formatLogLine 0 0 ''a'') \<le> 65536" "length (formatLogLine 1 0 ''b'') \<le> 65536"
    by (rule one_line_file(3); simp add: value_ok_def newline_def carriage_return_def max_line_def int64_ok_def)+
  then have sz: "logSize two_segments ''orders'' 0 [0, 1] < 2 ^ 63"
    by (simp add: logSize_def fileSize_def two_segments_files)
  have "cachedMessages two_segments ''orders'' 0 \<noteq> []" "retentionMaxBytes two_segments = 20"
    by (simp_all add: cachedMessages_def two_segments_def mget2_def)
  with size_retention_bound [OF quiet_io_ok _ two_segments_ok m, of 1] sz show ?thesis
    by (simp add: int64_ok_def)
qed

text \<open>
  What \<open>Consume\<close> returns. It treats the requested offset as an index into the records that are
  left: a request for \<open>off \<ge> 0\<close> yields the kept records whose offset is at least \<open>off\<close> plus the
  number of records retention has removed. As long as nothing was removed these are exactly the
  records from \<open>off\<close> on.
\<close>

theorem consume_by_index:
  assumes "part_ok s t p" and "0 \<le> off"
  shows "Consume t p off s = Some (filter
      (\<lambda>m. off + (nextAt s t p - int (length (cachedMessages s t p))) \<le> Offset m) (cachedMessages s t p)) \<and>
    (nextAt s t p = int (length (cachedMessages s t p)) \<longrightarrow>
     Consume t p off s = Some (filter (\<lambda>m. off \<le> Offset m) (cachedMessages s t p)))"
  using drop_consecutive [OF part_ok_consecutive [OF assms(1)], of "nat off"] assms(2)
  by (simp add: Consume_drop add.commute)

theorem consume_by_index_witness:
  "part_ok two_segments ''orders'' 0 \<and>
   Consume ''orders'' 0 1 two_segments = Some [\<lparr>Offset = 1, Value = ''b''\<rparr>]"
  using consume_by_index [OF two_segments_ok, of 1] two_segments_ok
  by (simp add: cachedMessages_def nextAt_def two_segments_def mget2_def)


definition one_segment_left :: Storage where
  "one_segment_left = sample_storage
     \<lparr>data := [(''orders'', [(0, [\<lparr>Offset = 1, Value = ''b''\<rparr>])])],
      partitionStates := [(''orders'', [(0, \<lparr>nextOffset = 2, activeSegmentID = 1, segments = [1],
        lastFsyncAt = 0, pendingBytes = 0\<rparr>)])],
      disk := [(segmentPath (dataDir sample_storage) ''orders'' 0 1, \<lparr>content = formatLogLine 1 0 ''b'', modTime = 0\<rparr>)]\<rparr>"


text \<open>A negative offset makes \<open>Consume\<close> panic on every partition that holds a record.\<close>

lemma consume_negative_panics:
  "cachedMessages s t p \<noteq> [] \<Longrightarrow> off < 0 \<Longrightarrow> Consume t p off s = None"
  by (auto simp: Consume_def cachedMessages_def mget2_def split: option.splits bind_splits)

end
