(* ===== verification/Worker.thy ===== *)
theory Worker
  imports Storage_Runs
begin

text \<open>
  \<open>replication/worker.go\<close>: one replication cycle of a follower, fetch, apply, acknowledge.

  The interfaces \<open>Transport\<close> and \<open>ReplicaStorage\<close> are arguments of \<open>StepOnce\<close>: \<open>fetch\<close> and \<open>ack\<close>
  act on the state of the network, \<open>apply\<close> on the follower's store. The contract the worker
  relies on is the locale \<open>replica_log\<close>; the lemmas of the cycle are proved in it and reach the
  broker's storage through its interpretation.
\<close>

section \<open>Data and operations\<close>

record ReplicationRecord =
  recOffset :: int
  recValue :: string

record FetchResult =
  fetchHighWatermark :: int
  fetchRecords :: "ReplicationRecord list"

record WorkerConfig =
  cfgFollowerID :: int
  cfgTopic :: string
  cfgPartition :: int
  cfgStartOffset :: int
  cfgMaxBatch :: int

record FollowerWorker =
  wFollowerID :: int
  wTopic :: string
  wPartition :: int
  wNextOffset :: int
  wMaxBatch :: int

datatype step_error =
  FetchFailed string
| ReplicationGap int int
| ApplyFailed append_error
| AckFailed string

definition NewFollowerWorker :: "WorkerConfig \<Rightarrow> bool \<Rightarrow> bool \<Rightarrow> FollowerWorker result" where
  "NewFollowerWorker cfg transport store =
     (if \<not> transport then Inl ''transport is required''
      else if \<not> store then Inl ''storage is required''
      else if cfgFollowerID cfg \<le> 0 then Inl ''follower id must be > 0''
      else if cfgTopic cfg = [] then Inl ''topic is required''
      else if cfgPartition cfg < 0 then Inl ''partition must be >= 0''
      else if cfgStartOffset cfg < 0 then Inl ''start offset must be >= 0''
      else
        let maxBatch = (if cfgMaxBatch cfg \<le> 0 then 100 else cfgMaxBatch cfg)
        in Inr \<lparr>wFollowerID = cfgFollowerID cfg, wTopic = cfgTopic cfg, wPartition = cfgPartition cfg,
                wNextOffset = cfgStartOffset cfg, wMaxBatch = maxBatch\<rparr>)"

text \<open>The loop over the fetched records; \<open>applied\<close> and \<open>last\<close> are the loop's local variables.\<close>

fun applyRecords ::
  "(string \<Rightarrow> int \<Rightarrow> int \<Rightarrow> string \<Rightarrow> 's \<Rightarrow> 's \<times> append_error option) \<Rightarrow> ReplicationRecord list \<Rightarrow>
   FollowerWorker \<Rightarrow> 's \<Rightarrow> int \<Rightarrow> int \<Rightarrow> FollowerWorker \<times> 's \<times> int \<times> int \<times> step_error option" where
  "applyRecords app [] w s applied lastApplied = (w, s, applied, lastApplied, None)"
| "applyRecords app (r # rs) w s applied lastApplied =
     (if recOffset r \<noteq> wNextOffset w
      then (w, s, applied, lastApplied, Some (ReplicationGap (wNextOffset w) (recOffset r)))
      else case app (wTopic w) (wPartition w) (recOffset r) (recValue r) s of
        (s', Some e) \<Rightarrow> (w, s', applied, lastApplied, Some (ApplyFailed e))
      | (s', None) \<Rightarrow>
          applyRecords app rs (w\<lparr>wNextOffset := iadd (wNextOffset w) 1\<rparr>) s' (iadd applied 1) (recOffset r))"

definition StepOnce ::
  "(string \<Rightarrow> int \<Rightarrow> int \<Rightarrow> int \<Rightarrow> int \<Rightarrow> 'n \<Rightarrow> 'n \<times> FetchResult result) \<Rightarrow>
   (string \<Rightarrow> int \<Rightarrow> int \<Rightarrow> int \<Rightarrow> 'n \<Rightarrow> 'n \<times> string option) \<Rightarrow>
   (string \<Rightarrow> int \<Rightarrow> int \<Rightarrow> string \<Rightarrow> 's \<Rightarrow> 's \<times> append_error option) \<Rightarrow>
   FollowerWorker \<Rightarrow> 'n \<Rightarrow> 's \<Rightarrow> FollowerWorker \<times> 'n \<times> 's \<times> int \<times> step_error option" where
  "StepOnce fetch ack app w net s =
     (case fetch (wTopic w) (wPartition w) (wFollowerID w) (wNextOffset w) (wMaxBatch w) net of
        (net1, Inl e) \<Rightarrow> (w, net1, s, 0, Some (FetchFailed e))
      | (net1, Inr res) \<Rightarrow>
          if fetchRecords res = [] then (w, net1, s, 0, None)
          else case applyRecords app (fetchRecords res) w s 0 (- 1) of
            (w1, s1, applied, lastApplied, Some e) \<Rightarrow> (w1, net1, s1, applied, Some e)
          | (w1, s1, applied, lastApplied, None) \<Rightarrow>
              if lastApplied \<ge> 0 then
                (case ack (wTopic w1) (wPartition w1) (wFollowerID w1) lastApplied net1 of
                   (net2, Some e) \<Rightarrow> (w1, net2, s1, applied, Some (AckFailed e))
                 | (net2, None) \<Rightarrow> (w1, net2, s1, applied, None))
              else (w1, net1, s1, applied, None))"

definition NextOffset :: "FollowerWorker \<Rightarrow> int" where
  "NextOffset w = wNextOffset w"

section \<open>Applying a batch\<close>

text \<open>The records of a batch that continue the worker's offset, up to the first that does not.\<close>

fun goodPrefix :: "int \<Rightarrow> ReplicationRecord list \<Rightarrow> ReplicationRecord list" where
  "goodPrefix off [] = []"
| "goodPrefix off (r # rs) = (if recOffset r = off then r # goodPrefix (off + 1) rs else [])"

lemma goodPrefix_le: "length (goodPrefix off rs) \<le> length rs"
  by (induction rs arbitrary: off) auto

lemma set_goodPrefix: "set (goodPrefix off rs) \<subseteq> set rs"
  by (induction rs arbitrary: off) auto

lemma drop_drop_append: "\<exists>j. drop i (drop k xs @ ys) = drop j (xs @ ys)"
proof -
  have "drop k xs = drop (min k (length xs)) xs" by (simp add: min_def)
  then have "drop i (drop k xs @ ys) = drop (i + min k (length xs)) (xs @ ys)" by simp
  then show ?thesis ..
qed

definition batchError :: "int \<Rightarrow> ReplicationRecord list \<Rightarrow> step_error option" where
  "batchError off rs =
     (let n = length (goodPrefix off rs)
      in if n = length rs then None else Some (ReplicationGap (off + int n) (recOffset (rs ! n))))"

lemma batchError_simps:
  "batchError off [] = None"
  "batchError off (r # rs) =
     (if recOffset r = off then batchError (off + 1) rs else Some (ReplicationGap off (recOffset r)))"
  by (auto simp: batchError_def Let_def)

lemma goodPrefix_full: "goodPrefix off rs = rs \<longleftrightarrow> batchError off rs = None"
  by (induction rs arbitrary: off) (auto simp: batchError_simps)

context replica_log
begin

text \<open>What applying a batch does to worker and store, for a worker that is not ahead of its store.\<close>

definition batch_effect ::
  "ReplicationRecord list \<Rightarrow> FollowerWorker \<Rightarrow> 's \<Rightarrow> int \<Rightarrow> int \<Rightarrow>
   FollowerWorker \<times> 's \<times> int \<times> int \<times> step_error option \<Rightarrow> bool" where
  "batch_effect rs w s applied lst r \<longleftrightarrow>
     (let good = goodPrefix (wNextOffset w) rs;
          fresh = drop (nat (nxt s - wNextOffset w)) (map recValue good)
      in case r of (w', s', applied', last', e) \<Rightarrow>
           w' = w\<lparr>wNextOffset := wNextOffset w + int (length good)\<rparr> \<and> inv s' \<and>
           nxt s' = nxt s + int (length fresh) \<and> wNextOffset w' \<le> nxt s' \<and>
           (\<exists>k. log s' = drop k (log s @ stamped (nxt s) fresh)) \<and>
           applied' = applied + int (length good) \<and>
           last' = (if good = [] then lst else wNextOffset w' - 1) \<and>
           e = batchError (wNextOffset w) rs)"

text \<open>One record at an offset that is not beyond the end: appended there, ignored before it.\<close>

lemma append_effect:
  assumes "inv s" "off \<le> nxt s" "fits v" "nxt s < cap" "append off v s = (s1, e)"
  defines "new \<equiv> if off = nxt s then [v] else []"
  shows "inv s1" "e = None" "nxt s1 = nxt s + int (length new)"
    and "\<exists>k. log s1 = drop k (log s @ stamped (nxt s) new)"
proof -
  have "inv s1 \<and> e = None \<and> nxt s1 = nxt s + int (length new) \<and> (\<exists>k. log s1 = drop k (log s @ stamped (nxt s) new))"
  proof (cases "off = nxt s")
    case True
    from at_end [OF assms(1,3,4)] assms(5) True show ?thesis by (auto simp: new_def stamped_Cons)
  next
    case False
    with assms(2) have "off < nxt s" by simp
    from replay [OF assms(1) this assms(5)] False show ?thesis by (auto simp: new_def intro: exI [of _ 0])
  qed
  then show "inv s1" "e = None" "nxt s1 = nxt s + int (length new)"
    "\<exists>k. log s1 = drop k (log s @ stamped (nxt s) new)" by auto
qed

text \<open>The effect of a batch is that of its first record followed by that of the others.\<close>

lemma batch_effect_Cons:
  assumes r: "recOffset r = wNextOffset w" and le: "wNextOffset w \<le> nxt s"
    and new: "new = (if wNextOffset w = nxt s then [recValue r] else [])" and nx: "nxt s1 = nxt s + int (length new)"
    and lg: "\<exists>k. log s1 = drop k (log s @ stamped (nxt s) new)"
    and rest: "batch_effect rs (w\<lparr>wNextOffset := wNextOffset w + 1\<rparr>) s1 (applied + 1) (wNextOffset w) res"
  shows "batch_effect (r # rs) w s applied lst res"
proof -
  define good where "good = goodPrefix (wNextOffset w + 1) rs"
  define fresh where "fresh = drop (nat (nxt s1 - (wNextOffset w + 1))) (map recValue good)"
  have good: "goodPrefix (wNextOffset w) (r # rs) = r # good" using r by (simp add: good_def)
  have fr: "drop (nat (nxt s - wNextOffset w)) (map recValue (r # good)) = new @ fresh"
  proof (cases "wNextOffset w = nxt s")
    case False
    with le have "nat (nxt s - wNextOffset w) = Suc (nat (nxt s - (wNextOffset w + 1)))" by simp
    with False show ?thesis by (simp add: new nx fresh_def)
  qed (simp add: new nx fresh_def)
  obtain w' s' applied' last' e' where res: "res = (w', s', applied', last', e')" by (metis prod_cases5)
  from lg obtain k where k: "log s1 = drop k (log s @ stamped (nxt s) new)" ..
  from rest obtain i where i: "log s' = drop i (log s1 @ stamped (nxt s1) fresh)"
    by (auto simp: batch_effect_def Let_def res good_def fresh_def)
  have "stamped (nxt s) (new @ fresh) = stamped (nxt s) new @ stamped (nxt s1) fresh"
    by (simp add: new nx stamped_Cons)
  then have lg': "\<exists>j. log s' = drop j (log s @ stamped (nxt s) (new @ fresh))"
    using drop_drop_append [of i k "log s @ stamped (nxt s) new"] i k by simp
  from rest have b: "w' = w\<lparr>wNextOffset := wNextOffset w + 1 + int (length good)\<rparr>" "inv s'"
    "nxt s' = nxt s1 + int (length fresh)" "applied' = applied + 1 + int (length good)"
    "last' = (if good = [] then wNextOffset w else wNextOffset w' - 1)" "e' = batchError (wNextOffset w + 1) rs"
    unfolding batch_effect_def Let_def res by (simp_all add: good_def fresh_def)
  from rest have le': "wNextOffset w' \<le> nxt s'" unfolding batch_effect_def Let_def res prod.case by (elim conjE)
  have "w' = w\<lparr>wNextOffset := wNextOffset w + int (length (r # good))\<rparr>" using b(1) by (simp add: algebra_simps)
  moreover have "nxt s' = nxt s + int (length (new @ fresh))" using b(3) nx by simp
  moreover have "last' = (if r # good = [] then lst else wNextOffset w' - 1)" using b(1,5) by simp
  moreover have "e' = batchError (wNextOffset w) (r # rs)" using b(6) r by (simp add: batchError_simps)
  ultimately show ?thesis
    unfolding batch_effect_def res Let_def good fr prod.case using b(2,4) le' lg' by simp
qed

lemma applyRecords_effect:
  assumes "inv s" and "0 \<le> wNextOffset w" and "wNextOffset w \<le> nxt s" and "\<forall>r \<in> set rs. fits (recValue r)"
    and "nxt s + int (length rs) \<le> cap" and "cap < 2 ^ 63" and "0 \<le> applied" and "applied + int (length rs) < 2 ^ 63"
  shows "batch_effect rs w s applied lst (applyRecords (\<lambda>_ _. append) rs w s applied lst)"
  using assms
proof (induction rs arbitrary: w s applied lst)
  case Nil
  then show ?case by (auto simp: batch_effect_def batchError_simps intro: exI [of _ 0])
next
  case (Cons r rs)
  show ?case
  proof (cases "recOffset r = wNextOffset w")
    case False
    with Cons.prems show ?thesis by (auto simp: batch_effect_def batchError_simps intro: exI [of _ 0])
  next
    case True
    obtain s1 e where a: "append (wNextOffset w) (recValue r) s = (s1, e)" by force
    let ?w1 = "w\<lparr>wNextOffset := wNextOffset w + 1\<rparr>"
    have bump: "iadd (wNextOffset w) 1 = wNextOffset w + 1" "iadd applied 1 = applied + 1"
      using Cons.prems by (intro iadd_id; simp add: int64_ok_def)+
    have "fits (recValue r)" "nxt s < cap" using Cons.prems by auto
    note one = append_effect [OF Cons.prems(1,3) this a]
    have "batch_effect rs ?w1 s1 (applied + 1) (wNextOffset w) (applyRecords (\<lambda>_ _. append) rs ?w1 s1 (applied + 1) (wNextOffset w))"
      using one(1,3) Cons.prems by (intro Cons.IH) (auto split: if_splits)
    from batch_effect_Cons [OF True Cons.prems(3) refl one(3,4) this] show ?thesis
      using True a one(2) bump by simp
  qed
qed

text \<open>A whole cycle: what was fetched is applied, and the last applied offset is acknowledged.\<close>

lemma StepOnce_effect:
  assumes ok: "inv s" "0 \<le> wNextOffset w" "wNextOffset w \<le> nxt s" "cap < 2 ^ 63"
    and fetch: "fetch (wTopic w) (wPartition w) (wFollowerID w) (wNextOffset w) (wMaxBatch w) net = (net1, Inr res)"
    and fit: "\<forall>r \<in> set (fetchRecords res). fits (recValue r)" "nxt s + int (length (fetchRecords res)) \<le> cap"
    and step: "StepOnce fetch ack (\<lambda>_ _. append) w net s = (w', net', s', applied, e)"
  defines "good \<equiv> goodPrefix (wNextOffset w) (fetchRecords res)"
  defines "fresh \<equiv> drop (nat (nxt s - wNextOffset w)) (map recValue good)"
  shows "inv s' \<and> w' = w\<lparr>wNextOffset := wNextOffset w + int (length good)\<rparr> \<and> applied = int (length good) \<and>
    nxt s' = nxt s + int (length fresh) \<and> wNextOffset w' \<le> nxt s' \<and>
    (\<exists>k. log s' = drop k (log s @ stamped (nxt s) fresh)) \<and>
    (if good = fetchRecords res \<and> good \<noteq> []
     then (net', e) = map_prod id (map_option AckFailed) (ack (wTopic w) (wPartition w) (wFollowerID w) (wNextOffset w' - 1) net1)
     else net' = net1 \<and> e = batchError (wNextOffset w) (fetchRecords res))"
proof (cases "fetchRecords res = []")
  case True
  with step fetch ok(1,3) show ?thesis
    by (auto simp: StepOnce_def good_def fresh_def batchError_simps intro: exI [of _ 0])
next
  case False
  obtain w1 s1 ap lst e1 where r: "applyRecords (\<lambda>_ _. append) (fetchRecords res) w s 0 (- 1) = (w1, s1, ap, lst, e1)"
    by (metis prod_cases5)
  have "int (length (fetchRecords res)) < 2 ^ 63" using ok fit(2) by simp
  then have "batch_effect (fetchRecords res) w s 0 (- 1) (w1, s1, ap, lst, e1)"
    using applyRecords_effect [OF ok(1-3) fit ok(4), of 0 "- 1"] unfolding r by simp
  then have b: "w1 = w\<lparr>wNextOffset := wNextOffset w + int (length good)\<rparr>" "inv s1" "nxt s1 = nxt s + int (length fresh)"
    "\<exists>k. log s1 = drop k (log s @ stamped (nxt s) fresh)" "ap = int (length good)"
    "lst = (if good = [] then - 1 else wNextOffset w1 - 1)" "e1 = batchError (wNextOffset w) (fetchRecords res)"
    and le: "wNextOffset w1 \<le> nxt s1"
    unfolding batch_effect_def Let_def prod.case good_def [symmetric] fresh_def [symmetric] add_0_left
    by blast+
  have full: "good = fetchRecords res \<longleftrightarrow> e1 = None" unfolding good_def b(7) by (rule goodPrefix_full)
  show ?thesis
  proof (cases e1)
    case None
    with full False have g: "good = fetchRecords res" "good \<noteq> []" by auto
    then have "0 < int (length good)" by simp
    moreover have "lst = wNextOffset w + int (length good) - 1" using b(1,6) g(2) by simp
    ultimately have "0 \<le> lst" using ok(2) by linarith
    obtain net2 ea where a: "ack (wTopic w) (wPartition w) (wFollowerID w) lst net1 = (net2, ea)" by force
    with step fetch False r None \<open>0 \<le> lst\<close> b(1) have "w' = w1" "s' = s1" "applied = ap" "net' = net2"
      "e = map_option AckFailed ea"
      by (auto simp: StepOnce_def split: option.splits)
    with b le g a show ?thesis by simp
  next
    case (Some x)
    with full have "good \<noteq> fetchRecords res" by simp
    moreover from step fetch False r Some have "w' = w1" "s' = s1" "applied = ap" "net' = net1" "e = e1"
      by (auto simp: StepOnce_def)
    ultimately show ?thesis using b le by simp
  qed
qed

end

section \<open>Cycles on the broker's storage\<close>

lemma applyRecords_topic:
  "applyRecords app rs w s applied lst = applyRecords (\<lambda>_ _. app (wTopic w) (wPartition w)) rs w s applied lst"
proof (induction rs arbitrary: w s applied lst)
  case (Cons r rs)
  have "app (wTopic w) (wPartition w) = app (wTopic (w\<lparr>wNextOffset := n\<rparr>)) (wPartition (w\<lparr>wNextOffset := n\<rparr>))" for n
    by simp
  then show ?case using Cons.IH [of "w\<lparr>wNextOffset := iadd (wNextOffset w) 1\<rparr>"]
    by (simp split: prod.split option.split)
qed simp

lemma StepOnce_topic:
  "StepOnce fetch ack app w net s = StepOnce fetch ack (\<lambda>_ _. app (wTopic w) (wPartition w)) w net s"
  unfolding StepOnce_def using applyRecords_topic [of app _ w s 0 "- 1"]
  by (auto split: prod.split sum.split)

text \<open>
  C19. One replication cycle of a follower that is not ahead of its own store. From the fetched batch
  it takes the records that continue its offset, up to the first that does not; those its store
  already has are skipped, the others are appended in order at the store's end. The worker's
  offset advances by the number of records taken and stays at or below the store's. A batch with a
  gap is reported as an error and not acknowledged; a complete batch is acknowledged with the
  offset of its last record.
\<close>

theorem step_once_applies:
  assumes "world_ok (wTopic w) (wPartition w) s" and "0 \<le> wNextOffset w"
    and "wNextOffset w \<le> nextAt (fst s) (wTopic w) (wPartition w)"
    and "fetch (wTopic w) (wPartition w) (wFollowerID w) (wNextOffset w) (wMaxBatch w) net = (net1, Inr res)"
    and "\<forall>r \<in> set (fetchRecords res). value_ok (recValue r)"
    and "nextAt (fst s) (wTopic w) (wPartition w) + int (length (fetchRecords res)) \<le> 2 ^ 63 - 1"
    and "StepOnce fetch ack appendWorld w net s = (w', net', s', applied, e)"
    and "good = goodPrefix (wNextOffset w) (fetchRecords res)"
    and "fresh = drop (nat (nextAt (fst s) (wTopic w) (wPartition w) - wNextOffset w)) (map recValue good)"
  shows "world_ok (wTopic w) (wPartition w) s' \<and>
    w' = w\<lparr>wNextOffset := wNextOffset w + int (length good)\<rparr> \<and> applied = int (length good) \<and>
    nextAt (fst s') (wTopic w) (wPartition w) = nextAt (fst s) (wTopic w) (wPartition w) + int (length fresh) \<and>
    wNextOffset w' \<le> nextAt (fst s') (wTopic w) (wPartition w) \<and>
    (\<exists>k. cachedMessages (fst s') (wTopic w) (wPartition w) = drop k (cachedMessages (fst s) (wTopic w) (wPartition w)
       @ stamped (nextAt (fst s) (wTopic w) (wPartition w)) fresh)) \<and>
    (if good = fetchRecords res \<and> good \<noteq> []
     then (net', e) = map_prod id (map_option AckFailed) (ack (wTopic w) (wPartition w) (wFollowerID w) (wNextOffset w' - 1) net1)
     else net' = net1 \<and> e = batchError (wNextOffset w) (fetchRecords res))"
  unfolding assms(8,9)
  by (rule replica.StepOnce_effect [OF assms(1-3) _ assms(4-6) assms(7) [unfolded StepOnce_topic [of _ _ appendWorld]]]) simp

definition sample_worker :: FollowerWorker where
  "sample_worker = \<lparr>wFollowerID = 1, wTopic = ''orders'', wPartition = 0, wNextOffset = 0, wMaxBatch = 100\<rparr>"

definition sample_fetch :: "string \<Rightarrow> int \<Rightarrow> int \<Rightarrow> int \<Rightarrow> int \<Rightarrow> int list \<Rightarrow> int list \<times> FetchResult result" where
  "sample_fetch t p i off n net = (net, Inr \<lparr>fetchHighWatermark = 0,
     fetchRecords = [\<lparr>recOffset = 0, recValue = ''hello''\<rparr>, \<lparr>recOffset = 7, recValue = ''hello''\<rparr>]\<rparr>)"

definition sample_ack :: "string \<Rightarrow> int \<Rightarrow> int \<Rightarrow> int \<Rightarrow> int list \<Rightarrow> int list \<times> string option" where
  "sample_ack t p i off net = (net @ [off], None)"

theorem step_once_applies_witness:
  "case StepOnce sample_fetch sample_ack appendWorld sample_worker [] (sample_storage, \<lambda>_. quiet_io 0) of
     (w', net', s', applied, e) \<Rightarrow>
       applied = 1 \<and> wNextOffset w' = 1 \<and> net' = [] \<and> e = Some (ReplicationGap 1 7) \<and>
       nextAt (fst s') ''orders'' 0 = 1"
proof -
  let ?s = "(sample_storage, \<lambda>_. quiet_io 0)"
  let ?res = "\<lparr>fetchHighWatermark = 0,
     fetchRecords = [\<lparr>recOffset = 0, recValue = ''hello''\<rparr>, \<lparr>recOffset = 7, recValue = ''hello''\<rparr>]\<rparr>"
  obtain w' net' s' applied e where step: "StepOnce sample_fetch sample_ack appendWorld sample_worker [] ?s
      = (w', net', s', applied, e)" by (metis prod_cases5)
  have "world_ok (wTopic sample_worker) (wPartition sample_worker) ?s"
    using sample_durable sample_recoverable
    by (simp add: world_ok_def sample_worker_def int64_ok_def quiet_io_ok)
  moreover have "sample_fetch (wTopic sample_worker) (wPartition sample_worker) (wFollowerID sample_worker)
      (wNextOffset sample_worker) (wMaxBatch sample_worker) [] = ([], Inr ?res)" by (simp add: sample_fetch_def)
  ultimately show ?thesis
    using step_once_applies [OF _ _ _ _ _ _ step refl refl, of "[]" ?res] sample_value_ok
    unfolding step by (simp add: sample_worker_def sample_next batchError_simps)
qed

end
