(* ===== verification/Transport.thy ===== *)
theory Transport
  imports Worker Protocol
begin

text \<open>
  \<open>replication/tcp_transport.go\<close>: the follower's side of the inter-broker protocol, and the payload
  of the leader's answer to \<open>BROKER_FETCH\<close> (\<open>network/handler.go\<close>).

  Opening a connection, sending one line and reading one line is the argument \<open>rpc\<close>, which acts on
  the state of the network and yields the line read, with its line end, or the text of an error,
  which may be one of the dial or one of the open connection.
\<close>

section \<open>Sending and receiving\<close>

record TCPTransport =
  LeaderAddr :: string
  Timeout :: int
  seq :: "64 word"

datatype callError = DialFailed string | ConnFailed string

type_synonym 'n rpc = "string \<Rightarrow> string \<Rightarrow> 'n \<Rightarrow> 'n \<times> (callError + string)"

definition NewTCPTransport :: "string \<Rightarrow> int \<Rightarrow> TCPTransport" where
  "NewTCPTransport leaderAddr timeout =
     \<lparr>LeaderAddr = leaderAddr, Timeout = (if timeout \<le> 0 then 3 * Second else timeout), seq = 0\<rparr>"

definition send ::
  "'n rpc \<Rightarrow> string \<Rightarrow> string \<Rightarrow> TCPTransport \<Rightarrow> 'n \<Rightarrow> TCPTransport \<times> 'n \<times> string result" where
  "send rpc command args t net =
     (if LeaderAddr t = [] then (t, net, Inl ''leader address is required'')
      else
        let t1 = t\<lparr>seq := seq t + 1\<rparr>;
            line = ''V1|'' @ Itoa (uint (seq t1)) @ ''|'' @ command @ ''|'' @ args @ [newline]
        in case rpc (LeaderAddr t) line net of
             (net1, Inl (DialFailed e)) \<Rightarrow> (t, net1, Inl e)
           | (net1, Inl (ConnFailed e)) \<Rightarrow> (t1, net1, Inl e)
           | (net1, Inr resp) \<Rightarrow> (t1, net1, Inr (TrimSpace resp)))"

definition parseOKPayload :: "string \<Rightarrow> string result" where
  "parseOKPayload line =
     (let parts = Split line ''|''
      in if length parts < 3 then Inl (''invalid response line: '' @ line)
         else if parts ! 2 = ''ERR'' then
           Inl ((if length parts > 3 then parts ! 3 else ''UNKNOWN_ERROR'') @ '': '' @
                (if length parts > 4 then Join (drop 4 parts) ''|'' else ''unknown error''))
         else if parts ! 2 \<noteq> ''OK'' then Inl (''unknown response status: '' @ parts ! 2)
         else if length parts < 4 then Inr []
         else Inr (Join (drop 3 parts) ''|''))"

definition extractStringField :: "string \<Rightarrow> string \<Rightarrow> string" where
  "extractStringField payload key =
     (case Index payload (key @ ''='') of
        None \<Rightarrow> []
      | Some idx \<Rightarrow>
          let rest = drop (idx + length (key @ ''='')) payload
          in case Index rest '' '' of None \<Rightarrow> rest | Some space \<Rightarrow> take space rest)"

definition extractIntField :: "string \<Rightarrow> string \<Rightarrow> int result" where
  "extractIntField payload key =
     (let raw = extractStringField payload key
      in if raw = [] then Inl (''missing field '' @ key @ '' in payload: '' @ payload)
         else case Atoi raw of None \<Rightarrow> Inl (''invalid number: '' @ raw) | Some i \<Rightarrow> Inr i)"

fun parseRecords :: "string \<Rightarrow> string list \<Rightarrow> ReplicationRecord list result" where
  "parseRecords payload [] = Inr []"
| "parseRecords payload (item # items) =
     (if item = [] then parseRecords payload items
      else
        let parts = SplitN item '':'' 2
        in if length parts \<noteq> 2 then Inl (''malformed record payload: '' @ payload)
           else case Atoi (parts ! 0) of
             None \<Rightarrow> Inl (''invalid record offset: '' @ parts ! 0)
           | Some off \<Rightarrow>
               (case parseRecords payload items of
                  Inl e \<Rightarrow> Inl e
                | Inr rs \<Rightarrow> Inr (\<lparr>recOffset = off, recValue = parts ! 1\<rparr> # rs)))"

definition parseFetchPayload :: "string \<Rightarrow> FetchResult result" where
  "parseFetchPayload payload =
     (case extractIntField payload ''hw'' of
        Inl e \<Rightarrow> Inl e
      | Inr hw \<Rightarrow>
          let recordsField = extractStringField payload ''records''
          in if recordsField = [] then Inr \<lparr>fetchHighWatermark = hw, fetchRecords = []\<rparr>
             else case parseRecords payload (Split recordsField '','') of
               Inl e \<Rightarrow> Inl e
             | Inr rs \<Rightarrow> Inr \<lparr>fetchHighWatermark = hw, fetchRecords = rs\<rparr>)"

definition Fetch ::
  "'n rpc \<Rightarrow> string \<Rightarrow> int \<Rightarrow> int \<Rightarrow> int \<Rightarrow> int \<Rightarrow> TCPTransport \<Rightarrow> 'n \<Rightarrow>
   TCPTransport \<times> 'n \<times> FetchResult result" where
  "Fetch rpc topic part followerID offset maxMessages t net =
     (let n = (if maxMessages \<le> 0 then 100 else maxMessages);
          args = topic @ '' '' @ Itoa part @ '' '' @ Itoa followerID @ '' '' @ Itoa offset @ '' '' @ Itoa n
      in case send rpc ''BROKER_FETCH'' args t net of
           (t1, net1, Inl e) \<Rightarrow> (t1, net1, Inl e)
         | (t1, net1, Inr line) \<Rightarrow>
             (case parseOKPayload line of
                Inl e \<Rightarrow> (t1, net1, Inl e)
              | Inr payload \<Rightarrow> (t1, net1, parseFetchPayload payload)))"

definition Ack ::
  "'n rpc \<Rightarrow> string \<Rightarrow> int \<Rightarrow> int \<Rightarrow> int \<Rightarrow> TCPTransport \<Rightarrow> 'n \<Rightarrow> TCPTransport \<times> 'n \<times> string option" where
  "Ack rpc topic part followerID ackedOffset t net =
     (case send rpc ''BROKER_REPLICA_ACK'' (topic @ '' '' @ Itoa part @ '' '' @ Itoa followerID @ '' ''
             @ Itoa ackedOffset) t net of
        (t1, net1, Inl e) \<Rightarrow> (t1, net1, Some e)
      | (t1, net1, Inr line) \<Rightarrow>
          (case parseOKPayload line of
             Inl e \<Rightarrow> (t1, net1, Some e)
           | Inr _ \<Rightarrow> (t1, net1, None)))"

text \<open>The leader's answer, as \<open>handleBrokerFetch\<close> prints it.\<close>

definition fetchItem :: "Message \<Rightarrow> string" where
  "fetchItem m = Itoa (Offset m) @ '':'' @ Value m"

definition fetchPayload :: "string \<Rightarrow> int \<Rightarrow> int \<Rightarrow> int \<Rightarrow> Message list \<Rightarrow> string" where
  "fetchPayload topic part followerID hw ms =
     ''topic='' @ topic @ '' partition='' @ Itoa part @ '' follower='' @ Itoa followerID @ '' hw='' @ Itoa hw
       @ '' records='' @ Join (map fetchItem ms) '',''"

text \<open>The items of that answer and of the one to \<open>CONSUME\<close> taken apart.\<close>

lemma Split_item: "\<exists>P. P \<noteq> [] \<and> Split (fetchItem m) '':'' = Itoa (Offset m) # P \<and> Join P '':'' = Value m"
proof -
  obtain P where P: "P \<noteq> []" "Value m = Join P '':''" "\<forall>x \<in> set P. CHR '':'' \<notin> set x"
    using pieces [of "Value m" "CHR '':''"] by blast
  have "CHR '':'' \<notin> set (Itoa (Offset m))" by (rule Itoa_no) simp_all
  then have "Split (Join (Itoa (Offset m) # P) '':'') '':'' = Itoa (Offset m) # P" using P by (intro Split_Join) auto
  moreover have "fetchItem m = Join (Itoa (Offset m) # P) '':''" using P by (cases P) (simp_all add: fetchItem_def)
  ultimately show ?thesis using P by auto
qed

lemma Index_hw:
  "CHR '' '' \<notin> set x \<Longrightarrow> Index (x @ '' hw='' @ y) '' hw='' = Some (length x)"
proof (induction x)
  case Nil
  show ?case by (simp add: HasPrefix_def)
next
  case (Cons a x)
  then have "\<not> HasPrefix (a # x @ '' hw='' @ y) '' hw=''" by auto
  with Cons show ?case by simp
qed

section \<open>The payload is read back\<close>

definition wire_value :: "string \<Rightarrow> bool" where
  "wire_value v \<longleftrightarrow> CHR '','' \<notin> set v \<and> (\<forall>c \<in> set v. \<not> is_space c)"

definition wire_topic :: "string \<Rightarrow> bool" where
  "wire_topic t \<longleftrightarrow> CHR ''='' \<notin> set t"

lemma fetchPayload_index:
  assumes "wire_topic topic"
  shows "Index (fetchPayload topic part f hw ms) (''hw'' @ ''='') =
      Some (length (''topic='' @ topic @ '' partition='' @ Itoa part @ '' follower='' @ Itoa f @ '' ''))"
    and "Index (fetchPayload topic part f hw ms) (''records'' @ ''='') =
      Some (length (''topic='' @ topic @ '' partition='' @ Itoa part @ '' follower='' @ Itoa f @ '' hw='' @ Itoa hw @ '' ''))"
proof -
  let ?e = "CHR ''=''"
  have n: "?e \<notin> set (Itoa i)" for i by (rule Itoa_no) simp_all
  have t: "?e \<notin> set (topic @ '' partition'')" using assms by (simp add: wire_topic_def)
  have s: "\<not> HasSuffix (x @ '' partition'') ''hw''" "\<not> HasSuffix (x @ '' follower'') ''hw''"
    "\<not> HasSuffix (x @ '' hw'') ''records''" "\<not> HasSuffix (x @ '' partition'') ''records''"
    "\<not> HasSuffix (x @ '' follower'') ''records''" for x
    by (auto simp: HasSuffix_def)
  have p: "fetchPayload topic part f hw ms =
      ''topic'' @ ?e # (topic @ '' partition'') @ ?e # (Itoa part @ '' follower'') @ ?e #
      (Itoa f @ '' hw'') @ ?e # (Itoa hw @ '' records'') @ ?e # Join (map fetchItem ms) '',''"
    by (simp add: fetchPayload_def)
  note keys = Index_key [where c = ?e and key = "''hw''"] Index_key [where c = ?e and key = "''records''"]
    Index_key_here [where c = ?e]
  have hw: "Index ((Itoa f @ '' '') @ ''hw'' @ ?e # y) (''hw'' @ [?e]) = Some (length (Itoa f @ '' ''))" for y
    by (rule Index_key_here) (use n in simp_all)
  have recs: "Index ((Itoa hw @ '' '') @ ''records'' @ ?e # y) (''records'' @ [?e]) = Some (length (Itoa hw @ '' ''))" for y
    by (rule Index_key_here) (use n in simp_all)
  show "Index (fetchPayload topic part f hw ms) (''hw'' @ ''='') =
      Some (length (''topic='' @ topic @ '' partition='' @ Itoa part @ '' follower='' @ Itoa f @ '' ''))"
  proof -
    have "Index (''topic'' @ ?e # (topic @ '' partition'') @ ?e # (Itoa part @ '' follower'') @ ?e # z) (''hw'' @ [?e])
      = map_option (\<lambda>i. length (''topic='' @ topic @ '' partition='' @ Itoa part @ '' follower='') + i) (Index z (''hw'' @ [?e]))" for z
      by (subst Index_key, simp, simp, simp add: HasSuffix_def,
          subst Index_key, simp, rule t, rule s, subst Index_key, simp, simp add: n, rule s)
         (cases "Index z (''hw'' @ [?e])"; simp)
    then show ?thesis using hw unfolding p by simp
  qed
  show "Index (fetchPayload topic part f hw ms) (''records'' @ ''='') =
      Some (length (''topic='' @ topic @ '' partition='' @ Itoa part @ '' follower='' @ Itoa f @ '' hw='' @ Itoa hw @ '' ''))"
  proof -
    have "Index (''topic'' @ ?e # (topic @ '' partition'') @ ?e # (Itoa part @ '' follower'') @ ?e # (Itoa f @ '' hw'') @ ?e # z)
        (''records'' @ [?e])
      = map_option (\<lambda>i. length (''topic='' @ topic @ '' partition='' @ Itoa part @ '' follower='' @ Itoa f @ '' hw='') + i)
          (Index z (''records'' @ [?e]))" for z
      by (subst Index_key, simp, simp, simp add: HasSuffix_def,
          subst Index_key, simp, rule t, rule s, subst Index_key, simp, simp add: n, rule s,
          subst Index_key, simp, simp add: n, rule s)
         (cases "Index z (''records'' @ [?e])"; simp)
    then show ?thesis using recs unfolding p by simp
  qed
qed

lemma extract_hw:
  assumes "wire_topic topic"
  shows "extractStringField (fetchPayload topic part f hw ms) ''hw'' = Itoa hw"
proof -
  let ?pre = "''topic='' @ topic @ '' partition='' @ Itoa part @ '' follower='' @ Itoa f @ '' ''"
  let ?rest = "Itoa hw @ CHR '' '' # ''records='' @ Join (map fetchItem ms) '',''"
  have "fetchPayload topic part f hw ms = (?pre @ ''hw='') @ ?rest" by (simp add: fetchPayload_def)
  then have "drop (length ?pre + length (''hw'' @ ''='')) (fetchPayload topic part f hw ms) = ?rest"
    by (metis append.left_neutral append_Cons drop_length_append length_append)
  moreover have "Index ?rest '' '' = Some (length (Itoa hw))" by (rule Index_space) (rule Itoa_no; simp)
  ultimately show ?thesis
    unfolding extractStringField_def fetchPayload_index(1) [OF assms] option.case Let_def by simp
qed

lemma wire_items:
  assumes "\<forall>m \<in> set ms. wire_value (Value m)"
  shows "CHR '' '' \<notin> set (Join (map fetchItem ms) '','')" and "\<forall>x \<in> set (map fetchItem ms). CHR '','' \<notin> set x"
proof -
  have item: "CHR '' '' \<notin> set (fetchItem m) \<and> CHR '','' \<notin> set (fetchItem m)" if "m \<in> set ms" for m
  proof -
    have "CHR '' '' \<notin> set (Itoa (Offset m))" "CHR '','' \<notin> set (Itoa (Offset m))" by (rule Itoa_no; simp)+
    moreover have "CHR '' '' \<notin> set (Value m)" "CHR '','' \<notin> set (Value m)"
      using assms that by (auto simp: wire_value_def is_space_def)
    ultimately show ?thesis by (simp add: fetchItem_def)
  qed
  show "\<forall>x \<in> set (map fetchItem ms). CHR '','' \<notin> set x" using item by simp
  show "CHR '' '' \<notin> set (Join (map fetchItem ms) '','')"
  proof
    assume "CHR '' '' \<in> set (Join (map fetchItem ms) '','')"
    from set_Join [OF this] item show False by auto
  qed
qed

lemma extract_records:
  assumes "wire_topic topic" and "\<forall>m \<in> set ms. wire_value (Value m)"
  shows "extractStringField (fetchPayload topic part f hw ms) ''records'' = Join (map fetchItem ms) '',''"
proof -
  let ?pre = "''topic='' @ topic @ '' partition='' @ Itoa part @ '' follower='' @ Itoa f @ '' hw='' @ Itoa hw @ '' ''"
  have "fetchPayload topic part f hw ms = (?pre @ ''records='') @ Join (map fetchItem ms) '',''"
    by (simp add: fetchPayload_def)
  then have "drop (length ?pre + length (''records'' @ ''='')) (fetchPayload topic part f hw ms) = Join (map fetchItem ms) '',''"
    by (metis append.left_neutral append_Cons drop_length_append length_append)
  then show ?thesis
    unfolding extractStringField_def fetchPayload_index(2) [OF assms(1)] option.case Let_def
    by (simp add: Index_no_space [OF wire_items(1) [OF assms(2)]])
qed

definition record_of :: "Message \<Rightarrow> ReplicationRecord" where
  "record_of m = \<lparr>recOffset = Offset m, recValue = Value m\<rparr>"

lemma parseRecords_items:
  "\<forall>m \<in> set ms. int64_ok (Offset m) \<Longrightarrow> parseRecords payload (map fetchItem ms) = Inr (map record_of ms)"
proof (induction ms)
  case (Cons m ms)
  have "CHR '':'' \<notin> set (Itoa (Offset m))" by (rule Itoa_no) simp_all
  then have "SplitN (fetchItem m) '':'' 2 = [Itoa (Offset m), Value m]" by (simp add: fetchItem_def)
  moreover have "fetchItem m \<noteq> []" by (simp add: fetchItem_def)
  ultimately show ?case using Cons by (simp add: record_of_def)
qed simp

lemma parseFetchPayload_fetchPayload:
  assumes "wire_topic topic" and "int64_ok hw" and "\<forall>m \<in> set ms. wire_value (Value m) \<and> int64_ok (Offset m)"
  shows "parseFetchPayload (fetchPayload topic part f hw ms)
    = Inr \<lparr>fetchHighWatermark = hw, fetchRecords = map record_of ms\<rparr>"
proof -
  have hw: "extractIntField (fetchPayload topic part f hw ms) ''hw'' = Inr hw"
    using assms(2) by (simp add: extractIntField_def extract_hw [OF assms(1)])
  have wv: "\<forall>m \<in> set ms. wire_value (Value m)" using assms(3) by blast
  show ?thesis
  proof (cases "ms = []")
    case True
    then show ?thesis using hw by (simp add: parseFetchPayload_def extract_records [OF assms(1)])
  next
    case False
    then have "Join (map fetchItem ms) '','' \<noteq> []" by (cases ms rule: remdups_adj.cases) (auto simp: fetchItem_def)
    moreover have "Split (Join (map fetchItem ms) '','') '','' = map fetchItem ms"
      using False wire_items(2) [OF wv] by (intro Split_Join) auto
    ultimately show ?thesis
      using assms(3) by (simp add: parseFetchPayload_def hw extract_records [OF assms(1) wv] parseRecords_items)
  qed
qed

section \<open>Response lines\<close>

lemma parseOKPayload_Ok:
  assumes "CHR ''|'' \<notin> set cid" and "payload \<noteq> []" and "\<not> is_space (last payload)"
  shows "parseOKPayload (TrimSpace (Ok cid payload)) = Inr payload"
proof -
  obtain P where P: "P \<noteq> []" "payload = Join P ''|''" "\<forall>x \<in> set P. CHR ''|'' \<notin> set x"
    using pieces [of payload "CHR ''|''"] by blast
  then obtain x xs where x: "P = x # xs" by (cases P) auto
  let ?line = "''V1|'' @ cid @ ''|OK|'' @ payload"
  have "TrimSpace (?line @ [newline]) = ?line"
    using assms(2,3) by (intro TrimSpace_snoc) (auto simp: is_space_def newline_def)
  moreover have "?line = Join (''V1'' # cid # ''OK'' # x # xs) ''|''" using P x by simp
  moreover have "Split (Join (''V1'' # cid # ''OK'' # x # xs) ''|'') ''|'' = ''V1'' # cid # ''OK'' # x # xs"
    using P assms(1) x by (intro Split_Join) auto
  ultimately show ?thesis
    using assms(2) P x by (simp add: parseOKPayload_def Ok_def protocol_Version_def)
qed

lemma parseOKPayload_Err:
  assumes "CHR ''|'' \<notin> set cid" and "CHR ''|'' \<notin> set code" and "CHR ''|'' \<notin> set msg"
    and "msg \<noteq> []" and "\<not> is_space (last msg)" and "cid \<noteq> []"
  shows "parseOKPayload (TrimSpace (Err cid code msg)) = Inl (code @ '': '' @ msg)"
proof -
  let ?line = "''V1|'' @ cid @ ''|ERR|'' @ code @ ''|'' @ msg"
  have "TrimSpace (?line @ [newline]) = ?line"
    using assms(4,5) by (intro TrimSpace_snoc) (auto simp: is_space_def newline_def)
  moreover have "?line = Join [''V1'', cid, ''ERR'', code, msg] ''|''" by simp
  moreover have "Split (Join [''V1'', cid, ''ERR'', code, msg] ''|'') ''|'' = [''V1'', cid, ''ERR'', code, msg]"
    using assms(1-3) by (intro Split_Join) auto
  ultimately show ?thesis
    using assms(6) by (simp add: parseOKPayload_def Err_def protocol_Version_def)
qed

lemma fetchPayload_last:
  assumes "\<forall>m \<in> set ms. wire_value (Value m)"
  shows "\<not> is_space (last (fetchPayload topic part f hw ms))"
proof (cases "ms = []")
  case True
  then show ?thesis by (simp add: fetchPayload_def is_space_def)
next
  case False
  let ?m = "last ms"
  have "last (Join (map fetchItem ms) '','') = last (fetchItem ?m)"
    using False by (induction ms rule: induct_list012) (auto simp: fetchItem_def Join_eq_Nil)
  moreover have "Join (map fetchItem ms) '','' \<noteq> []"
    using False by (cases ms rule: remdups_adj.cases) (auto simp: fetchItem_def)
  moreover have "\<not> is_space (last (fetchItem ?m))"
  proof (cases "Value ?m = []")
    case True
    then show ?thesis by (simp add: fetchItem_def is_space_def)
  next
    case ne: False
    then have "last (Value ?m) \<in> set (Value ?m)" by simp
    moreover have "wire_value (Value ?m)" using assms False by simp
    ultimately show ?thesis using ne by (simp add: fetchItem_def wire_value_def)
  qed
  ultimately show ?thesis by (simp add: fetchPayload_def)
qed

section \<open>Properties\<close>

lemma Fetch_payload:
  assumes "LeaderAddr t \<noteq> []" and "wire_topic topic" and "int64_ok hw"
    and "\<forall>m \<in> set ms. wire_value (Value m) \<and> int64_ok (Offset m)" and "CHR ''|'' \<notin> set cid"
    and "rpc (LeaderAddr t) (request_line (Itoa (uint (seq t + 1))) ''BROKER_FETCH'' [topic, Itoa part, Itoa followerID,
        Itoa offset, Itoa (if maxMessages \<le> 0 then 100 else maxMessages)] @ [newline]) net
      = (net1, Inr (Ok cid (fetchPayload topic part followerID hw ms)))"
  shows "Fetch rpc topic part followerID offset maxMessages t net =
    (t\<lparr>seq := seq t + 1\<rparr>, net1, Inr \<lparr>fetchHighWatermark = hw, fetchRecords = map record_of ms\<rparr>)"
proof -
  have "\<forall>m \<in> set ms. wire_value (Value m)" using assms(4) by blast
  then have "parseOKPayload (TrimSpace (Ok cid (fetchPayload topic part followerID hw ms)))
      = Inr (fetchPayload topic part followerID hw ms)"
    using assms(5) fetchPayload_last by (intro parseOKPayload_Ok) (simp_all add: fetchPayload_def)
  with assms parseFetchPayload_fetchPayload [OF assms(2,3,4), of part followerID] show ?thesis
    by (simp add: Fetch_def send_def Let_def request_line_def)
qed

lemma Ack_accepted:
  assumes "LeaderAddr t \<noteq> []" and "CHR ''|'' \<notin> set cid" and "payload \<noteq> []" and "\<not> is_space (last payload)"
    and "rpc (LeaderAddr t) (request_line (Itoa (uint (seq t + 1))) ''BROKER_REPLICA_ACK'' [topic, Itoa part,
        Itoa followerID, Itoa offset] @ [newline]) net = (net1, Inr (Ok cid payload))"
  shows "Ack rpc topic part followerID offset t net = (t\<lparr>seq := seq t + 1\<rparr>, net1, None)"
  using assms parseOKPayload_Ok [OF assms(2-4)] by (simp add: Ack_def send_def Let_def request_line_def)

text \<open>
  A follower reads what the leader sent. When the leader answers \<open>BROKER_FETCH\<close> with the payload
  for some records, \<open>Fetch\<close> returns the high watermark and exactly these records, in order, for
  topics without an equals sign and values without commas and white space.
\<close>

theorem fetch_round_trip:
  assumes "LeaderAddr t \<noteq> []" and "wire_topic topic" and "int64_ok hw"
    and "\<forall>m \<in> set ms. wire_value (Value m) \<and> int64_ok (Offset m)" and "CHR ''|'' \<notin> set cid"
    and "\<And>line. rpc (LeaderAddr t) line net = (net1, Inr (Ok cid (fetchPayload topic part followerID hw ms)))"
  shows "Fetch rpc topic part followerID offset maxMessages t net =
    (t\<lparr>seq := seq t + 1\<rparr>, net1, Inr \<lparr>fetchHighWatermark = hw, fetchRecords = map record_of ms\<rparr>)"
  by (rule Fetch_payload) (rule assms)+

theorem fetch_round_trip_witness:
  "Fetch (\<lambda>addr line net. (net, Inr (Ok ''1'' (fetchPayload ''orders'' 0 1 1
       [\<lparr>Offset = 0, Value = ''a|b''\<rparr>, \<lparr>Offset = 1, Value = []\<rparr>]))))
     ''orders'' 0 1 0 100 (NewTCPTransport ''10.0.0.1:9092'' 0) () =
   ((NewTCPTransport ''10.0.0.1:9092'' 0)\<lparr>seq := 1\<rparr>, (), Inr \<lparr>fetchHighWatermark = 1,
     fetchRecords = [\<lparr>recOffset = 0, recValue = ''a|b''\<rparr>, \<lparr>recOffset = 1, recValue = []\<rparr>]\<rparr>)"
proof -
  let ?ms = "[\<lparr>Offset = 0, Value = ''a|b''\<rparr>, \<lparr>Offset = 1, Value = []\<rparr>]"
  have "Fetch (\<lambda>addr line net. (net, Inr (Ok ''1'' (fetchPayload ''orders'' 0 1 1 ?ms)))) ''orders'' 0 1 0 100
      (NewTCPTransport ''10.0.0.1:9092'' 0) () =
    ((NewTCPTransport ''10.0.0.1:9092'' 0)\<lparr>seq := seq (NewTCPTransport ''10.0.0.1:9092'' 0) + 1\<rparr>, (),
     Inr \<lparr>fetchHighWatermark = 1, fetchRecords = map record_of ?ms\<rparr>)"
    by (rule fetch_round_trip [where cid = "''1''"])
       (simp_all add: NewTCPTransport_def wire_topic_def wire_value_def is_space_def int64_ok_def)
  then show ?thesis by (simp add: record_of_def NewTCPTransport_def)
qed

text \<open>
  The text format of \<open>BROKER_FETCH\<close> is not faithful for values with commas or spaces. A value with
  a comma makes the follower reject the whole answer; a value with a space is cut at the space,
  and all later records of the answer are lost.
\<close>

theorem fetch_breaks_values:
  "parseFetchPayload (fetchPayload ''t'' 0 1 0 [\<lparr>Offset = 0, Value = ''a,b''\<rparr>])
     = Inl (''malformed record payload: '' @ fetchPayload ''t'' 0 1 0 [\<lparr>Offset = 0, Value = ''a,b''\<rparr>]) \<and>
   parseFetchPayload (fetchPayload ''t'' 0 1 1 [\<lparr>Offset = 0, Value = ''a b''\<rparr>, \<lparr>Offset = 1, Value = ''c''\<rparr>])
     = Inr \<lparr>fetchHighWatermark = 1, fetchRecords = [\<lparr>recOffset = 0, recValue = ''a''\<rparr>]\<rparr>"
  by code_simp

end
