(* ===== verification/Replication.thy ===== *)
theory Replication
  imports Prelude
begin

text \<open>
  \<open>replication/manager.go\<close>: the leader's bookkeeping of its followers.

  \<^item> \<open>Manager\<close> is the struct of that name. The calls of the alert hook are recorded in \<open>alerts\<close>;
    \<open>hookSet\<close> says whether the broker installed a hook.
  \<^item> Every operation runs under the manager's lock and is one step. The instants \<open>time.Now\<close>
    returns during an operation are arguments.
  \<^item> \<open>WaitForAckAll\<close> gives up the lock between two polls. What the other goroutines do to the
    manager before a poll, and the instants of the poll, are an argument of the loop; the loop is
    a \<open>partial_function\<close>, with the value \<open>None\<close> for a loop that never ends.
\<close>

section \<open>Data\<close>

record ReplicationConfig =
  cReplicationFactor :: int
  cMinInSyncReplicas :: int
  cMaxReplicaLag :: int
  cReplicaLagTimeout :: int
  cAckAllTimeout :: int

record replicaState =
  rOffset :: int
  rLastSeen :: int
  rInSync :: bool

record replicaPartition =
  role :: string
  leaderOffset :: int
  highWatermark :: int
  followers :: "(int, replicaState) gomap"

record Alert =
  alertTopic :: string
  alertPartition :: int
  alertUnder :: bool
  alertISRSize :: int

record Manager =
  rcfg :: ReplicationConfig
  partitions :: "(string, (int, replicaPartition) gomap) gomap"
  hookSet :: bool
  alerts :: "Alert list"

record Status =
  sTopic :: string
  sPartition :: int
  sRole :: string
  sLeaderOffset :: int
  sHighWatermark :: int
  sInSyncReplicas :: "int list"
  sUnderReplicated :: bool
  sReplicationFactor :: int

section \<open>Operations\<close>

definition clampConfig :: "ReplicationConfig \<Rightarrow> ReplicationConfig" where
  "clampConfig c =
     (let rf = (if cReplicationFactor c < 1 then 1 else cReplicationFactor c);
          minISR = (if cMinInSyncReplicas c < 1 then 1 else cMinInSyncReplicas c)
      in \<lparr>cReplicationFactor = rf,
          cMinInSyncReplicas = (if minISR > rf then rf else minISR),
          cMaxReplicaLag = (if cMaxReplicaLag c < 0 then 0 else cMaxReplicaLag c),
          cReplicaLagTimeout = (if cReplicaLagTimeout c \<le> 0 then 10 * Second else cReplicaLagTimeout c),
          cAckAllTimeout = (if cAckAllTimeout c \<le> 0 then 2 * Second else cAckAllTimeout c)\<rparr>)"

definition NewManager :: "ReplicationConfig \<Rightarrow> bool \<Rightarrow> Manager" where
  "NewManager c hook = \<lparr>rcfg = clampConfig c, partitions = [], hookSet = hook, alerts = []\<rparr>"

definition newFollowers :: "int \<Rightarrow> (int, replicaState) gomap" where
  "newFollowers rf = map (\<lambda>i. (i, \<lparr>rOffset = - 1, rLastSeen = zero_time, rInSync = False\<rparr>)) [1..rf - 1]"

definition putPartition :: "string \<Rightarrow> int \<Rightarrow> replicaPartition \<Rightarrow> Manager \<Rightarrow> Manager" where
  "putPartition topic part ps m = m\<lparr>partitions := mput2 topic part ps (partitions m)\<rparr>"

definition ensurePartition :: "string \<Rightarrow> int \<Rightarrow> Manager \<Rightarrow> Manager \<times> replicaPartition" where
  "ensurePartition topic part m =
     (case mget2 (partitions m) topic part of
        Some ps \<Rightarrow> (m, ps)
      | None \<Rightarrow>
          let ps = \<lparr>role = ''leader'', leaderOffset = - 1, highWatermark = - 1,
                    followers = newFollowers (cReplicationFactor (rcfg m))\<rparr>
          in (putPartition topic part ps m, ps))"

definition markReplica :: "ReplicationConfig \<Rightarrow> int \<Rightarrow> int \<Rightarrow> replicaState \<Rightarrow> replicaState" where
  "markReplica c leader now r =
     (let lag = isub leader (rOffset r);
          fresh = \<not> time_IsZero (rLastSeen r) \<and> time_Sub now (rLastSeen r) \<le> cReplicaLagTimeout c
      in r\<lparr>rInSync := fresh \<and> lag \<le> cMaxReplicaLag c\<rparr>)"

definition minOffset :: "int \<Rightarrow> int list \<Rightarrow> int" where
  "minOffset leader offs = fold (\<lambda>off hw. if off < hw then off else hw) offs leader"

definition recompute :: "ReplicationConfig \<Rightarrow> int \<Rightarrow> replicaPartition \<Rightarrow> replicaPartition" where
  "recompute c now ps =
     (let fs = map (\<lambda>(i, r). (i, markReplica c (leaderOffset ps) now r)) (followers ps);
          isrOffsets = leaderOffset ps # map (rOffset \<circ> snd) (filter (rInSync \<circ> snd) fs);
          hw = minOffset (leaderOffset ps) isrOffsets
      in ps\<lparr>followers := fs, highWatermark := (if hw < - 1 then - 1 else hw)\<rparr>)"

definition isrSize :: "replicaPartition \<Rightarrow> int" where
  "isrSize ps = 1 + int (length (filter (rInSync \<circ> snd) (followers ps)))"

definition recomputeLocked :: "string \<Rightarrow> int \<Rightarrow> replicaPartition \<Rightarrow> int \<Rightarrow> Manager \<Rightarrow> Manager" where
  "recomputeLocked topic part ps now m =
     (let ps' = recompute (rcfg m) now ps;
          m' = putPartition topic part ps' m
      in if hookSet m
         then m'\<lparr>alerts := alerts m @ [\<lparr>alertTopic = topic, alertPartition = part,
                alertUnder = isrSize ps' < cMinInSyncReplicas (rcfg m), alertISRSize = isrSize ps'\<rparr>]\<rparr>
         else m')"

definition statusLocked :: "string \<Rightarrow> int \<Rightarrow> replicaPartition \<Rightarrow> int \<Rightarrow> Manager \<Rightarrow> Status" where
  "statusLocked topic part ps now m =
     (let isr = 0 # map fst (filter (\<lambda>(i, r). rInSync r \<and>
                       time_Sub now (rLastSeen r) \<le> cReplicaLagTimeout (rcfg m)) (followers ps))
      in \<lparr>sTopic = topic, sPartition = part, sRole = role ps, sLeaderOffset = leaderOffset ps,
          sHighWatermark = highWatermark ps, sInSyncReplicas = isr,
          sUnderReplicated = int (length isr) < cMinInSyncReplicas (rcfg m),
          sReplicationFactor = cReplicationFactor (rcfg m)\<rparr>)"

definition OnLeaderAppend :: "int \<Rightarrow> string \<Rightarrow> int \<Rightarrow> int \<Rightarrow> Manager \<Rightarrow> Manager" where
  "OnLeaderAppend now topic part offset m =
     (let (m1, ps) = ensurePartition topic part m
      in if role ps \<noteq> ''leader'' then m1
         else
           let ps1 = (if offset > leaderOffset ps then ps\<lparr>leaderOffset := offset\<rparr> else ps)
           in recomputeLocked topic part ps1 now m1)"

text \<open>\<open>seen\<close> is the instant of the follower's \<open>lastSeen\<close>, \<open>now\<close> that of the recomputation.\<close>

definition AckReplica ::
  "int \<Rightarrow> int \<Rightarrow> string \<Rightarrow> int \<Rightarrow> int \<Rightarrow> int \<Rightarrow> Manager \<Rightarrow> Manager \<times> string option" where
  "AckReplica seen now topic part replicaID offset m =
     (if replicaID \<le> 0 \<or> replicaID \<ge> cReplicationFactor (rcfg m) then (m, Some ''invalid replica id'')
      else
        let (m1, ps) = ensurePartition topic part m
        in if role ps \<noteq> ''leader'' then (m1, Some ''partition is not leader'')
           else case map_of (followers ps) replicaID of
             None \<Rightarrow> (m1, Some ''replica id not configured'')
           | Some r \<Rightarrow>
               let off = (if offset > leaderOffset ps then leaderOffset ps else offset);
                   r1 = (if off > rOffset r then r\<lparr>rOffset := off\<rparr> else r);
                   r2 = r1\<lparr>rLastSeen := seen\<rparr>;
                   ps1 = ps\<lparr>followers := mput replicaID r2 (followers ps)\<rparr>
               in (recomputeLocked topic part ps1 now m1, None))"

definition currentPartition :: "string \<Rightarrow> int \<Rightarrow> Manager \<Rightarrow> replicaPartition" where
  "currentPartition topic part m = snd (ensurePartition topic part m)"

definition HighWatermark :: "int \<Rightarrow> string \<Rightarrow> int \<Rightarrow> Manager \<Rightarrow> Manager \<times> int" where
  "HighWatermark now topic part m =
     (let (m1, ps) = ensurePartition topic part m;
          m2 = recomputeLocked topic part ps now m1
      in (m2, highWatermark (currentPartition topic part m2)))"

definition IsLeader :: "string \<Rightarrow> int \<Rightarrow> Manager \<Rightarrow> Manager \<times> bool" where
  "IsLeader topic part m =
     (let (m1, ps) = ensurePartition topic part m in (m1, role ps = ''leader''))"

definition SetRole :: "int \<Rightarrow> string \<Rightarrow> int \<Rightarrow> string \<Rightarrow> Manager \<Rightarrow> Manager \<times> string option" where
  "SetRole now topic part newRole m =
     (if newRole \<noteq> ''leader'' \<and> newRole \<noteq> ''follower'' then (m, Some ''invalid role'')
      else
        let (m1, ps) = ensurePartition topic part m;
            ps1 = ps\<lparr>role := newRole\<rparr>;
            ps2 = (if newRole = ''follower''
                   then ps1\<lparr>highWatermark := - 1,
                            followers := map (\<lambda>(i, r). (i, r\<lparr>rInSync := False\<rparr>)) (followers ps1)\<rparr>
                   else ps1)
        in (recomputeLocked topic part ps2 now m1, None))"

definition BootstrapOffset :: "int \<Rightarrow> string \<Rightarrow> int \<Rightarrow> int \<Rightarrow> Manager \<Rightarrow> Manager" where
  "BootstrapOffset now topic part offset m =
     (let (m1, ps) = ensurePartition topic part m;
          ps1 = (if offset > leaderOffset ps then ps\<lparr>leaderOffset := offset\<rparr> else ps);
          ps2 = (if role ps1 = ''follower'' then ps1\<lparr>highWatermark := offset\<rparr> else ps1)
      in recomputeLocked topic part ps2 now m1)"

definition ManagerStatus :: "int \<Rightarrow> string \<Rightarrow> int \<Rightarrow> Manager \<Rightarrow> Manager \<times> Status" where
  "ManagerStatus now topic part m =
     (let (m1, ps) = ensurePartition topic part m;
          m2 = recomputeLocked topic part ps now m1
      in (m2, statusLocked topic part (currentPartition topic part m2) now m2))"

section \<open>Waiting for all acknowledgements\<close>

record poll =
  others :: "Manager \<Rightarrow> Manager"
  pollNow :: int
  checkNow :: int

partial_function (option) waitLoop ::
  "int \<Rightarrow> string \<Rightarrow> int \<Rightarrow> int \<Rightarrow> (nat \<Rightarrow> poll) \<Rightarrow> nat \<Rightarrow> Manager \<Rightarrow> (Manager \<times> string option) option" where
  "waitLoop deadline topic part target polls n m =
     (let (m1, status) = ManagerStatus (pollNow (polls n)) topic part (others (polls n) m)
      in if sHighWatermark status \<ge> target
            \<and> int (length (sInSyncReplicas status)) \<ge> cMinInSyncReplicas (rcfg m1)
         then Some (m1, None)
         else if checkNow (polls n) > deadline then Some (m1, Some ''acks=all timeout'')
         else waitLoop deadline topic part target polls (Suc n) m1)"

declare waitLoop.simps [code]

definition WaitForAckAll ::
  "int \<Rightarrow> string \<Rightarrow> int \<Rightarrow> int \<Rightarrow> (nat \<Rightarrow> poll) \<Rightarrow> Manager \<Rightarrow> (Manager \<times> string option) option" where
  "WaitForAckAll start topic part target polls m =
     waitLoop (start + cAckAllTimeout (rcfg m)) topic part target polls 0 m"

section \<open>Invariant\<close>

definition partition_ok :: "int \<Rightarrow> replicaPartition \<Rightarrow> bool" where
  "partition_ok rf ps \<longleftrightarrow>
     map fst (followers ps) = [1..rf - 1] \<and>
     - 1 \<le> leaderOffset ps \<and> leaderOffset ps < 2 ^ 63 - 1 \<and>
     - 1 \<le> highWatermark ps \<and> highWatermark ps \<le> leaderOffset ps \<and>
     (\<forall>(i, r) \<in> set (followers ps). - 1 \<le> rOffset r \<and> rOffset r \<le> leaderOffset ps)"

definition config_clamped :: "ReplicationConfig \<Rightarrow> bool" where
  "config_clamped c \<longleftrightarrow>
     1 \<le> cMinInSyncReplicas c \<and> cMinInSyncReplicas c \<le> cReplicationFactor c \<and>
     0 \<le> cMaxReplicaLag c \<and> 0 < cReplicaLagTimeout c \<and> 0 < cAckAllTimeout c"

definition manager_ok :: "Manager \<Rightarrow> bool" where
  "manager_ok m \<longleftrightarrow> config_clamped (rcfg m) \<and>
     (\<forall>t p ps. mget2 (partitions m) t p = Some ps \<longrightarrow> partition_ok (cReplicationFactor (rcfg m)) ps)"

text \<open>The in-sync replicas of a partition, the leader not counted.\<close>

definition inSync :: "replicaPartition \<Rightarrow> (int \<times> replicaState) list" where
  "inSync ps = filter (rInSync \<circ> snd) (followers ps)"

lemma minOffset_le: "minOffset l offs \<le> l" "off \<in> set offs \<Longrightarrow> minOffset l offs \<le> off"
proof -
  have "minOffset l offs \<le> l \<and> (\<forall>off \<in> set offs. minOffset l offs \<le> off)"
  proof (induction offs arbitrary: l)
    case (Cons a offs)
    from Cons.IH [of "if a < l then a else l"] show ?case by (fastforce simp: minOffset_def split: if_splits)
  qed (simp add: minOffset_def)
  then show "minOffset l offs \<le> l" "off \<in> set offs \<Longrightarrow> minOffset l offs \<le> off" by auto
qed

lemma minOffset_mem: "minOffset l offs \<in> insert l (set offs)"
proof (induction offs arbitrary: l)
  case (Cons a offs)
  from Cons.IH [of "if a < l then a else l"] show ?case by (auto simp: minOffset_def split: if_splits)
qed (simp add: minOffset_def)

lemma minOffset_Min: "minOffset l offs = Min (insert l (set offs))"
  using minOffset_le minOffset_mem by (intro Min_eqI [symmetric]) auto

lemma markReplica_simps [simp]:
  "rOffset (markReplica c l now r) = rOffset r" "rLastSeen (markReplica c l now r) = rLastSeen r"
  by (simp_all add: markReplica_def Let_def)

lemma recompute_simps [simp]:
  "leaderOffset (recompute c now ps) = leaderOffset ps" "role (recompute c now ps) = role ps"
  "map fst (followers (recompute c now ps)) = map fst (followers ps)"
  by (simp_all add: recompute_def Let_def comp_def case_prod_unfold)

lemma recompute_followers:
  "followers (recompute c now ps) = map (\<lambda>(i, r). (i, markReplica c (leaderOffset ps) now r)) (followers ps)"
  by (simp add: recompute_def Let_def)

lemma recompute_hw:
  assumes "partition_ok rf ps"
  shows "highWatermark (recompute c now ps) =
    Min (insert (leaderOffset ps) ((rOffset \<circ> snd) ` set (inSync (recompute c now ps))))"
proof -
  let ?ps = "recompute c now ps"
  let ?offs = "map (rOffset \<circ> snd) (inSync ?ps)"
  have "minOffset (leaderOffset ps) (leaderOffset ps # ?offs) = minOffset (leaderOffset ps) ?offs"
    by (simp add: minOffset_def)
  moreover have "- 1 \<le> minOffset (leaderOffset ps) ?offs"
    using minOffset_mem [of "leaderOffset ps" ?offs] assms
    by (auto simp: partition_ok_def inSync_def recompute_followers)
  ultimately have "highWatermark ?ps = minOffset (leaderOffset ps) ?offs"
    by (simp add: recompute_def Let_def inSync_def)
  then show ?thesis by (simp add: minOffset_Min)
qed

lemma recompute_ok:
  assumes "partition_ok rf ps"
  shows "partition_ok rf (recompute c now ps)"
proof -
  let ?S = "insert (leaderOffset ps) ((rOffset \<circ> snd) ` set (inSync (recompute c now ps)))"
  have b: "\<forall>x \<in> ?S. - 1 \<le> x" using assms by (auto simp: partition_ok_def inSync_def recompute_followers)
  have "- 1 \<le> Min ?S" "Min ?S \<le> leaderOffset ps" using b by simp_all
  then show ?thesis
    using assms by (auto simp: partition_ok_def recompute_hw [OF assms] recompute_followers comp_def case_prod_unfold)
qed

text \<open>A partition that only lost the bound on its high watermark is repaired by \<open>recompute\<close>.\<close>

lemma recompute_repairs:
  assumes "partition_ok rf (ps\<lparr>highWatermark := leaderOffset ps\<rparr>)"
  shows "partition_ok rf (recompute c now ps)"
proof -
  have "recompute c now ps = recompute c now (ps\<lparr>highWatermark := leaderOffset ps\<rparr>)"
    by (simp add: recompute_def)
  with recompute_ok [OF assms] show ?thesis by simp
qed

lemma newPartition_ok:
  "partition_ok rf \<lparr>role = ''leader'', leaderOffset = - 1, highWatermark = - 1, followers = newFollowers rf\<rparr>"
  by (auto simp: partition_ok_def newFollowers_def comp_def)

lemma ensure_ok:
  assumes "manager_ok m" and "ensurePartition t p m = (m1, ps)"
  shows "manager_ok m1" and "partition_ok (cReplicationFactor (rcfg m)) ps" and "rcfg m1 = rcfg m"
    and "mget2 (partitions m1) t p = Some ps" and "hookSet m1 = hookSet m"
    and "(t', p') \<noteq> (t, p) \<Longrightarrow> mget2 (partitions m1) t' p' = mget2 (partitions m) t' p'"
    and "ps = currentPartition t p m"
  using assms newPartition_ok
  by (auto simp: manager_ok_def ensurePartition_def putPartition_def Let_def currentPartition_def
      split: option.splits if_splits)

lemma recomputeLocked_simps:
  "rcfg (recomputeLocked t p ps now m) = rcfg m"
  "mget2 (partitions (recomputeLocked t p ps now m)) t' p' =
     (if t' = t \<and> p' = p then Some (recompute (rcfg m) now ps) else mget2 (partitions m) t' p')"
  by (simp_all add: recomputeLocked_def putPartition_def Let_def)

lemma current_recomputeLocked:
  "currentPartition t p (recomputeLocked t p ps now m) = recompute (rcfg m) now ps"
  by (simp add: currentPartition_def ensurePartition_def recomputeLocked_simps)

lemma recomputeLocked_ok:
  assumes "manager_ok m" and "partition_ok (cReplicationFactor (rcfg m)) (ps\<lparr>highWatermark := leaderOffset ps\<rparr>)"
  shows "manager_ok (recomputeLocked t p ps now m)"
  using assms recompute_repairs by (auto simp: manager_ok_def recomputeLocked_simps)

lemma clampConfig_ok: "config_clamped (clampConfig c)"
  by (simp add: config_clamped_def clampConfig_def Let_def)

lemma NewManager_ok: "manager_ok (NewManager c hook)"
  by (simp add: manager_ok_def NewManager_def clampConfig_ok mget2_def)

section \<open>Every operation keeps the invariant\<close>

lemma OnLeaderAppend_ok:
  assumes "manager_ok m" and "offset < 2 ^ 63 - 1"
  shows "manager_ok (OnLeaderAppend now t p offset m)"
proof -
  obtain m1 ps where e: "ensurePartition t p m = (m1, ps)" by force
  note k = ensure_ok [OF assms(1) e]
  let ?ps = "if offset > leaderOffset ps then ps\<lparr>leaderOffset := offset\<rparr> else ps"
  have "partition_ok (cReplicationFactor (rcfg m1)) (?ps\<lparr>highWatermark := leaderOffset ?ps\<rparr>)"
    using k(2,3) assms(2) by (fastforce simp: partition_ok_def)
  from recomputeLocked_ok [OF k(1) this] k(1) e show ?thesis by (simp add: OnLeaderAppend_def)
qed

lemma BootstrapOffset_ok:
  assumes "manager_ok m" and "offset < 2 ^ 63 - 1"
  shows "manager_ok (BootstrapOffset now t p offset m)"
proof -
  obtain m1 ps where e: "ensurePartition t p m = (m1, ps)" by force
  note k = ensure_ok [OF assms(1) e]
  define ps1 where "ps1 = (if offset > leaderOffset ps then ps\<lparr>leaderOffset := offset\<rparr> else ps)"
  define ps2 where "ps2 = (if role ps1 = ''follower'' then ps1\<lparr>highWatermark := offset\<rparr> else ps1)"
  have "partition_ok (cReplicationFactor (rcfg m1)) (ps1\<lparr>highWatermark := leaderOffset ps1\<rparr>)"
    using k(2,3) assms(2) by (fastforce simp: partition_ok_def ps1_def)
  then have "partition_ok (cReplicationFactor (rcfg m1)) (ps2\<lparr>highWatermark := leaderOffset ps2\<rparr>)"
    by (simp add: ps2_def)
  from recomputeLocked_ok [OF k(1) this] show ?thesis
    by (simp only: BootstrapOffset_def Let_def e case_prod_conv ps1_def ps2_def)
qed

lemma SetRole_ok:
  assumes "manager_ok m"
  shows "manager_ok (fst (SetRole now t p newRole m))"
proof -
  obtain m1 ps where e: "ensurePartition t p m = (m1, ps)" by force
  note k = ensure_ok [OF assms e]
  define ps2 where "ps2 = (if newRole = ''follower''
      then ps\<lparr>role := newRole, highWatermark := - 1, followers := map (\<lambda>(i, r). (i, r\<lparr>rInSync := False\<rparr>)) (followers ps)\<rparr>
      else ps\<lparr>role := newRole\<rparr>)"
  have "partition_ok (cReplicationFactor (rcfg m1)) (ps2\<lparr>highWatermark := leaderOffset ps2\<rparr>)"
    using k(2,3) by (fastforce simp: partition_ok_def ps2_def comp_def case_prod_unfold)
  from recomputeLocked_ok [OF k(1) this] assms e show ?thesis
    by (auto simp: SetRole_def Let_def ps2_def split: if_splits)
qed

lemma ack_partition_ok:
  assumes "partition_ok rf ps" and "map_of (followers ps) i = Some r"
    and "rOffset r' = max (rOffset r) (min offset (leaderOffset ps))"
  shows "partition_ok rf (ps\<lparr>followers := mput i r' (followers ps), highWatermark := leaderOffset ps\<rparr>)"
proof -
  have r: "(i, r) \<in> set (followers ps)" using assms(2) by (rule map_of_SomeD)
  have "- 1 \<le> rOffset r \<and> rOffset r \<le> leaderOffset ps" using assms(1) r by (auto simp: partition_ok_def)
  then have "- 1 \<le> rOffset r' \<and> rOffset r' \<le> leaderOffset ps" using assms(3) by auto
  moreover have "map fst (mput i r' (followers ps)) = map fst (followers ps)"
    using assms(2) by (simp add: mkeys_mput_mem)
  ultimately show ?thesis
    using assms(1) set_mput_subset [of i r' "followers ps"] by (fastforce simp: partition_ok_def)
qed

lemma AckReplica_ok:
  assumes "manager_ok m"
  shows "manager_ok (fst (AckReplica seen now t p i offset m))"
proof -
  obtain m1 ps where e: "ensurePartition t p m = (m1, ps)" by force
  note k = ensure_ok [OF assms e]
  show ?thesis
  proof (cases "map_of (followers ps) i")
    case None
    then show ?thesis using assms k(1) e by (auto simp: AckReplica_def)
  next
    case (Some r)
    define off where "off = (if offset > leaderOffset ps then leaderOffset ps else offset)"
    define r2 where "r2 = (if off > rOffset r then r\<lparr>rOffset := off\<rparr> else r)\<lparr>rLastSeen := seen\<rparr>"
    have "rOffset r2 = max (rOffset r) (min offset (leaderOffset ps))" by (auto simp: r2_def off_def)
    from ack_partition_ok [OF k(2) Some this]
    have "partition_ok (cReplicationFactor (rcfg m1)) ((ps\<lparr>followers := mput i r2 (followers ps)\<rparr>)
        \<lparr>highWatermark := leaderOffset (ps\<lparr>followers := mput i r2 (followers ps)\<rparr>)\<rparr>)"
      by (simp add: k(3))
    from recomputeLocked_ok [OF k(1) this] assms k(1) show ?thesis
      unfolding AckReplica_def Let_def e case_prod_conv Some option.case off_def r2_def by simp
  qed
qed

lemma recompute_current_ok:
  assumes "manager_ok m" and "ensurePartition t p m = (m1, ps)"
  shows "manager_ok (recomputeLocked t p ps now m1)"
proof (rule recomputeLocked_ok [OF ensure_ok(1) [OF assms]])
  show "partition_ok (cReplicationFactor (rcfg m1)) (ps\<lparr>highWatermark := leaderOffset ps\<rparr>)"
    using ensure_ok(2,3) [OF assms] by (simp add: partition_ok_def)
qed

inductive manager_step :: "Manager \<Rightarrow> Manager \<Rightarrow> bool" where
  append: "offset < 2 ^ 63 - 1 \<Longrightarrow> manager_step m (OnLeaderAppend now t p offset m)"
| ack: "manager_step m (fst (AckReplica seen now t p i offset m))"
| bootstrap: "offset < 2 ^ 63 - 1 \<Longrightarrow> manager_step m (BootstrapOffset now t p offset m)"
| set_role: "manager_step m (fst (SetRole now t p newRole m))"
| high_watermark: "manager_step m (fst (HighWatermark now t p m))"
| is_leader: "manager_step m (fst (IsLeader t p m))"
| status: "manager_step m (fst (ManagerStatus now t p m))"

lemma manager_step_ok: "manager_step m m' \<Longrightarrow> manager_ok m \<Longrightarrow> manager_ok m' \<and> rcfg m' = rcfg m"
proof (induction rule: manager_step.induct)
  case (append offset m now t p)
  then show ?case using ensure_ok(3) [OF append(2)]
    by (auto simp: OnLeaderAppend_ok) (auto simp: OnLeaderAppend_def recomputeLocked_simps Let_def split: prod.split)
next
  case (ack m seen now t p i offset)
  then show ?case using ensure_ok(3) [OF ack]
    by (auto simp: AckReplica_ok)
       (auto simp: AckReplica_def recomputeLocked_simps Let_def split: prod.split option.split)
next
  case (bootstrap offset m now t p)
  then show ?case using ensure_ok(3) [OF bootstrap(2)]
    by (auto simp: BootstrapOffset_ok) (auto simp: BootstrapOffset_def recomputeLocked_simps Let_def split: prod.split)
next
  case (set_role m now t p newRole)
  then show ?case using ensure_ok(3) [OF set_role]
    by (auto simp: SetRole_ok) (auto simp: SetRole_def recomputeLocked_simps Let_def split: prod.split)
next
  case (high_watermark m now t p)
  then show ?case using ensure_ok(3) [OF high_watermark] recompute_current_ok [OF high_watermark]
    by (auto simp: HighWatermark_def recomputeLocked_simps Let_def split: prod.split)
next
  case (is_leader m t p)
  then show ?case using ensure_ok(1,3) [OF is_leader] by (auto simp: IsLeader_def split: prod.split)
next
  case (status m now t p)
  then show ?case using ensure_ok(3) [OF status] recompute_current_ok [OF status]
    by (auto simp: ManagerStatus_def recomputeLocked_simps Let_def split: prod.split)
qed

section \<open>Status and waiting\<close>

lemma ManagerStatus_current:
  assumes "manager_ok m" and "ManagerStatus now t p m = (m', st)"
  shows "manager_ok m'" and "rcfg m' = rcfg m"
    and "currentPartition t p m' = recompute (rcfg m) now (currentPartition t p m)"
    and "sHighWatermark st = highWatermark (currentPartition t p m')"
    and "sInSyncReplicas st = 0 # map fst (inSync (currentPartition t p m'))"
proof -
  obtain m1 ps where e: "ensurePartition t p m = (m1, ps)" by force
  note k = ensure_ok [OF assms(1) e]
  let ?ps = "recompute (rcfg m) now ps"
  have m': "m' = recomputeLocked t p ps now m1" and st: "st = statusLocked t p ?ps now m'"
    using assms(2) e by (auto simp: ManagerStatus_def Let_def current_recomputeLocked k(3))
  show "manager_ok m'" unfolding m' by (rule recompute_current_ok [OF assms(1) e])
  show "rcfg m' = rcfg m" by (simp add: m' recomputeLocked_simps k(3))
  show cur: "currentPartition t p m' = recompute (rcfg m) now (currentPartition t p m)"
    by (simp add: m' current_recomputeLocked k(3,7))
  show "sHighWatermark st = highWatermark (currentPartition t p m')"
    using cur k(7) by (simp add: st statusLocked_def Let_def)
  have "rInSync (markReplica c l now r) \<Longrightarrow> time_Sub now (rLastSeen r) \<le> cReplicaLagTimeout c" for c l r
    by (simp add: markReplica_def Let_def)
  then show "sInSyncReplicas st = 0 # map fst (inSync (currentPartition t p m'))"
    using cur k(3,7)
    by (auto simp: st statusLocked_def Let_def inSync_def recompute_followers m' recomputeLocked_simps
        intro!: arg_cong [where f = "map fst"] filter_cong)
qed

lemma currentPartition_ok:
  assumes "manager_ok m"
  shows "partition_ok (cReplicationFactor (rcfg m)) (currentPartition t p m)"
  using ensure_ok(2) [OF assms] by (metis currentPartition_def prod.collapse)

lemma HighWatermark_value:
  assumes "manager_ok m"
  shows "snd (HighWatermark now t p m) = highWatermark (recompute (rcfg m) now (currentPartition t p m))"
proof -
  obtain m1 ps where e: "ensurePartition t p m = (m1, ps)" by force
  note k = ensure_ok [OF assms e]
  then show ?thesis using e by (simp add: HighWatermark_def Let_def current_recomputeLocked)
qed

definition held_by_isr :: "int \<Rightarrow> ReplicationConfig \<Rightarrow> replicaPartition \<Rightarrow> bool" where
  "held_by_isr target c ps \<longleftrightarrow>
     target \<le> leaderOffset ps \<and> (\<forall>(i, r) \<in> set (inSync ps). target \<le> rOffset r) \<and>
     cMinInSyncReplicas c \<le> 1 + int (length (inSync ps))"

lemma status_held:
  assumes "manager_ok m" and "ManagerStatus now t p m = (m', st)"
    and "target \<le> sHighWatermark st" and "cMinInSyncReplicas (rcfg m) \<le> int (length (sInSyncReplicas st))"
  shows "held_by_isr target (rcfg m) (currentPartition t p m')"
proof -
  note s = ManagerStatus_current [OF assms(1,2)]
  let ?ps = "currentPartition t p m'"
  have hw: "highWatermark ?ps = Min (insert (leaderOffset ?ps) ((rOffset \<circ> snd) ` set (inSync ?ps)))"
    using recompute_hw [OF currentPartition_ok [OF assms(1)]] by (simp add: s(3))
  then have "highWatermark ?ps \<le> leaderOffset ?ps" "\<forall>(i, r) \<in> set (inSync ?ps). highWatermark ?ps \<le> rOffset r"
    by (auto intro!: Min_le rev_image_eqI)
  with assms(3,4) s(4,5) show ?thesis by (fastforce simp: held_by_isr_def)
qed

definition polls_ok :: "(nat \<Rightarrow> poll) \<Rightarrow> bool" where
  "polls_ok polls \<longleftrightarrow> (\<forall>n m. manager_ok m \<longrightarrow> manager_ok (others (polls n) m) \<and> rcfg (others (polls n) m) = rcfg m)"

lemma waitLoop_sound:
  assumes "waitLoop deadline t p target polls n m = Some r"
  shows "manager_ok m \<Longrightarrow> polls_ok polls \<Longrightarrow> snd r = None \<Longrightarrow>
    manager_ok (fst r) \<and> held_by_isr target (rcfg m) (currentPartition t p (fst r))"
  using assms
proof (induction rule: waitLoop.raw_induct [rotated, consumes 1])
  case (1 loop deadline t p target polls n m r)
  let ?m0 = "others (polls n) m"
  have m0: "manager_ok ?m0" "rcfg ?m0 = rcfg m" using 1(3,4) by (auto simp: polls_ok_def)
  obtain m1 st where st: "ManagerStatus (pollNow (polls n)) t p ?m0 = (m1, st)" by force
  note s = ManagerStatus_current [OF m0(1) st]
  show ?case
  proof (cases "sHighWatermark st \<ge> target \<and> int (length (sInSyncReplicas st)) \<ge> cMinInSyncReplicas (rcfg m1)")
    case True
    with 1(2) st have "r = (m1, None)" by simp
    with True status_held [OF m0(1) st] s m0 show ?thesis by simp
  next
    case False
    with 1(2,5) st have "loop deadline t p target polls (Suc n) m1 = Some r" by (auto split: if_splits)
    from 1(1) [OF this s(1) 1(4,5)] s(2) m0(2) show ?thesis by simp
  qed
qed

lemma waitLoop_ok:
  assumes "waitLoop deadline t p target polls n m = Some r"
  shows "manager_ok m \<Longrightarrow> polls_ok polls \<Longrightarrow> manager_ok (fst r)"
  using assms
proof (induction rule: waitLoop.raw_induct [rotated, consumes 1])
  case (1 loop deadline t p target polls n m r)
  obtain m1 st where st: "ManagerStatus (pollNow (polls n)) t p (others (polls n) m) = (m1, st)" by force
  have "manager_ok m1"
    using ManagerStatus_current(1) [OF _ st] 1(3,4) by (auto simp: polls_ok_def)
  with 1(1) [of _ _ _ _ polls "Suc n" m1 r] 1(2,4) st show ?case by (auto split: if_splits)
qed

text \<open>The loop ends at the first poll past the deadline at the latest, whatever comes later.\<close>

lemma waitLoop_stops:
  "checkNow (polls (n + k)) > deadline \<Longrightarrow>
   \<exists>j m' e. (\<forall>i < j. checkNow (polls (n + i)) \<le> deadline)
     \<and> (e = None \<or> e = Some ''acks=all timeout'' \<and> deadline < checkNow (polls (n + j)))
     \<and> (\<forall>polls'. (\<forall>i \<le> n + j. polls' i = polls i) \<longrightarrow> waitLoop deadline t p target polls' n m = Some (m', e))"
proof (induction k arbitrary: n m rule: less_induct)
  case (less k)
  obtain m1 st where st: "ManagerStatus (pollNow (polls n)) t p (others (polls n) m) = (m1, st)" by force
  let ?held = "sHighWatermark st \<ge> target \<and> int (length (sInSyncReplicas st)) \<ge> cMinInSyncReplicas (rcfg m1)"
  have unf: "waitLoop deadline t p target polls' n m = (if ?held then Some (m1, None)
      else if checkNow (polls n) > deadline then Some (m1, Some ''acks=all timeout'')
      else waitLoop deadline t p target polls' (Suc n) m1)" if "polls' n = polls n" for polls'
    by (subst waitLoop.simps) (simp add: that st)
  show ?case
  proof (cases "?held \<or> checkNow (polls n) > deadline")
    case True
    then show ?thesis
      by (intro exI [of _ 0] exI [of _ m1] exI [of _ "if ?held then None else Some ''acks=all timeout''"]) (auto simp: unf)
  next
    case False
    then obtain k' where k: "k = Suc k'" using less.prems by (cases k) auto
    obtain j m' e where j: "\<forall>i < j. checkNow (polls (Suc n + i)) \<le> deadline"
      "e = None \<or> e = Some ''acks=all timeout'' \<and> deadline < checkNow (polls (Suc n + j))"
      "\<forall>polls'. (\<forall>i \<le> Suc n + j. polls' i = polls i) \<longrightarrow> waitLoop deadline t p target polls' (Suc n) m1 = Some (m', e)"
      using less.IH [of k' "Suc n" m1] less.prems by (auto simp: k)
    have "\<forall>i < Suc j. checkNow (polls (n + i)) \<le> deadline"
      using False j(1) by (auto simp: less_Suc_eq_0_disj)
    moreover have "waitLoop deadline t p target polls' n m = Some (m', e)" if "\<forall>i \<le> n + Suc j. polls' i = polls i" for polls'
      using unf [of polls'] False j(3) that by auto
    ultimately show ?thesis using j(2) by (intro exI [of _ "Suc j"] exI [of _ m'] exI [of _ e]) simp
  qed
qed

lemma clock_passes:
  fixes f :: "nat \<Rightarrow> int"
  assumes "\<And>n. f n + 2 * Millisecond \<le> f (Suc n)"
  shows "\<exists>n. d < f n"
proof -
  have "f 0 + int n \<le> f n" for n
  proof (induction n)
    case (Suc n)
    with assms [of n] show ?case by simp
  qed simp
  then have "f 0 + int (nat (d - f 0 + 1)) \<le> f (nat (d - f 0 + 1))" .
  then have "d < f (nat (d - f 0 + 1))" by (simp split: if_splits)
  then show ?thesis ..
qed

section \<open>Properties\<close>

text \<open>
  C24. Every manager a broker can reach from \<open>NewManager\<close> by any interleaving of the manager's
  operations is well formed: the configuration is within its bounds; every partition has exactly
  the followers 1 to \<open>ReplicationFactor\<close> - 1; no follower is ahead of the leader; the high
  watermark is between -1 and the leader's offset.
\<close>

theorem manager_reachable_ok:
  "manager_step\<^sup>*\<^sup>* (NewManager c hook) m \<Longrightarrow> manager_ok m \<and> rcfg m = clampConfig c"
proof (induction rule: rtranclp_induct)
  case base
  show ?case by (simp add: NewManager_ok) (simp add: NewManager_def)
qed (auto dest: manager_step_ok)

definition sample_config :: ReplicationConfig where
  "sample_config = \<lparr>cReplicationFactor = 3, cMinInSyncReplicas = 2, cMaxReplicaLag = 1,
     cReplicaLagTimeout = 10 * Second, cAckAllTimeout = 2 * Second\<rparr>"

definition sample_manager :: Manager where
  "sample_manager = fst (AckReplica 2 2 ''orders'' 0 1 4
     (OnLeaderAppend 1 ''orders'' 0 4 (NewManager sample_config False)))"

lemma sample_steps: "manager_step\<^sup>*\<^sup>* (NewManager sample_config False) sample_manager"
proof -
  have "manager_step (NewManager sample_config False)
      (OnLeaderAppend 1 ''orders'' 0 4 (NewManager sample_config False))"
    by (rule manager_step.append) simp
  then have "manager_step\<^sup>*\<^sup>* (NewManager sample_config False)
      (OnLeaderAppend 1 ''orders'' 0 4 (NewManager sample_config False))" by (rule r_into_rtranclp)
  from rtranclp.rtrancl_into_rtrancl [OF this manager_step.ack] show ?thesis
    unfolding sample_manager_def .
qed

theorem manager_reachable_ok_witness: "manager_ok sample_manager \<and> rcfg sample_manager = clampConfig sample_config"
  by (rule manager_reachable_ok [OF sample_steps])

text \<open>
  C25. The high watermark the manager reports is the minimum of the offsets of the leader and of the
  replicas in sync, where a follower is in sync exactly if it was heard of within
  \<open>ReplicaLagTimeout\<close> and is at most \<open>MaxReplicaLag\<close> records behind the leader.
\<close>

theorem high_watermark_is_min:
  assumes "manager_ok m" and "HighWatermark now t p m = (m', hw)"
  shows "hw = Min (insert (leaderOffset (currentPartition t p m'))
           ((rOffset \<circ> snd) ` set (inSync (currentPartition t p m')))) \<and>
    leaderOffset (currentPartition t p m') = leaderOffset (currentPartition t p m) \<and>
    (\<forall>(i, r) \<in> set (followers (currentPartition t p m')).
       rInSync r \<longleftrightarrow> \<not> time_IsZero (rLastSeen r) \<and> time_Sub now (rLastSeen r) \<le> cReplicaLagTimeout (rcfg m) \<and>
         leaderOffset (currentPartition t p m) - rOffset r \<le> cMaxReplicaLag (rcfg m))"
proof -
  obtain m1 ps where e: "ensurePartition t p m = (m1, ps)" by force
  note k = ensure_ok [OF assms(1) e]
  have m': "m' = recomputeLocked t p ps now m1" "hw = highWatermark (currentPartition t p m')"
    using assms(2) e by (auto simp: HighWatermark_def Let_def)
  have cur: "currentPartition t p m' = recompute (rcfg m) now ps"
    by (simp add: m'(1) current_recomputeLocked k(3))
  have lag: "isub (leaderOffset ps) (rOffset r) = leaderOffset ps - rOffset r"
    if "(i, r) \<in> set (followers ps)" for i r
    using that k(2) by (intro isub_id) (auto simp: partition_ok_def int64_ok_def)
  have mark: "rInSync (markReplica c l now r) \<longleftrightarrow> \<not> time_IsZero (rLastSeen r) \<and>
      time_Sub now (rLastSeen r) \<le> cReplicaLagTimeout c \<and> isub l (rOffset r) \<le> cMaxReplicaLag c" for c l r
    by (auto simp: markReplica_def Let_def)
  show ?thesis
    using recompute_hw [OF k(2)] lag unfolding m'(2) cur k(7) [symmetric]
    by (auto simp: recompute_followers mark)
qed

lemma sample_manager_ok: "manager_ok sample_manager"
  unfolding sample_manager_def
  by (intro AckReplica_ok OnLeaderAppend_ok NewManager_ok) simp

lemmas recompute_eval = recompute_def markReplica_def minOffset_def inSync_def time_IsZero_def
  time_Sub_def zero_time_def isub_def wrap64_def sample_config_def

lemmas manager_eval = ensurePartition_def putPartition_def recomputeLocked_def currentPartition_def
  newFollowers_def upto_rec1 mget2_def mput2_def

definition unseen :: replicaState where
  "unseen = \<lparr>rOffset = - 1, rLastSeen = zero_time, rInSync = False\<rparr>"

definition appended :: replicaPartition where
  "appended = \<lparr>role = ''leader'', leaderOffset = 4, highWatermark = 4, followers = [(1, unseen), (2, unseen)]\<rparr>"

lemma clamp_sample: "0 \<le> lag \<Longrightarrow> clampConfig (sample_config\<lparr>cMaxReplicaLag := lag\<rparr>) = sample_config\<lparr>cMaxReplicaLag := lag\<rparr>"
  by (simp add: clampConfig_def sample_config_def)

lemma recompute_appended: "recompute (sample_config\<lparr>cMaxReplicaLag := lag\<rparr>) now (appended\<lparr>highWatermark := h\<rparr>) = appended"
  by (simp add: recompute_eval appended_def unseen_def)

lemma sample_appended:
  assumes "0 \<le> lag"
  shows "OnLeaderAppend 1 ''orders'' 0 4 (NewManager (sample_config\<lparr>cMaxReplicaLag := lag\<rparr>) False) =
    \<lparr>rcfg = sample_config\<lparr>cMaxReplicaLag := lag\<rparr>, partitions = [(''orders'', [(0, appended)])],
     hookSet = False, alerts = []\<rparr>"
proof -
  have "appended\<lparr>highWatermark := - 1\<rparr> = \<lparr>role = ''leader'', leaderOffset = 4, highWatermark = - 1,
      followers = newFollowers 3\<rparr>" by (simp add: appended_def unseen_def newFollowers_def upto_rec1)
  moreover have "cReplicationFactor (sample_config\<lparr>cMaxReplicaLag := lag\<rparr>) = 3" by (simp add: sample_config_def)
  ultimately show ?thesis
    using recompute_appended [of lag 1 "- 1"] clamp_sample [OF assms]
    by (simp add: OnLeaderAppend_def NewManager_def ensurePartition_def putPartition_def recomputeLocked_def
        mget2_def mput2_def Let_def)
qed

definition acked :: "int \<Rightarrow> replicaPartition" where
  "acked off = appended\<lparr>highWatermark := off,
     followers := [(1, \<lparr>rOffset = off, rLastSeen = 2, rInSync = True\<rparr>), (2, unseen)]\<rparr>"

lemma sample_config_lag: "sample_config\<lparr>cMaxReplicaLag := 1\<rparr> = sample_config"
  by (simp add: sample_config_def)

lemma recompute_acked:
  assumes "off = 3 \<or> off = 4" and "2 \<le> now" and "now \<le> 1000" and "r = \<lparr>rOffset = off, rLastSeen = 2, rInSync = b\<rparr>"
  shows "recompute sample_config now (appended\<lparr>highWatermark := h, followers := [(1, r), (2, unseen)]\<rparr>) = acked off"
  using assms by (auto simp: recompute_eval appended_def unseen_def acked_def)

lemma sample_acked:
  assumes "off = 3 \<or> off = 4"
  shows "fst (AckReplica 2 2 ''orders'' 0 1 off (OnLeaderAppend 1 ''orders'' 0 4 (NewManager sample_config False)))
    = \<lparr>rcfg = sample_config, partitions = [(''orders'', [(0, acked off)])], hookSet = False, alerts = []\<rparr>"
proof -
  have "cReplicationFactor sample_config = 3" by (simp add: sample_config_def)
  moreover have "recompute sample_config 2 (appended\<lparr>followers := [(1, \<lparr>rOffset = off, rLastSeen = 2, rInSync = False\<rparr>), (2, unseen)]\<rparr>)
      = acked off"
    using recompute_acked [where h = "highWatermark appended" and b = False and now = 2, OF assms _ _ refl] by simp
  ultimately show ?thesis
    unfolding sample_appended [of 1, simplified sample_config_lag, simplified] using assms
    by (auto simp: AckReplica_def ensurePartition_def putPartition_def recomputeLocked_def mget2_def mput2_def
        appended_def unseen_def Let_def)
qed

lemma sample_manager_value:
  "sample_manager = \<lparr>rcfg = sample_config, partitions = [(''orders'', [(0, acked 4)])], hookSet = False, alerts = []\<rparr>"
  unfolding sample_manager_def by (rule sample_acked) simp

lemma sample_current:
  "currentPartition ''orders'' 0 sample_manager = acked 4" "rcfg sample_manager = sample_config"
  by (simp_all add: sample_manager_value currentPartition_def ensurePartition_def mget2_def)

lemma recompute_acked_again: "2 \<le> now \<Longrightarrow> now \<le> 1000 \<Longrightarrow> off = 3 \<or> off = 4 \<Longrightarrow> recompute sample_config now (acked off) = acked off"
  using recompute_acked [where h = off and b = True and off = off and now = now, OF _ _ _ refl] by (simp add: acked_def)

theorem high_watermark_is_min_witness:
  "snd (HighWatermark 3 ''orders'' 0 sample_manager) = 4 \<and>
   snd (HighWatermark 3 ''orders'' 0 sample_manager) =
     Min (insert (leaderOffset (currentPartition ''orders'' 0 (fst (HighWatermark 3 ''orders'' 0 sample_manager))))
       ((rOffset \<circ> snd) ` set (inSync (currentPartition ''orders'' 0 (fst (HighWatermark 3 ''orders'' 0 sample_manager))))))"
proof -
  have "snd (HighWatermark 3 ''orders'' 0 sample_manager) = 4"
    using recompute_acked_again [of 3 4] by (simp add: HighWatermark_value [OF sample_manager_ok] sample_current)
      (simp add: acked_def)
  moreover have "HighWatermark 3 ''orders'' 0 sample_manager =
      (fst (HighWatermark 3 ''orders'' 0 sample_manager), snd (HighWatermark 3 ''orders'' 0 sample_manager))" by simp
  from high_watermark_is_min [OF sample_manager_ok this]
  have "snd (HighWatermark 3 ''orders'' 0 sample_manager) =
     Min (insert (leaderOffset (currentPartition ''orders'' 0 (fst (HighWatermark 3 ''orders'' 0 sample_manager))))
       ((rOffset \<circ> snd) ` set (inSync (currentPartition ''orders'' 0 (fst (HighWatermark 3 ''orders'' 0 sample_manager))))))"
    by (rule conjunct1)
  ultimately show ?thesis by (rule conjI)
qed

text \<open>
  C20. \<open>acks=all\<close> is sound: when \<open>WaitForAckAll\<close> reports success for an offset, whatever other
  goroutines did between the polls, the leader and every replica in sync hold that offset, and
  with the leader they are at least \<open>MinInSyncReplicas\<close>.
\<close>

theorem wait_for_ack_all_sound:
  assumes "manager_ok m" and "polls_ok polls"
    and "WaitForAckAll start t p target polls m = Some (m', None)"
  shows "target \<le> leaderOffset (currentPartition t p m') \<and>
    (\<forall>(i, r) \<in> set (inSync (currentPartition t p m')). target \<le> rOffset r) \<and>
    cMinInSyncReplicas (rcfg m) \<le> 1 + int (length (inSync (currentPartition t p m')))"
  using waitLoop_sound [OF assms(3) [unfolded WaitForAckAll_def] assms(1,2)] by (simp add: held_by_isr_def)

definition sample_polls :: "nat \<Rightarrow> poll" where
  "sample_polls n = \<lparr>others = (\<lambda>m. m), pollNow = 3 + 2 * Millisecond * int n,
     checkNow = 4 + 2 * Millisecond * int n\<rparr>"

theorem wait_for_ack_all_sound_witness:
  "\<exists>m'. WaitForAckAll 3 ''orders'' 0 4 sample_polls sample_manager = Some (m', None) \<and>
     4 \<le> leaderOffset (currentPartition ''orders'' 0 m') \<and>
     cMinInSyncReplicas (rcfg sample_manager) \<le> 1 + int (length (inSync (currentPartition ''orders'' 0 m')))"
proof -
  obtain m1 st where st: "ManagerStatus 3 ''orders'' 0 sample_manager = (m1, st)" by force
  note cur = ManagerStatus_current [OF sample_manager_ok st]
  have "recompute (rcfg sample_manager) 3 (currentPartition ''orders'' 0 sample_manager) =
      currentPartition ''orders'' 0 sample_manager" "cMinInSyncReplicas (rcfg sample_manager) = 2"
    "highWatermark (currentPartition ''orders'' 0 sample_manager) = 4"
    "map fst (inSync (currentPartition ''orders'' 0 sample_manager)) = [1]"
    using recompute_acked_again [of 3 4] sample_current
    by (simp_all add: inSync_def) (simp_all add: acked_def sample_config_def unseen_def)
  with cur have "sHighWatermark st = 4" "sInSyncReplicas st = [0, 1]" "cMinInSyncReplicas (rcfg m1) = 2" by simp_all
  then have "map_option snd (WaitForAckAll 3 ''orders'' 0 4 sample_polls sample_manager) = Some None"
    unfolding WaitForAckAll_def by (subst waitLoop.simps) (simp add: sample_polls_def st)
  then obtain m' where m': "WaitForAckAll 3 ''orders'' 0 4 sample_polls sample_manager = Some (m', None)" by auto
  have "polls_ok sample_polls" by (simp add: polls_ok_def sample_polls_def)
  from wait_for_ack_all_sound [OF sample_manager_ok this m'] m' show ?thesis by blast
qed

text \<open>
  C26. \<open>WaitForAckAll\<close> always returns, at the first poll past its deadline at the latest. Since every
  iteration sleeps for two milliseconds, the clock passes the deadline whatever the other goroutines
  do. There is a poll with no earlier one past the deadline \<open>start + AckAllTimeout\<close> after which the result
  is settled: it is the same however later polls would go. The result is success or, only past the
  deadline, the timeout.
\<close>

theorem wait_for_ack_all_returns:
  assumes "\<And>n. checkNow (polls n) + 2 * Millisecond \<le> checkNow (polls (Suc n))"
  shows "\<exists>n m' e. (\<forall>i < n. checkNow (polls i) \<le> start + cAckAllTimeout (rcfg m))
    \<and> (e = None \<or> e = Some ''acks=all timeout'' \<and> start + cAckAllTimeout (rcfg m) < checkNow (polls n))
    \<and> (\<forall>polls'. (\<forall>i \<le> n. polls' i = polls i) \<longrightarrow> WaitForAckAll start t p target polls' m = Some (m', e))"
proof -
  obtain k where "start + cAckAllTimeout (rcfg m) < checkNow (polls (0 + k))"
    using clock_passes [where f = "\<lambda>n. checkNow (polls n)", OF assms] by auto
  from waitLoop_stops [where n = 0 and polls = polls and k = k, OF this] show ?thesis by (simp add: WaitForAckAll_def)
qed

theorem wait_for_ack_all_returns_witness:
  "\<exists>n m' e. (\<forall>i < n. checkNow (sample_polls i) \<le> 3 + cAckAllTimeout (rcfg sample_manager))
    \<and> WaitForAckAll 3 ''orders'' 0 9 sample_polls sample_manager = Some (m', e)"
proof -
  have "checkNow (sample_polls n) + 2 * Millisecond \<le> checkNow (sample_polls (Suc n))" for n
    by (simp add: sample_polls_def algebra_simps)
  from wait_for_ack_all_returns [where polls = sample_polls, OF this, of 3 sample_manager "''orders''" 0 9] show ?thesis by blast
qed

lemma AckReplica_effect:
  assumes "manager_ok m"
  shows "case AckReplica seen now t p i offset m of (m', e) \<Rightarrow>
    (e = None \<longleftrightarrow> 0 < i \<and> i < cReplicationFactor (rcfg m) \<and> role (currentPartition t p m) = ''leader'') \<and>
    leaderOffset (currentPartition t p m') = leaderOffset (currentPartition t p m) \<and>
    (\<forall>j r r'. map_of (followers (currentPartition t p m)) j = Some r \<longrightarrow>
       map_of (followers (currentPartition t p m')) j = Some r' \<longrightarrow>
       rOffset r' = (if j = i \<and> e = None then max (rOffset r) (min offset (leaderOffset (currentPartition t p m)))
                     else rOffset r))"
proof -
  obtain m1 ps where e: "ensurePartition t p m = (m1, ps)" by force
  note k = ensure_ok [OF assms e]
  have cur1: "currentPartition t p m1 = ps" using k(4) by (simp add: currentPartition_def ensurePartition_def)
  show ?thesis
  proof (cases "0 < i \<and> i < cReplicationFactor (rcfg m) \<and> role ps = ''leader''")
    case False
    then show ?thesis using e cur1 k(7) by (auto simp: AckReplica_def)
  next
    case True
    then have "i \<in> set (map fst (followers ps))" using k(2) by (simp add: partition_ok_def)
    then obtain r where r: "map_of (followers ps) i = Some r" 
      by (metis list.set_map map_of_eq_None_iff not_None_eq)
    have rec: "map_of (followers (recompute c now qs)) j = map_option (markReplica c (leaderOffset qs) now) (map_of (followers qs) j)" for c qs j
      by (simp add: recompute_followers map_of_map)
    show ?thesis
      using True e r k(3,7) by (auto simp: AckReplica_def Let_def current_recomputeLocked rec split: if_splits)
  qed
qed

text \<open>
  Acknowledgements of followers. An id outside 1 to \<open>ReplicationFactor\<close> - 1 and a partition this
  broker does not lead are refused. Otherwise the follower's offset becomes the larger of its old
  one and the acknowledged one cut at the leader's offset: it never moves back and never passes
  the leader. The other followers keep their offsets, and so does the leader.
\<close>

theorem ack_replica_effect:
  assumes "manager_ok m"
  shows "case AckReplica seen now t p i offset m of (m', e) \<Rightarrow>
    (e = None \<longleftrightarrow> 0 < i \<and> i < cReplicationFactor (rcfg m) \<and> role (currentPartition t p m) = ''leader'') \<and>
    leaderOffset (currentPartition t p m') = leaderOffset (currentPartition t p m) \<and>
    (\<forall>j r r'. map_of (followers (currentPartition t p m)) j = Some r \<longrightarrow>
       map_of (followers (currentPartition t p m')) j = Some r' \<longrightarrow>
       rOffset r' = (if j = i \<and> e = None then max (rOffset r) (min offset (leaderOffset (currentPartition t p m)))
                     else rOffset r))"
  using assms by (rule AckReplica_effect)

theorem ack_replica_effect_witness:
  "manager_ok sample_manager \<and>
   snd (AckReplica 5 5 ''orders'' 0 2 99 sample_manager) = None \<and>
   leaderOffset (currentPartition ''orders'' 0 (fst (AckReplica 5 5 ''orders'' 0 2 99 sample_manager))) = 4"
proof -
  have "cReplicationFactor (rcfg sample_manager) = 3" "role (currentPartition ''orders'' 0 sample_manager) = ''leader''"
    "leaderOffset (currentPartition ''orders'' 0 sample_manager) = 4"
    by (simp_all add: sample_current acked_def appended_def sample_config_def)
  then show ?thesis
    using ack_replica_effect [where seen = 5 and now = 5 and t = "''orders''" and p = 0 and i = 2 and offset = 99,
        OF sample_manager_ok] sample_manager_ok
    by (simp add: case_prod_unfold)
qed

text \<open>
  With \<open>MaxReplicaLag\<close> 0, the default, the high watermark is the leader's own offset: a follower
  that is behind counts as out of sync and does not hold the watermark back. A record is visible
  to consumers before any follower has it.
\<close>

lemma zero_lag_watermark_is_leader:
  assumes "manager_ok m" and "cMaxReplicaLag (rcfg m) = 0"
  shows "snd (HighWatermark now t p m) = leaderOffset (currentPartition t p m)"
proof -
  obtain m1 ps where e: "ensurePartition t p m = (m1, ps)" by force
  note k = ensure_ok [OF assms(1) e]
  have off: "rOffset r = leaderOffset ps" if "(i, r) \<in> set (inSync (recompute (rcfg m) now ps))" for i r
  proof -
    from that obtain r0 where r0: "(i, r0) \<in> set (followers ps)" "r = markReplica (rcfg m) (leaderOffset ps) now r0"
      "rInSync r" by (auto simp: inSync_def recompute_followers)
    then have b: "- 1 \<le> rOffset r0" "rOffset r0 \<le> leaderOffset ps" "leaderOffset ps < 2 ^ 63 - 1"
      using k(2) by (auto simp: partition_ok_def)
    then have "isub (leaderOffset ps) (rOffset r0) = leaderOffset ps - rOffset r0"
      by (intro isub_id) (simp add: int64_ok_def)
    with r0 assms(2) b show ?thesis by (auto simp: markReplica_def Let_def)
  qed
  then have set_eq: "insert (leaderOffset ps) ((rOffset \<circ> snd) ` set (inSync (recompute (rcfg m) now ps))) = {leaderOffset ps}"
    by auto
  have "highWatermark (recompute (rcfg m) now ps) = leaderOffset ps"
    unfolding recompute_hw [OF k(2)] set_eq by simp
  then show ?thesis using e k(3,7) by (simp add: HighWatermark_def Let_def current_recomputeLocked)
qed

text \<open>
  With a positive \<open>MaxReplicaLag\<close> the high watermark can move back: when a follower that is one
  record behind comes back in sync, the watermark falls to its offset, below what was already
  reported to consumers.
\<close>

lemma watermark_moves_back:
  "snd (HighWatermark 2 ''orders'' 0 (OnLeaderAppend 1 ''orders'' 0 4 (NewManager sample_config False))) = 4 \<and>
   snd (HighWatermark 2 ''orders'' 0 (fst (AckReplica 2 2 ''orders'' 0 1 3
     (OnLeaderAppend 1 ''orders'' 0 4 (NewManager sample_config False))))) = 3"
proof -
  let ?m = "OnLeaderAppend 1 ''orders'' 0 4 (NewManager sample_config False)"
  have m: "manager_ok ?m" by (intro OnLeaderAppend_ok NewManager_ok) simp
  have v: "currentPartition ''orders'' 0 ?m = appended" "rcfg ?m = sample_config"
    "currentPartition ''orders'' 0 (fst (AckReplica 2 2 ''orders'' 0 1 3 ?m)) = acked 3"
    "rcfg (fst (AckReplica 2 2 ''orders'' 0 1 3 ?m)) = sample_config"
    using sample_appended [of 1, simplified sample_config_lag] sample_acked [of 3]
    by (simp_all add: currentPartition_def ensurePartition_def mget2_def)
  have "recompute sample_config 2 appended = appended"
    using recompute_appended [of 1 2 "highWatermark appended"] by (simp add: sample_config_lag)
  then show ?thesis
    using recompute_acked_again [of 2 3]
    by (simp add: HighWatermark_value m AckReplica_ok v) (simp add: appended_def acked_def)
qed

end
