(* ===== verification/Json.thy ===== *)
theory Json
  imports Go_Strings
begin

text \<open>
  The part of \<open>encoding/json\<close> and \<open>os\<close> that the coordinator's two state files use.

  \<^item> A document is a tree \<open>json\<close>; \<open>JOther\<close> stands for the values the program never expects
    (booleans, numbers that are no integers). Objects list their members in textual order.
  \<^item> The encoders give the tree the Go encoder writes for maps (members sorted by key, integer
    keys in decimal), slices (a nil slice is \<open>null\<close>), structs (members by tag), strings and
    integers. Strings are taken to be valid UTF-8, which the encoder keeps.
  \<^item> A decoder returns the decoded value and whether no type error was met: as in Go, a value of
    the wrong type leaves the zero value behind and decoding goes on.
  \<^item> A state file is absent, holds a document, or holds text that does not parse: \<open>os.Create\<close>
    truncates the file before the encoder writes it, so a failed write destroys the old content.
\<close>

section \<open>Documents\<close>

datatype json =
  JNull
| JNum int
| JStr string
| JArr "json list"
| JObj "(string \<times> json) list"
| JOther

section \<open>Encoding\<close>

definition encMap :: "('v \<Rightarrow> json) \<Rightarrow> (string, 'v) gomap \<Rightarrow> json" where
  "encMap enc m = JObj (map (\<lambda>(k, v). (k, enc v)) (sort_key fst m))"

definition encIntMap :: "('v \<Rightarrow> json) \<Rightarrow> (int, 'v) gomap \<Rightarrow> json" where
  "encIntMap enc m = encMap enc (map (\<lambda>(k, v). (Itoa k, v)) m)"

text \<open>\<open>append([]T(nil), xs...)\<close> of an empty slice is the nil slice.\<close>

definition encCopy :: "('v \<Rightarrow> json) \<Rightarrow> 'v list \<Rightarrow> json" where
  "encCopy enc xs = (if xs = [] then JNull else JArr (map enc xs))"

section \<open>Decoding\<close>

type_synonym 'v decoder = "json \<Rightarrow> 'v \<times> bool"

fun decInt :: "int decoder" where
  "decInt (JNum n) = (if int64_ok n then (n, True) else (0, False))"
| "decInt JNull = (0, True)"
| "decInt _ = (0, False)"

fun decStr :: "string decoder" where
  "decStr (JStr s) = (s, True)"
| "decStr JNull = ([], True)"
| "decStr _ = ([], False)"

fun decList :: "'v decoder \<Rightarrow> 'v list decoder" where
  "decList d (JArr xs) = (map (fst \<circ> d) xs, list_all (snd \<circ> d) xs)"
| "decList d JNull = ([], True)"
| "decList d _ = ([], False)"

fun decMap :: "'v decoder \<Rightarrow> (string, 'v) gomap decoder" where
  "decMap d (JObj kvs) =
     fold (\<lambda>(k, j) (m, ok). (mput k (fst (d j)) m, ok \<and> snd (d j))) kvs ([], True)"
| "decMap d JNull = ([], True)"
| "decMap d _ = ([], False)"

fun decIntMap :: "'v decoder \<Rightarrow> (int, 'v) gomap decoder" where
  "decIntMap d (JObj kvs) =
     fold (\<lambda>(k, j) (m, ok). case Atoi k of
              None \<Rightarrow> (m, False)
            | Some i \<Rightarrow> (mput i (fst (d j)) m, ok \<and> snd (d j))) kvs ([], True)"
| "decIntMap d JNull = ([], True)"
| "decIntMap d _ = ([], False)"

definition decField :: "string \<Rightarrow> 'v decoder \<Rightarrow> 'v \<Rightarrow> (string \<times> json) list \<Rightarrow> 'v \<times> bool" where
  "decField name d zero kvs = (case map_of kvs name of None \<Rightarrow> (zero, True) | Some j \<Rightarrow> d j)"

section \<open>State files\<close>

datatype stateFile = Absent | Torn | Doc json

record fileIO =
  dirOK :: bool
  createOK :: bool
  encodeOK :: bool
  fopenOK :: bool

definition writeState :: "fileIO \<Rightarrow> json \<Rightarrow> stateFile \<Rightarrow> stateFile" where
  "writeState env doc f =
     (if \<not> dirOK env \<or> \<not> createOK env then f
      else if encodeOK env then Doc doc
      else Torn)"

fun readState :: "fileIO \<Rightarrow> stateFile \<Rightarrow> json option" where
  "readState env (Doc j) = (if fopenOK env then Some j else None)"
| "readState env _ = None"

definition file_io_ok :: "fileIO \<Rightarrow> bool" where
  "file_io_ok env \<longleftrightarrow> dirOK env \<and> createOK env \<and> encodeOK env \<and> fopenOK env"

definition good_file_io :: fileIO where
  "good_file_io = \<lparr>dirOK = True, createOK = True, encodeOK = True, fopenOK = True\<rparr>"

lemma good_file_io_ok [simp]: "file_io_ok good_file_io"
  by (simp add: file_io_ok_def good_file_io_def)

lemma readState_writeState: "file_io_ok env \<Longrightarrow> readState env (writeState env j f) = Some j"
  by (simp add: file_io_ok_def writeState_def)

section \<open>Round trips\<close>

lemma mwf_sorted [simp]: "mwf (sort_key fst m) \<longleftrightarrow> mwf m"
  by (simp add: distinct_map)

lemma map_of_sorted [simp]: "mwf m \<Longrightarrow> map_of (sort_key fst m) = map_of m"
  by (simp add: map_of_inject_set)

lemma mput_fresh: "k \<notin> set (mkeys m) \<Longrightarrow> mput k v m = m @ [(k, v)]"
  by (induction m) (auto simp: mput_def)

lemma decMap_fold:
  assumes "distinct (mkeys m @ mkeys kvs)"
  shows "fold (\<lambda>(k, j) (m, ok). (mput k (fst (d j)) m, ok \<and> snd (d j))) kvs (m, ok)
       = (m @ map (\<lambda>(k, j). (k, fst (d j))) kvs, ok \<and> (\<forall>(k, j) \<in> set kvs. snd (d j)))"
  using assms
proof (induction kvs arbitrary: m ok)
  case (Cons a kvs)
  obtain k j where a: "a = (k, j)" by force
  have k: "k \<notin> set (mkeys m)" using Cons.prems a by auto
  have "distinct (mkeys (m @ [(k, fst (d j))]) @ mkeys kvs)" using Cons.prems a by auto
  from Cons.IH [OF this] show ?case
    using a by (simp add: mput_fresh [OF k])
qed simp

text \<open>A map is decoded to its entries in key order, when its values are decoded by \<open>g\<close>.\<close>

lemma decMap_encMap:
  assumes "mwf m" "\<And>k v. (k, v) \<in> set m \<Longrightarrow> d (enc v) = (g v, True)"
  shows "decMap d (encMap enc m) = (map (\<lambda>(k, v). (k, g v)) (sort_key fst m), True)"
proof -
  let ?s = "map (\<lambda>(k, v). (k, enc v)) (sort_key fst m)"
  have "mkeys ?s = mkeys (sort_key fst m)" by (simp add: case_prod_unfold comp_def)
  then have "distinct (mkeys [] @ mkeys ?s)" using assms(1)
    by (simp only: mwf_sorted append_Nil list.map)
  from decMap_fold [OF this, where d = d and ok = True]
  show ?thesis
    using assms(2) by (auto simp: encMap_def)
qed

lemma map_of_map_snd: "map_of (map (\<lambda>(k, v). (k, g v)) m) k = map_option g (map_of m k)"
  by (induction m) auto

lemma decMap_lookup:
  assumes "mwf m" "\<forall>(k, v) \<in> set m. snd (d (enc v))"
  shows "map_of (fst (decMap d (encMap enc m))) k = map_option (\<lambda>v. fst (d (enc v))) (map_of m k)
       \<and> snd (decMap d (encMap enc m))"
proof -
  have "decMap d (encMap enc m) = (map (\<lambda>(k, v). (k, fst (d (enc v)))) (sort_key fst m), True)"
    using assms(2) by (intro decMap_encMap [OF assms(1)]) (auto simp: prod_eq_iff)
  then show ?thesis using assms(1) by (simp add: map_of_map_snd)
qed

lemma decIntMap_fold:
  assumes "distinct (mkeys m @ map (\<lambda>a. the (Atoi (fst a))) kvs)" "\<forall>(k, j) \<in> set kvs. Atoi k \<noteq> None"
  shows "fold (\<lambda>(k, j) (m, ok). case Atoi k of
              None \<Rightarrow> (m, False)
            | Some i \<Rightarrow> (mput i (fst (d j)) m, ok \<and> snd (d j))) kvs (m, ok)
       = (m @ map (\<lambda>(k, j). (the (Atoi k), fst (d j))) kvs, ok \<and> (\<forall>(k, j) \<in> set kvs. snd (d j)))"
  using assms
proof (induction kvs arbitrary: m ok)
  case (Cons a kvs)
  obtain k j where a: "a = (k, j)" by force
  then obtain i where i: "Atoi k = Some i" using Cons.prems(2) by auto
  have k: "i \<notin> set (mkeys m)" using Cons.prems a i by auto
  have "distinct (mkeys (m @ [(i, fst (d j))]) @ map (\<lambda>a. the (Atoi (fst a))) kvs)"
    using Cons.prems a i by auto
  from Cons.IH [OF this] show ?case
    using a i Cons.prems(2) by (simp add: mput_fresh [OF k])
qed simp

lemma decIntMap_encIntMap:
  assumes m: "mwf m" "\<And>k v. (k, v) \<in> set m \<Longrightarrow> int64_ok k \<and> d (enc v) = (g v, True)"
  shows "map_of (fst (decIntMap d (encIntMap enc m))) k = map_option g (map_of m k)
       \<and> snd (decIntMap d (encIntMap enc m))"
proof -
  let ?t = "map (\<lambda>(k, v). (Itoa k, v)) m"
  let ?s = "map (\<lambda>(k, v). (k, enc v)) (sort_key fst ?t)"
  let ?f = "\<lambda>(k, v). (the (Atoi k), v)"
  have ok: "\<forall>(k, v) \<in> set ?t. \<exists>i. Atoi k = Some i \<and> (i, v) \<in> set m"
    using m(2) by fastforce
  have undo: "map ?f ?t = m"
    using m(2) by (auto simp: comp_def intro!: map_idI)
  have dist: "distinct ?t" "inj_on (fst \<circ> ?f) (set ?t)"
    using m(1) undo by (metis distinct_map map_map)+
  then have d2: "mwf (map ?f (sort_key fst ?t))"
    by (simp only: map_map distinct_map distinct_sort set_sort)
  have sets: "set (map ?f (sort_key fst ?t)) = set m"
    using undo by (metis set_map set_sort)
  have "map (\<lambda>a. the (Atoi (fst a))) ?s = mkeys (map ?f (sort_key fst ?t))"
    by (simp add: case_prod_unfold comp_def)
  then have 1: "distinct (mkeys [] @ map (\<lambda>a. the (Atoi (fst a))) ?s)" using d2
    by (simp only: append_Nil list.map)
  have 2: "\<forall>(k, j) \<in> set ?s. Atoi k \<noteq> None" using ok by fastforce
  have 3: "\<forall>(k, j) \<in> set ?s. snd (d j)" using m(2) by fastforce
  have "decIntMap d (encIntMap enc m)
      = (map (\<lambda>(k, j). (the (Atoi k), fst (d j))) ?s, True)"
    using decIntMap_fold [OF 1 2, where d = d and ok = True] 3
    by (simp add: encIntMap_def encMap_def)
  moreover have "map (\<lambda>(k, j). (the (Atoi k), fst (d j))) ?s
      = map (\<lambda>(k, v). (k, g v)) (map ?f (sort_key fst ?t))"
    using m(2) by (auto simp: comp_def)
  moreover have "map_of (map ?f (sort_key fst ?t)) = map_of m"
    using sets d2 m(1) by (simp only: map_of_inject_set)
  ultimately show ?thesis
    by (simp only: map_of_map_snd fst_conv snd_conv)
qed

text \<open>Whatever the document, a decoded map has distinct keys and decoded values.\<close>

lemma decMap_wf:
  "mwf (fst (decMap d j)) \<and> (\<forall>(k, v) \<in> set (fst (decMap d j)). v \<in> range (fst \<circ> d))"
proof (cases j)
  case (JObj kvs)
  let ?P = "\<lambda>m. mwf m \<and> (\<forall>(k, v) \<in> set m. v \<in> range (fst \<circ> d))"
  let ?f = "\<lambda>(k, j) (m, ok). (mput k (fst (d j)) m, ok \<and> snd (d j))"
  have "?P m \<Longrightarrow> ?P (fst (fold ?f kvs (m, b)))" for m b
  proof (induction kvs arbitrary: m b)
    case (Cons a kvs)
    have "?P (mput (fst a) (fst (d (snd a))) m)"
      using Cons.prems set_mput_subset [of "fst a" "fst (d (snd a))" m] by (simp add: subset_iff) blast
    from Cons.IH [OF this] show ?case by (simp add: case_prod_unfold)
  qed simp
  from this [of "[]" True] show ?thesis using JObj by simp
qed simp_all

lemma decIntMap_wf:
  "mwf (fst (decIntMap d j))
   \<and> (\<forall>(k, v) \<in> set (fst (decIntMap d j)). int64_ok k \<and> v \<in> range (fst \<circ> d))"
proof (cases j)
  case (JObj kvs)
  let ?P = "\<lambda>m. mwf m \<and> (\<forall>(k, v) \<in> set m. int64_ok k \<and> v \<in> range (fst \<circ> d))"
  let ?f = "\<lambda>(k, j) (m, ok). case Atoi k of
              None \<Rightarrow> (m, False)
            | Some i \<Rightarrow> (mput i (fst (d j)) m, ok \<and> snd (d j))"
  have "?P m \<Longrightarrow> ?P (fst (fold ?f kvs (m, b)))" for m b
  proof (induction kvs arbitrary: m b)
    case (Cons a kvs)
    show ?case
    proof (cases "Atoi (fst a)")
      case None
      from Cons.IH [OF Cons.prems] show ?thesis using None by (simp add: case_prod_unfold)
    next
      case (Some i)
      have "?P (mput i (fst (d (snd a))) m)"
        using Cons.prems Atoi_int64_ok [OF Some] set_mput_subset [of i "fst (d (snd a))" m]
        by (simp add: subset_iff) blast
      from Cons.IH [OF this] show ?thesis using Some by (simp add: case_prod_unfold)
    qed
  qed simp
  from this [of "[]" True] show ?thesis using JObj by simp
qed simp_all

lemma decInt_int64_ok: "int64_ok (fst (decInt j))"
  by (cases j) (simp_all add: int64_ok_def)

lemma decList_encCopy: "(\<And>x. x \<in> set xs \<Longrightarrow> d (enc x) = (g x, True)) \<Longrightarrow>
    decList d (encCopy enc xs) = (map g xs, True)"
  by (auto simp: encCopy_def list_all_iff)

lemma decInt_JNum [simp]: "int64_ok n \<Longrightarrow> decInt (JNum n) = (n, True)"
  by simp

end
