(* ===== verification/Offsets.thy ===== *)
theory Offsets
  imports Json
begin

text \<open>
  \<open>coordinator/offset.go\<close>: the committed positions of the consumer groups.

  \<^item> \<open>OffsetManager\<close> is the struct of that name with the content of its file \<open>offsets.json\<close>;
    every commit rewrites the whole file.
  \<^item> The locale \<open>position_store\<close> is what the request handlers rely on: a position read is the last
    one committed, also over restarts. It is interpreted on the operations of the manager.
\<close>

section \<open>Data and operations\<close>

record OffsetManager =
  offsets :: "(string, (string, (int, int) gomap) gomap) gomap"
  offsetsFile :: stateFile

definition offsetsDoc :: "OffsetManager \<Rightarrow> json" where
  "offsetsDoc om = encMap (encMap (encIntMap JNum)) (offsets om)"

definition saveOffsets :: "fileIO \<Rightarrow> OffsetManager \<Rightarrow> OffsetManager" where
  "saveOffsets env om = om\<lparr>offsetsFile := writeState env (offsetsDoc om) (offsetsFile om)\<rparr>"

definition decOffsets :: "(string, (string, (int, int) gomap) gomap) gomap decoder" where
  "decOffsets = decMap (decMap (decIntMap decInt))"

definition loadOffsets :: "fileIO \<Rightarrow> OffsetManager \<Rightarrow> OffsetManager" where
  "loadOffsets env om =
     (case readState env (offsetsFile om) of
        None \<Rightarrow> om
      | Some j \<Rightarrow> om\<lparr>offsets := fst (decOffsets j)\<rparr>)"

definition NewOffsetManager :: "fileIO \<Rightarrow> stateFile \<Rightarrow> OffsetManager" where
  "NewOffsetManager env f = loadOffsets env \<lparr>offsets = [], offsetsFile = f\<rparr>"

definition Commit :: "fileIO \<Rightarrow> string \<Rightarrow> string \<Rightarrow> int \<Rightarrow> int \<Rightarrow> OffsetManager \<Rightarrow> OffsetManager" where
  "Commit env groupName topic part offset om =
     (let topics = (case map_of (offsets om) groupName of None \<Rightarrow> [] | Some ts \<Rightarrow> ts)
      in saveOffsets env
           (om\<lparr>offsets := mput groupName (mput2 topic part offset topics) (offsets om)\<rparr>))"

definition GetOffset :: "string \<Rightarrow> string \<Rightarrow> int \<Rightarrow> OffsetManager \<Rightarrow> int" where
  "GetOffset groupName topic part om =
     (case map_of (offsets om) groupName of
        None \<Rightarrow> 0
      | Some groupData \<Rightarrow>
          (case map_of groupData topic of
             None \<Rightarrow> 0
           | Some topicData \<Rightarrow>
               (case map_of topicData part of None \<Rightarrow> 0 | Some offset \<Rightarrow> offset)))"

section \<open>Invariant\<close>

definition positions_ok :: "(int, int) gomap \<Rightarrow> bool" where
  "positions_ok m \<longleftrightarrow> mwf m \<and> (\<forall>(p, v) \<in> set m. int64_ok p \<and> int64_ok v)"

definition topics_ok :: "(string, (int, int) gomap) gomap \<Rightarrow> bool" where
  "topics_ok m \<longleftrightarrow> mwf m \<and> (\<forall>(t, n) \<in> set m. positions_ok n)"

definition offsets_ok :: "OffsetManager \<Rightarrow> bool" where
  "offsets_ok om \<longleftrightarrow> mwf (offsets om) \<and> (\<forall>(g, m) \<in> set (offsets om). topics_ok m)"

lemma ok_mput:
  assumes "mwf m" "\<forall>(k, v) \<in> set m. P k v" "P k v"
  shows "mwf (mput k v m) \<and> (\<forall>(k, v) \<in> set (mput k v m). P k v)"
  using assms ball_mput [of m P] by simp

lemma positions_ok_mput:
  "positions_ok m \<Longrightarrow> int64_ok p \<Longrightarrow> int64_ok v \<Longrightarrow> positions_ok (mput p v m)"
  unfolding positions_ok_def by (rule ok_mput) auto

lemma topics_ok_mput: "topics_ok m \<Longrightarrow> positions_ok n \<Longrightarrow> topics_ok (mput t n m)"
  unfolding topics_ok_def by (rule ok_mput) auto

lemma offsets_ok_Commit:
  assumes "offsets_ok om" "int64_ok p" "int64_ok v"
  shows "offsets_ok (Commit env g t p v om)"
proof -
  let ?ts = "case map_of (offsets om) g of None \<Rightarrow> [] | Some ts \<Rightarrow> ts"
  let ?ps = "case map_of ?ts t of None \<Rightarrow> [] | Some ps \<Rightarrow> ps"
  have ts: "topics_ok ?ts"
    using assms(1) by (cases "map_of (offsets om) g") (auto simp: offsets_ok_def topics_ok_def [of "[]"] dest: map_of_SomeD)
  then have "positions_ok ?ps"
    by (cases "map_of ?ts t") (auto simp: topics_ok_def positions_ok_def [of "[]"] dest: map_of_SomeD)
  then have "topics_ok (mput2 t p v ?ts)"
    unfolding mput2_def by (intro topics_ok_mput positions_ok_mput ts assms(2,3))
  then have "mwf (mput g (mput2 t p v ?ts) (offsets om))
      \<and> (\<forall>(g, m) \<in> set (mput g (mput2 t p v ?ts) (offsets om)). topics_ok m)"
    using assms(1) unfolding offsets_ok_def by (intro ok_mput) auto
  then show ?thesis
    by (simp add: offsets_ok_def Commit_def saveOffsets_def Let_def)
qed

lemma offsets_ok_NewOffsetManager: "offsets_ok (NewOffsetManager env f)"
proof -
  have 1: "positions_ok (fst (decIntMap decInt j))" for j
    using decIntMap_wf [of decInt j] decInt_int64_ok by (fastforce simp: positions_ok_def)
  have 2: "topics_ok (fst (decMap (decIntMap decInt) j))" for j
    using decMap_wf [of "decIntMap decInt" j] 1 by (fastforce simp: topics_ok_def)
  have "mwf (fst (decOffsets j)) \<and> (\<forall>(g, m) \<in> set (fst (decOffsets j)). topics_ok m)" for j
    using decMap_wf [of "decMap (decIntMap decInt)" j] 2 by (fastforce simp: decOffsets_def)
  then show ?thesis
    by (simp add: offsets_ok_def NewOffsetManager_def loadOffsets_def split: option.split)
qed

section \<open>Reading back what was written\<close>

lemma positions_round_trip:
  "positions_ok m \<Longrightarrow> map_of (fst (decIntMap decInt (encIntMap JNum m))) p = map_of m p
                   \<and> snd (decIntMap decInt (encIntMap JNum m))"
  using decIntMap_encIntMap [of m decInt JNum "\<lambda>v. v" p]
  by (fastforce simp: positions_ok_def option.map_ident)

lemma topics_round_trip:
  assumes "topics_ok m"
  shows "map_of (fst (decMap (decIntMap decInt) (encMap (encIntMap JNum) m))) t
         = map_option (\<lambda>n. fst (decIntMap decInt (encIntMap JNum n))) (map_of m t)
       \<and> snd (decMap (decIntMap decInt) (encMap (encIntMap JNum) m))"
proof (rule decMap_lookup)
  show "\<forall>(t, n) \<in> set m. snd (decIntMap decInt (encIntMap JNum n))"
    using assms positions_round_trip by (auto simp: topics_ok_def)
qed (use assms in \<open>simp add: topics_ok_def\<close>)

lemma offsets_round_trip:
  assumes "offsets_ok om"
  shows "map_of (fst (decOffsets (offsetsDoc om))) g
         = map_option (\<lambda>m. fst (decMap (decIntMap decInt) (encMap (encIntMap JNum) m)))
             (map_of (offsets om) g)"
proof -
  have "\<forall>(g, m) \<in> set (offsets om). snd (decMap (decIntMap decInt) (encMap (encIntMap JNum) m))"
    using assms topics_round_trip by (auto simp: offsets_ok_def)
  from decMap_lookup [OF _ this] show ?thesis
    using assms by (simp add: offsets_ok_def offsetsDoc_def decOffsets_def)
qed

lemma GetOffset_reload:
  assumes "offsets_ok om" "fopenOK env"
  shows "GetOffset g t p (NewOffsetManager env (Doc (offsetsDoc om))) = GetOffset g t p om"
proof (cases "map_of (offsets om) g")
  case None
  then show ?thesis
    using assms offsets_round_trip [of om g]
    by (simp add: GetOffset_def NewOffsetManager_def loadOffsets_def)
next
  case (Some m)
  then have m: "topics_ok m"
    using assms(1) by (auto simp: offsets_ok_def dest: map_of_SomeD)
  have n: "positions_ok n" if "map_of m t = Some n" for n
    using that m by (auto simp: topics_ok_def dest: map_of_SomeD)
  show ?thesis
    using assms Some offsets_round_trip [of om g] topics_round_trip [OF m, of t]
      positions_round_trip [OF n]
    by (simp add: GetOffset_def NewOffsetManager_def loadOffsets_def split: option.split)
qed

lemma GetOffset_Commit:
  "GetOffset g t p (Commit env g' t' p' v om)
   = (if g = g' \<and> t = t' \<and> p = p' then v else GetOffset g t p om)"
  by (auto simp: GetOffset_def Commit_def saveOffsets_def mput2_def Let_def split: option.splits)

section \<open>The interface of the handlers\<close>

datatype ('k, 'v) event = Committed 'k 'v | Restarted

primrec eventRun ::
  "('k \<Rightarrow> 'v \<Rightarrow> 's \<Rightarrow> 's) \<Rightarrow> ('s \<Rightarrow> 's) \<Rightarrow> ('k, 'v) event list \<Rightarrow> 's \<Rightarrow> 's" where
  "eventRun commit restart [] s = s"
| "eventRun commit restart (e # es) s = eventRun commit restart es
     (case e of Committed k v \<Rightarrow> commit k v s | Restarted \<Rightarrow> restart s)"

primrec lastCommitted :: "'k \<Rightarrow> ('k, 'v) event list \<Rightarrow> 'v \<Rightarrow> 'v" where
  "lastCommitted k [] old = old"
| "lastCommitted k (e # es) old = lastCommitted k es
     (case e of Committed k' v \<Rightarrow> if k = k' then v else old | Restarted \<Rightarrow> old)"

locale position_store =
  fixes commit :: "'k \<Rightarrow> 'v \<Rightarrow> 's \<Rightarrow> 's"
    and restart :: "'s \<Rightarrow> 's"
    and get :: "'k \<Rightarrow> 's \<Rightarrow> 'v"
    and valid :: "'k \<Rightarrow> 'v \<Rightarrow> bool"
    and inv :: "'s \<Rightarrow> bool"
  assumes inv_commit: "inv s \<Longrightarrow> valid k v \<Longrightarrow> inv (commit k v s)"
    and inv_restart: "inv s \<Longrightarrow> inv (restart s)"
    and get_commit: "inv s \<Longrightarrow> get k (commit k' v s) = (if k = k' then v else get k s)"
    and get_restart: "inv s \<Longrightarrow> get k (restart s) = get k s"
begin

lemma get_run:
  assumes "inv s" "\<forall>k v. Committed k v \<in> set es \<longrightarrow> valid k v"
  shows "get k (eventRun commit restart es s) = lastCommitted k es (get k s)"
  using assms
proof (induction es arbitrary: s)
  case (Cons e es)
  then show ?case
    by (cases e) (simp_all add: inv_commit inv_restart get_commit get_restart)
qed simp

end

type_synonym position = "string \<times> string \<times> int"

definition commitAt :: "fileIO \<Rightarrow> position \<Rightarrow> int \<Rightarrow> OffsetManager \<Rightarrow> OffsetManager" where
  "commitAt env pos v om = (case pos of (g, t, p) \<Rightarrow> Commit env g t p v om)"

definition positionAt :: "position \<Rightarrow> OffsetManager \<Rightarrow> int" where
  "positionAt pos om = (case pos of (g, t, p) \<Rightarrow> GetOffset g t p om)"

definition restartOffsets :: "fileIO \<Rightarrow> OffsetManager \<Rightarrow> OffsetManager" where
  "restartOffsets env om = NewOffsetManager env (offsetsFile om)"

definition offsets_synced :: "fileIO \<Rightarrow> OffsetManager \<Rightarrow> bool" where
  "offsets_synced env om \<longleftrightarrow> file_io_ok env \<and> offsets_ok om
     \<and> (\<forall>g t p. GetOffset g t p (restartOffsets env om) = GetOffset g t p om)"

lemma restartOffsets_again: "restartOffsets env (restartOffsets env om) = restartOffsets env om"
  by (simp add: restartOffsets_def NewOffsetManager_def loadOffsets_def split: option.split)

lemma offsets_synced_Commit:
  assumes "offsets_synced env om" "int64_ok p" "int64_ok v"
  shows "offsets_synced env (Commit env g t p v om)"
proof -
  let ?om = "Commit env g t p v om"
  have ok: "file_io_ok env" "offsets_ok ?om"
    using assms offsets_ok_Commit by (auto simp: offsets_synced_def)
  have "offsetsFile ?om = Doc (offsetsDoc ?om)"
    using ok(1) by (simp add: Commit_def saveOffsets_def Let_def writeState_def file_io_ok_def offsetsDoc_def)
  then show ?thesis
    using ok GetOffset_reload by (simp add: offsets_synced_def restartOffsets_def file_io_ok_def)
qed

definition position_ok :: "position \<Rightarrow> int \<Rightarrow> bool" where
  "position_ok pos v \<longleftrightarrow> (case pos of (g, t, p) \<Rightarrow> int64_ok p) \<and> int64_ok v"

interpretation committed: position_store "commitAt env" "restartOffsets env" positionAt position_ok
  "offsets_synced env"
  for env :: fileIO
proof
  fix s k v
  assume "offsets_synced env s" "position_ok k v"
  then show "offsets_synced env (commitAt env k v s)"
    by (cases k) (simp add: commitAt_def position_ok_def offsets_synced_Commit)
next
  fix s
  assume "offsets_synced env s"
  then show "offsets_synced env (restartOffsets env s)"
    unfolding offsets_synced_def restartOffsets_again
    by (simp add: restartOffsets_def offsets_ok_NewOffsetManager)
next
  fix s k k' v
  assume "offsets_synced env s"
  show "positionAt k (commitAt env k' v s) = (if k = k' then v else positionAt k s)"
    by (cases k; cases k') (auto simp: positionAt_def commitAt_def GetOffset_Commit)
next
  fix s k
  assume "offsets_synced env s"
  then show "positionAt k (restartOffsets env s) = positionAt k s"
    by (cases k) (simp add: positionAt_def offsets_synced_def)
qed

section \<open>Properties\<close>

lemma offsets_synced_fresh: "file_io_ok env \<Longrightarrow> offsets_synced env (NewOffsetManager env Absent)"
  using offsets_ok_NewOffsetManager [of env Absent]
  by (simp add: offsets_synced_def restartOffsets_def NewOffsetManager_def loadOffsets_def)

text \<open>
  C27. Committed positions survive restarts. From a fresh manager, or any manager whose file agrees
  with its memory, after any sequence of commits and restarts with a working file system, the
  position of every group, topic and partition is the last one committed for it, and the one it had
  before when none was; other groups, topics and partitions are not touched by a commit. Committed
  partitions and offsets are 64-bit integers, as the request parser gives them.
\<close>

theorem positions_survive_restarts:
  assumes "offsets_synced env om" "\<forall>pos v. Committed pos v \<in> set es \<longrightarrow> position_ok pos v"
  shows "GetOffset g t p (eventRun (commitAt env) (restartOffsets env) es om)
         = lastCommitted (g, t, p) es (GetOffset g t p om)"
  using committed.get_run [OF assms, of "(g, t, p)"] by (simp add: positionAt_def)

theorem positions_survive_restarts_witness:
  "GetOffset ''billing'' ''orders'' 2
     (eventRun (commitAt good_file_io) (restartOffsets good_file_io)
        [Committed (''billing'', ''orders'', 2) 5, Restarted, Committed (''audit'', ''orders'', 2) 9,
         Committed (''billing'', ''orders'', 2) 7, Restarted]
        (NewOffsetManager good_file_io Absent)) = 7"
  by (subst positions_survive_restarts)
    (auto simp: offsets_synced_fresh position_ok_def int64_ok_def)

text \<open>
  A commit whose write fails empties the file: after the next restart every group is back at
  position 0, while the running broker still answers the new position.
\<close>

theorem failed_write_loses_positions:
  assumes "dirOK env" "createOK env" "\<not> encodeOK env"
  shows "GetOffset g t p (Commit env g t p v om) = v"
    and "GetOffset g' t' p' (restartOffsets env' (Commit env g t p v om)) = 0"
  using assms by (simp_all add: GetOffset_Commit)
    (simp add: restartOffsets_def Commit_def saveOffsets_def writeState_def Let_def
      NewOffsetManager_def loadOffsets_def GetOffset_def)

end
