(* ===== verification/Consumer_Groups.thy ===== *)
theory Consumer_Groups
  imports Json
begin

text \<open>
  \<open>coordinator/group.go\<close>: consumer groups, their members and the partitions each member owns.

  \<^item> The structs are the records of the same names; \<open>groupsFile\<close> is the content of
    \<open>groups.json\<close>. A \<open>*ConsumerGroup\<close> is a value here, stored back by \<open>putGroup\<close> where the
    source writes through the pointer.
  \<^item> Every operation runs under the manager's lock and is one step; the instants \<open>time.Now\<close>
    returns are arguments (two of them where the source asks twice).
  \<^item> \<open>numPartitions\<close> is a natural number: the configuration accepts positive counts only.
\<close>

section \<open>Data\<close>

record JoinResult =
  jGeneration :: int
  jAssigned :: "int list"

record GroupMember =
  memberID :: string
  lastHeartbeat :: int

record ConsumerGroup =
  gName :: string
  gTopic :: string
  generation :: int
  assignor :: string
  members :: "(string, GroupMember) gomap"
  memberOrder :: "string list"
  assignments :: "(string, int list) gomap"

record GroupManager =
  partitionCount :: nat
  sessionTimeout :: int
  groups :: "(string, ConsumerGroup) gomap"
  groupsFile :: stateFile

record persistedGroupMember =
  pConsumerID :: string
  pLastHeartbeat :: int

record persistedGroupState =
  pTopic :: string
  pGeneration :: int
  pAssignor :: string
  pMemberOrder :: "string list"
  pAssignments :: "(string, int list) gomap"
  pMembers :: "persistedGroupMember list"

section \<open>Assignment of partitions\<close>

text \<open>\<open>group.assignments[memberID]\<close>, the nil slice for a member without an entry.\<close>

definition owned :: "(string, int list) gomap \<Rightarrow> string \<Rightarrow> int list" where
  "owned asg m = (case map_of asg m of None \<Rightarrow> [] | Some ps \<Rightarrow> ps)"

definition assignRoundRobin :: "nat \<Rightarrow> string list \<Rightarrow> (string, int list) gomap" where
  "assignRoundRobin n ms =
     fold (\<lambda>p asg. let m = ms ! (p mod length ms) in mput m (owned asg m @ [int p]) asg) [0..<n] []"

fun assignRangeFrom ::
  "nat \<Rightarrow> nat \<Rightarrow> nat \<Rightarrow> nat \<Rightarrow> string list \<Rightarrow> (string, int list) gomap \<Rightarrow> (string, int list) gomap" where
  "assignRangeFrom base extra idx start [] asg = asg"
| "assignRangeFrom base extra idx start (m # ms) asg =
     (let count = (if idx < extra then base + 1 else base)
      in if count = 0 then assignRangeFrom base extra (idx + 1) start ms (mput m [] asg)
         else assignRangeFrom base extra (idx + 1) (start + count) ms
                (mput m (map int [start..<start + count]) asg))"

definition assignRange :: "nat \<Rightarrow> string list \<Rightarrow> (string, int list) gomap" where
  "assignRange n ms = assignRangeFrom (n div length ms) (n mod length ms) 0 0 ms []"

definition assignmentFor :: "nat \<Rightarrow> string \<Rightarrow> string list \<Rightarrow> (string, int list) gomap" where
  "assignmentFor n strategy order =
     (if order = [] then []
      else if strategy = ''range'' then assignRange n (sort order)
      else assignRoundRobin n (sort order))"

definition rebalanceLocked :: "nat \<Rightarrow> ConsumerGroup \<Rightarrow> ConsumerGroup" where
  "rebalanceLocked n g = g\<lparr>assignments := assignmentFor n (assignor g) (memberOrder g)\<rparr>"

section \<open>The state file\<close>

definition persistGroup :: "ConsumerGroup \<Rightarrow> persistedGroupState" where
  "persistGroup g =
     \<lparr>pTopic = gTopic g, pGeneration = generation g, pAssignor = assignor g,
      pMemberOrder = memberOrder g, pAssignments = assignments g,
      pMembers = List.map_filter (\<lambda>c. map_option
          (\<lambda>m. \<lparr>pConsumerID = memberID m, pLastHeartbeat = time_UnixMilli (lastHeartbeat m)\<rparr>)
          (map_of (members g) c)) (memberOrder g)\<rparr>"

definition encMember :: "persistedGroupMember \<Rightarrow> json" where
  "encMember pm = JObj [(''consumer_id'', JStr (pConsumerID pm)),
                        (''last_heartbeat_unix_ms'', JNum (pLastHeartbeat pm))]"

definition encState :: "persistedGroupState \<Rightarrow> json" where
  "encState st = JObj [(''topic'', JStr (pTopic st)), (''generation'', JNum (pGeneration st)),
     (''assignor'', JStr (pAssignor st)), (''member_order'', encCopy JStr (pMemberOrder st)),
     (''assignments'', encMap (encCopy JNum) (pAssignments st)),
     (''members'', JArr (map encMember (pMembers st)))]"

definition groupsDoc :: "GroupManager \<Rightarrow> json" where
  "groupsDoc gm = encMap encState (map (\<lambda>(name, g). (name, persistGroup g)) (groups gm))"

definition saveLocked :: "fileIO \<Rightarrow> GroupManager \<Rightarrow> GroupManager" where
  "saveLocked env gm = gm\<lparr>groupsFile := writeState env (groupsDoc gm) (groupsFile gm)\<rparr>"

fun decMember :: "persistedGroupMember decoder" where
  "decMember (JObj kvs) =
     (let c = decField ''consumer_id'' decStr [] kvs;
          h = decField ''last_heartbeat_unix_ms'' decInt 0 kvs
      in (\<lparr>pConsumerID = fst c, pLastHeartbeat = fst h\<rparr>, snd c \<and> snd h))"
| "decMember j = (\<lparr>pConsumerID = [], pLastHeartbeat = 0\<rparr>, j = JNull)"

fun decState :: "persistedGroupState decoder" where
  "decState (JObj kvs) =
     (let t = decField ''topic'' decStr [] kvs;
          g = decField ''generation'' decInt 0 kvs;
          a = decField ''assignor'' decStr [] kvs;
          mo = decField ''member_order'' (decList decStr) [] kvs;
          asg = decField ''assignments'' (decMap (decList decInt)) [] kvs;
          ms = decField ''members'' (decList decMember) [] kvs
      in (\<lparr>pTopic = fst t, pGeneration = fst g, pAssignor = fst a, pMemberOrder = fst mo,
           pAssignments = fst asg, pMembers = fst ms\<rparr>,
          snd t \<and> snd g \<and> snd a \<and> snd mo \<and> snd asg \<and> snd ms))"
| "decState j = (\<lparr>pTopic = [], pGeneration = 0, pAssignor = [], pMemberOrder = [],
                  pAssignments = [], pMembers = []\<rparr>, j = JNull)"

definition loadGroup :: "string \<Rightarrow> persistedGroupState \<Rightarrow> ConsumerGroup" where
  "loadGroup name st =
     \<lparr>gName = name, gTopic = pTopic st,
      generation = (if pGeneration st \<le> 0 then 1 else pGeneration st),
      assignor = (if pAssignor st = [] then ''round_robin'' else pAssignor st),
      members = fold (\<lambda>pm. mput (pConsumerID pm)
                   \<lparr>memberID = pConsumerID pm, lastHeartbeat = time_fromUnixMilli (pLastHeartbeat pm)\<rparr>)
                 (pMembers st) [],
      memberOrder = pMemberOrder st, assignments = pAssignments st\<rparr>"

definition loadGroups :: "fileIO \<Rightarrow> GroupManager \<Rightarrow> GroupManager" where
  "loadGroups env gm =
     (case readState env (groupsFile gm) of
        None \<Rightarrow> gm
      | Some j \<Rightarrow>
          (case decMap decState j of
             (persisted, True) \<Rightarrow> gm\<lparr>groups := map (\<lambda>(name, st). (name, loadGroup name st)) persisted\<rparr>
           | (_, False) \<Rightarrow> gm))"

definition NewGroupManager :: "fileIO \<Rightarrow> nat \<Rightarrow> stateFile \<Rightarrow> GroupManager" where
  "NewGroupManager env n f =
     loadGroups env \<lparr>partitionCount = n, sessionTimeout = 10 * Second, groups = [], groupsFile = f\<rparr>"

section \<open>Operations\<close>

definition putGroup :: "string \<Rightarrow> ConsumerGroup \<Rightarrow> GroupManager \<Rightarrow> GroupManager" where
  "putGroup name g gm = gm\<lparr>groups := mput name g (groups gm)\<rparr>"

definition ensureGroupLocked ::
  "string \<Rightarrow> string \<Rightarrow> string \<Rightarrow> GroupManager \<Rightarrow> GroupManager \<times> ConsumerGroup" where
  "ensureGroupLocked name topic strategy gm =
     (case map_of (groups gm) name of
        None \<Rightarrow>
          let g = \<lparr>gName = name, gTopic = topic, generation = 1,
                   assignor = (if strategy = [] then ''round_robin'' else strategy),
                   members = [], memberOrder = [], assignments = []\<rparr>
          in (putGroup name g gm, g)
      | Some g \<Rightarrow>
          let g1 = (if gTopic g \<noteq> topic
                    then g\<lparr>gTopic := topic, members := [], memberOrder := [], assignments := [],
                           generation := iadd (generation g) 1\<rparr>
                    else g);
              g2 = (if strategy \<noteq> [] \<and> strategy \<noteq> assignor g1
                    then rebalanceLocked (partitionCount gm)
                           (g1\<lparr>assignor := strategy, generation := iadd (generation g1) 1\<rparr>)
                    else g1)
          in (putGroup name g2 gm, g2))"

text \<open>The loop of \<open>cleanupExpiredLocked\<close>: the group, the ids kept, whether one was removed.\<close>

fun cleanupLoop ::
  "int \<Rightarrow> int \<Rightarrow> string list \<Rightarrow> ConsumerGroup \<Rightarrow> ConsumerGroup \<times> string list \<times> bool" where
  "cleanupLoop timeout now [] g = (g, [], False)"
| "cleanupLoop timeout now (c # cs) g =
     (case map_of (members g) c of
        None \<Rightarrow> (case cleanupLoop timeout now cs g of (g', active, _) \<Rightarrow> (g', active, True))
      | Some m \<Rightarrow>
          if time_Sub now (lastHeartbeat m) > timeout
          then (case cleanupLoop timeout now cs
                       (g\<lparr>members := mdel c (members g), assignments := mdel c (assignments g)\<rparr>)
                of (g', active, _) \<Rightarrow> (g', active, True))
          else (case cleanupLoop timeout now cs g of (g', active, removed) \<Rightarrow> (g', c # active, removed)))"

definition cleanupExpiredLocked ::
  "fileIO \<Rightarrow> int \<Rightarrow> string \<Rightarrow> ConsumerGroup \<Rightarrow> GroupManager \<Rightarrow> GroupManager \<times> ConsumerGroup" where
  "cleanupExpiredLocked env now name g gm =
     (case cleanupLoop (sessionTimeout gm) now (memberOrder g) g of (g1, active, removed) \<Rightarrow>
        let g2 = g1\<lparr>memberOrder := active\<rparr>
        in if removed
           then let g3 = rebalanceLocked (partitionCount gm) (g2\<lparr>generation := iadd (generation g2) 1\<rparr>)
                in (saveLocked env (putGroup name g3 gm), g3)
           else (putGroup name g2 gm, g2))"

definition JoinGroup ::
  "fileIO \<Rightarrow> int \<Rightarrow> string \<Rightarrow> string \<Rightarrow> string \<Rightarrow> string \<Rightarrow> GroupManager \<Rightarrow> GroupManager \<times> JoinResult" where
  "JoinGroup env now name topic consumerID strategy gm =
     (let (gm1, g0) = ensureGroupLocked name topic strategy gm;
          (gm2, g) = cleanupExpiredLocked env now name g0 gm1;
          g' = (case map_of (members g) consumerID of
                  None \<Rightarrow>
                    rebalanceLocked (partitionCount gm2)
                      (g\<lparr>memberOrder := memberOrder g @ [consumerID],
                         members := mput consumerID
                           \<lparr>memberID = consumerID, lastHeartbeat = now\<rparr> (members g),
                         generation := iadd (generation g) 1\<rparr>)
                | Some m \<Rightarrow> g\<lparr>members := mput consumerID (m\<lparr>lastHeartbeat := now\<rparr>) (members g)\<rparr>)
      in (saveLocked env (putGroup name g' gm2),
          \<lparr>jGeneration = generation g', jAssigned = owned (assignments g') consumerID\<rparr>))"

definition findGroup :: "string \<Rightarrow> string \<Rightarrow> GroupManager \<Rightarrow> ConsumerGroup option" where
  "findGroup name topic gm =
     (case map_of (groups gm) name of
        None \<Rightarrow> None
      | Some g \<Rightarrow> if gTopic g \<noteq> topic then None else Some g)"

definition LeaveGroup ::
  "fileIO \<Rightarrow> int \<Rightarrow> string \<Rightarrow> string \<Rightarrow> string \<Rightarrow> int \<Rightarrow> GroupManager \<Rightarrow> GroupManager \<times> string option" where
  "LeaveGroup env now name topic consumerID gen gm =
     (case findGroup name topic gm of
        None \<Rightarrow> (gm, Some ''group not found'')
      | Some g0 \<Rightarrow>
          (case cleanupExpiredLocked env now name g0 gm of (gm1, g) \<Rightarrow>
             if gen \<noteq> generation g then (gm1, Some ''stale generation'')
             else if map_of (members g) consumerID = None then (gm1, Some ''unknown member'')
             else
               let g' = g\<lparr>members := mdel consumerID (members g),
                          assignments := mdel consumerID (assignments g),
                          memberOrder := filter (\<lambda>c. c \<noteq> consumerID) (memberOrder g),
                          generation := iadd (generation g) 1\<rparr>
               in (saveLocked env (putGroup name (rebalanceLocked (partitionCount gm1) g') gm1), None)))"

definition SyncGroup ::
  "fileIO \<Rightarrow> int \<Rightarrow> int \<Rightarrow> string \<Rightarrow> string \<Rightarrow> string \<Rightarrow> int \<Rightarrow> GroupManager \<Rightarrow>
   GroupManager \<times> JoinResult result" where
  "SyncGroup env now seen name topic consumerID gen gm =
     (case findGroup name topic gm of
        None \<Rightarrow> (gm, Inl ''group not found'')
      | Some g0 \<Rightarrow>
          (case cleanupExpiredLocked env now name g0 gm of (gm1, g) \<Rightarrow>
             if gen \<noteq> generation g then (gm1, Inl ''stale generation'')
             else (case map_of (members g) consumerID of
               None \<Rightarrow> (gm1, Inl ''unknown member'')
             | Some m \<Rightarrow>
                 let g' = g\<lparr>members := mput consumerID (m\<lparr>lastHeartbeat := seen\<rparr>) (members g)\<rparr>
                 in (saveLocked env (putGroup name g' gm1),
                     Inr \<lparr>jGeneration = generation g', jAssigned = owned (assignments g') consumerID\<rparr>))))"

definition Heartbeat ::
  "fileIO \<Rightarrow> int \<Rightarrow> int \<Rightarrow> string \<Rightarrow> string \<Rightarrow> string \<Rightarrow> int \<Rightarrow> GroupManager \<Rightarrow>
   GroupManager \<times> string option" where
  "Heartbeat env now seen name topic consumerID gen gm =
     (case findGroup name topic gm of
        None \<Rightarrow> (gm, Some ''group not found'')
      | Some g0 \<Rightarrow>
          (case cleanupExpiredLocked env now name g0 gm of (gm1, g) \<Rightarrow>
             if gen \<noteq> generation g then (gm1, Some ''stale generation'')
             else (case map_of (members g) consumerID of
               None \<Rightarrow> (gm1, Some ''unknown member'')
             | Some m \<Rightarrow>
                 let g' = g\<lparr>members := mput consumerID (m\<lparr>lastHeartbeat := seen\<rparr>) (members g)\<rparr>
                 in (saveLocked env (putGroup name g' gm1), None))))"

definition ValidateCommit ::
  "fileIO \<Rightarrow> int \<Rightarrow> string \<Rightarrow> string \<Rightarrow> string \<Rightarrow> int \<Rightarrow> int \<Rightarrow> GroupManager \<Rightarrow>
   GroupManager \<times> string option" where
  "ValidateCommit env now name topic consumerID gen part gm =
     (case findGroup name topic gm of
        None \<Rightarrow> (gm, Some ''group not found'')
      | Some g0 \<Rightarrow>
          (case cleanupExpiredLocked env now name g0 gm of (gm1, g) \<Rightarrow>
             if gen \<noteq> generation g then (gm1, Some ''stale generation'')
             else if map_of (members g) consumerID = None then (gm1, Some ''unknown member'')
             else if part \<in> set (owned (assignments g) consumerID) then (gm1, None)
             else (gm1, Some ''partition not assigned to member'')))"

end
