(* ===== verification/Group_Assignment.thy ===== *)
theory Group_Assignment
  imports Consumer_Groups
begin

text \<open>
  What the two assignors of \<open>group.go\<close> promise. The locale \<open>partition_assignor\<close> states it for a
  function from a partition count and the sorted members to an assignment; both assignors are
  interpretations. The last section carries the
  laws over to \<open>assignmentFor\<close>, what a rebalance computes for any strategy.
\<close>

section \<open>The contract\<close>

locale partition_assignor =
  fixes assign :: "nat \<Rightarrow> string list \<Rightarrow> (string, int list) gomap"
  assumes keys_distinct: "mwf (assign n ms)"
    and covered: "distinct ms \<Longrightarrow> ms \<noteq> [] \<Longrightarrow> p < n \<Longrightarrow> \<exists>m \<in> set ms. int p \<in> set (owned (assign n ms) m)"
    and exclusive: "distinct ms \<Longrightarrow> q \<in> set (owned (assign n ms) m) \<Longrightarrow>
          q \<in> set (owned (assign n ms) m') \<Longrightarrow> m = m'"
    and in_range: "distinct ms \<Longrightarrow> ms \<noteq> [] \<Longrightarrow> q \<in> set (owned (assign n ms) m) \<Longrightarrow>
          m \<in> set ms \<and> 0 \<le> q \<and> q < int n"
    and increasing: "distinct ms \<Longrightarrow> sorted_wrt (<) (owned (assign n ms) m)"
    and share: "distinct ms \<Longrightarrow> i < length ms \<Longrightarrow> length (owned (assign n ms) (ms ! i))
          = n div length ms + (if i < n mod length ms then 1 else 0)"
begin

lemma unique_owner:
  assumes "distinct ms" "ms \<noteq> []" "0 \<le> q" "q < int n"
  shows "\<exists>!m. m \<in> set ms \<and> q \<in> set (owned (assign n ms) m)"
proof -
  obtain p where p: "q = int p" "p < n" using assms(3,4) by (metis nat_less_iff nonneg_int_cases of_nat_less_iff)
  show ?thesis
    using covered [OF assms(1,2) p(2)] exclusive [OF assms(1)] p(1) by blast
qed

lemma balanced:
  assumes "distinct ms" "m \<in> set ms" "m' \<in> set ms"
  shows "length (owned (assign n ms) m) \<le> Suc (length (owned (assign n ms) m'))"
proof -
  obtain i j where "i < length ms" "m = ms ! i" "j < length ms" "m' = ms ! j"
    using assms(2,3) by (metis in_set_conv_nth)
  then show ?thesis using share [OF assms(1)] by simp
qed

end

section \<open>Round robin\<close>

lemma owned_mput: "owned (mput m ps asg) m' = (if m' = m then ps else owned asg m')"
  by (simp add: owned_def)

lemma owned_Nil [simp]: "owned [] m = []"
  by (simp add: owned_def)

lemma assignRoundRobin_Suc:
  "assignRoundRobin (Suc n) ms =
     (let m = ms ! (n mod length ms)
      in mput m (owned (assignRoundRobin n ms) m @ [int n]) (assignRoundRobin n ms))"
  by (simp add: assignRoundRobin_def)

lemma assignRoundRobin_owned:
  "owned (assignRoundRobin n ms) m = map int (filter (\<lambda>p. ms ! (p mod length ms) = m) [0..<n])"
proof (induction n)
  case 0
  then show ?case by (simp add: assignRoundRobin_def)
next
  case (Suc n)
  then show ?case by (cases "m = ms ! (n mod length ms)") (simp_all add: assignRoundRobin_Suc Let_def owned_mput)
qed

lemma mwf_assignRoundRobin: "mwf (assignRoundRobin n ms)"
  by (induction n) (simp_all add: assignRoundRobin_Suc Let_def, simp add: assignRoundRobin_def)

lemma count_residue:
  assumes "i < k"
  shows "length (filter (\<lambda>p. p mod k = i) [0..<n]) = n div k + (if i < n mod k then 1 else 0)"
proof (induction n)
  case (Suc n)
  then show ?case using assms by (auto simp: mod_Suc div_Suc)
qed simp

interpretation round_robin: partition_assignor assignRoundRobin
proof
  show "mwf (assignRoundRobin n ms)" for n ms
    by (rule mwf_assignRoundRobin)
next
  fix ms :: "string list" and p n :: nat
  assume "ms \<noteq> []" "p < n"
  then show "\<exists>m \<in> set ms. int p \<in> set (owned (assignRoundRobin n ms) m)"
    by (intro bexI [of _ "ms ! (p mod length ms)"]) (auto simp: assignRoundRobin_owned)
next
  fix ms :: "string list" and q m m' n
  assume "q \<in> set (owned (assignRoundRobin n ms) m)" "q \<in> set (owned (assignRoundRobin n ms) m')"
  then show "m = m'" by (auto simp: assignRoundRobin_owned)
next
  fix ms :: "string list" and q m n
  assume "ms \<noteq> []" "q \<in> set (owned (assignRoundRobin n ms) m)"
  then show "m \<in> set ms \<and> 0 \<le> q \<and> q < int n" by (auto simp: assignRoundRobin_owned)
next
  show "sorted_wrt (<) (owned (assignRoundRobin n ms) m)" for n ms m
    by (simp add: assignRoundRobin_owned sorted_wrt_map sorted_wrt_filter)
next
  fix ms :: "string list" and i n :: nat
  assume d: "distinct ms" "i < length ms"
  have "ms ! (p mod length ms) = ms ! i \<longleftrightarrow> p mod length ms = i" for p
    using d mod_less_divisor [of "length ms" p] by (intro nth_eq_iff_index_eq) linarith+
  then show "length (owned (assignRoundRobin n ms) (ms ! i))
      = n div length ms + (if i < n mod length ms then 1 else 0)"
    using d(2) by (simp add: assignRoundRobin_owned count_residue)
qed

section \<open>Ranges\<close>

definition rangeStart :: "nat \<Rightarrow> nat \<Rightarrow> nat \<Rightarrow> nat" where
  "rangeStart base extra i = i * base + min i extra"

lemma rangeStart_Suc: "rangeStart base extra (Suc i) = rangeStart base extra i + (if i < extra then base + 1 else base)"
  by (simp add: rangeStart_def min_def)

lemma rangeStart_mono: "i \<le> j \<Longrightarrow> rangeStart base extra i \<le> rangeStart base extra j"
  by (rule lift_Suc_mono_le) (simp add: rangeStart_Suc)

lemma rangeStart_end: "k > 0 \<Longrightarrow> rangeStart (n div k) (n mod k) k = n"
  by (simp add: rangeStart_def min_absorb2)

lemma rangeStart_find: "p < rangeStart base extra k \<Longrightarrow>
    \<exists>i < k. rangeStart base extra i \<le> p \<and> p < rangeStart base extra (Suc i)"
proof (induction k)
  case 0
  then show ?case by (simp add: rangeStart_def)
next
  case (Suc k)
  then show ?case by (metis less_Suc_eq not_less)
qed

lemma assignRangeFrom_other:
  "m \<notin> set ms \<Longrightarrow> owned (assignRangeFrom base extra idx start ms asg) m = owned asg m"
  by (induction ms arbitrary: idx start asg) (simp_all add: Let_def owned_mput)

lemma assignRangeFrom_owned:
  assumes "distinct ms" "i < length ms"
  shows "owned (assignRangeFrom base extra idx (rangeStart base extra idx) ms asg) (ms ! i)
       = map int [rangeStart base extra (idx + i)..<rangeStart base extra (Suc (idx + i))]"
  using assms
proof (induction ms arbitrary: i idx asg)
  case (Cons m ms)
  have step: "assignRangeFrom base extra idx (rangeStart base extra idx) (m # ms) asg
      = assignRangeFrom base extra (Suc idx) (rangeStart base extra (Suc idx)) ms
          (mput m (map int [rangeStart base extra idx..<rangeStart base extra (Suc idx)]) asg)"
    by (simp add: Let_def rangeStart_Suc)
  show ?case
  proof (cases i)
    case 0
    then show ?thesis
      using Cons.prems assignRangeFrom_other [of m ms] by (simp only: step) (simp add: owned_mput)
  next
    case (Suc j)
    then show ?thesis
      using Cons.prems Cons.IH [of j "Suc idx"] by (simp only: step) simp
  qed
qed simp

lemma assignRange_owned:
  assumes "distinct ms" "i < length ms"
  shows "owned (assignRange n ms) (ms ! i)
       = map int [rangeStart (n div length ms) (n mod length ms) i
                  ..<rangeStart (n div length ms) (n mod length ms) (Suc i)]"
  using assignRangeFrom_owned [OF assms, of "n div length ms" "n mod length ms" 0 "[]"]
  by (simp add: assignRange_def rangeStart_def)

lemma assignRange_other: "m \<notin> set ms \<Longrightarrow> owned (assignRange n ms) m = []"
  by (simp add: assignRange_def assignRangeFrom_other)

lemma mwf_assignRange: "mwf (assignRange n ms)"
proof -
  have "mwf asg \<Longrightarrow> mwf (assignRangeFrom base extra idx start ms asg)" for base extra idx start asg
    by (induction ms arbitrary: idx start asg) (simp_all add: Let_def)
  then show ?thesis by (simp add: assignRange_def)
qed

lemma assignRange_mem:
  assumes "distinct ms" "q \<in> set (owned (assignRange n ms) m)"
  obtains i p where "i < length ms" "m = ms ! i" "q = int p"
    "rangeStart (n div length ms) (n mod length ms) i \<le> p"
    "p < rangeStart (n div length ms) (n mod length ms) (Suc i)"
proof -
  have "m \<in> set ms" using assms(2) assignRange_other by fastforce
  then obtain i where "i < length ms" "m = ms ! i" by (metis in_set_conv_nth)
  with assms that show ?thesis by (auto simp: assignRange_owned)
qed

interpretation ranges: partition_assignor assignRange
proof
  show "mwf (assignRange n ms)" for n ms
    by (rule mwf_assignRange)
next
  fix ms :: "string list" and p n :: nat
  assume "distinct ms" "ms \<noteq> []" "p < n"
  then obtain i where "i < length ms" "rangeStart (n div length ms) (n mod length ms) i \<le> p"
    "p < rangeStart (n div length ms) (n mod length ms) (Suc i)"
    using rangeStart_find [of p "n div length ms" "n mod length ms" "length ms"] rangeStart_end [of "length ms" n]
    by auto
  then show "\<exists>m \<in> set ms. int p \<in> set (owned (assignRange n ms) m)"
    using \<open>distinct ms\<close> by (intro bexI [of _ "ms ! i"]) (auto simp: assignRange_owned)
next
  fix ms :: "string list" and q m m' n
  assume d: "distinct ms" and q: "q \<in> set (owned (assignRange n ms) m)"
    "q \<in> set (owned (assignRange n ms) m')"
  let ?s = "rangeStart (n div length ms) (n mod length ms)"
  obtain i p where i: "m = ms ! i" "q = int p" "?s i \<le> p" "p < ?s (Suc i)"
    using assignRange_mem [OF d q(1)] by metis
  obtain j where j: "m' = ms ! j" "?s j \<le> p" "p < ?s (Suc j)"
    using assignRange_mem [OF d q(2)] i(2) by (metis of_nat_eq_iff)
  have "i = j"
    using i j rangeStart_mono [of "Suc i" j "n div length ms" "n mod length ms"]
      rangeStart_mono [of "Suc j" i "n div length ms" "n mod length ms"] by linarith
  then show "m = m'" using i j by simp
next
  fix ms :: "string list" and q m n
  assume d: "distinct ms" "ms \<noteq> []" and q: "q \<in> set (owned (assignRange n ms) m)"
  let ?s = "rangeStart (n div length ms) (n mod length ms)"
  obtain i p where i: "i < length ms" "m = ms ! i" "q = int p" "p < ?s (Suc i)"
    using assignRange_mem [OF d(1) q] by metis
  have "?s (Suc i) \<le> n"
    using rangeStart_mono [of "Suc i" "length ms" "n div length ms" "n mod length ms"] i(1)
      rangeStart_end [of "length ms" n] d(2) by simp
  then show "m \<in> set ms \<and> 0 \<le> q \<and> q < int n" using i by auto
next
  fix ms :: "string list" and m n
  assume "distinct ms"
  then show "sorted_wrt (<) (owned (assignRange n ms) m)"
    by (cases "m \<in> set ms")
      (auto simp: in_set_conv_nth assignRange_owned assignRange_other sorted_wrt_map)
next
  fix ms :: "string list" and i n :: nat
  assume "distinct ms" "i < length ms"
  then show "length (owned (assignRange n ms) (ms ! i))
      = n div length ms + (if i < n mod length ms then 1 else 0)"
    by (simp add: assignRange_owned rangeStart_Suc)
qed

section \<open>What a rebalance computes\<close>

lemma assignmentFor_Nil [simp]: "assignmentFor n strategy [] = []"
  by (simp add: assignmentFor_def)

lemma sort_is_Nil [simp]: "sort (xs :: string list) = [] \<longleftrightarrow> xs = []"
  by (metis length_0_conv length_sort)

lemma mwf_assignmentFor: "mwf (assignmentFor n strategy order)"
  by (simp add: assignmentFor_def ranges.keys_distinct round_robin.keys_distinct)

lemma assignmentFor_in_range:
  "distinct order \<Longrightarrow> q \<in> set (owned (assignmentFor n strategy order) m) \<Longrightarrow>
   m \<in> set order \<and> 0 \<le> q \<and> q < int n"
  using ranges.in_range [of "sort order" q n m] round_robin.in_range [of "sort order" q n m]
  by (cases "order = []") (auto simp: assignmentFor_def split: if_splits)

lemma assignmentFor_exclusive:
  "distinct order \<Longrightarrow> q \<in> set (owned (assignmentFor n strategy order) m) \<Longrightarrow>
   q \<in> set (owned (assignmentFor n strategy order) m') \<Longrightarrow> m = m'"
  using ranges.exclusive [of "sort order" q n m m'] round_robin.exclusive [of "sort order" q n m m']
  by (auto simp: assignmentFor_def split: if_splits)

lemma assignmentFor_unique_owner:
  "distinct order \<Longrightarrow> order \<noteq> [] \<Longrightarrow> 0 \<le> q \<Longrightarrow> q < int n \<Longrightarrow>
   \<exists>!m. m \<in> set order \<and> q \<in> set (owned (assignmentFor n strategy order) m)"
  using ranges.unique_owner [of "sort order" q n] round_robin.unique_owner [of "sort order" q n]
  by (simp add: assignmentFor_def)

lemma assignmentFor_balanced:
  "distinct order \<Longrightarrow> m \<in> set order \<Longrightarrow> m' \<in> set order \<Longrightarrow>
   length (owned (assignmentFor n strategy order) m)
     \<le> Suc (length (owned (assignmentFor n strategy order) m'))"
  using ranges.balanced [of "sort order" m m' n] round_robin.balanced [of "sort order" m m' n]
  by (auto simp: assignmentFor_def)

lemma assignmentFor_distinct:
  "distinct order \<Longrightarrow> distinct (owned (assignmentFor n strategy order) m)"
  using ranges.increasing [of "sort order" n m] round_robin.increasing [of "sort order" n m]
  by (simp add: assignmentFor_def strict_sorted_iff)

end
