(* ===== verification/Group_Runs.thy ===== *)
theory Group_Runs
  imports Group_Assignment
begin

text \<open>
  The invariant of consumer groups and their runs.

  \<^item> \<open>group_ok\<close> is the invariant of one group: the members and the join order agree, and the
    assignment is the one a rebalance of the current members computes.
  \<^item> \<open>evolves\<close> relates a group to its later states: the generation never goes back, and while it
    stands still topic, members and assignment do too. \<open>advances\<close> lifts it to the manager; every
    operation satisfies it.
  \<^item> \<open>group_step\<close> are the operations and the restart of the broker. Steps are taken from states
    in which no generation is near the end of the 64-bit range (\<open>room\<close>).
\<close>

section \<open>Invariant\<close>

definition group_ok :: "nat \<Rightarrow> ConsumerGroup \<Rightarrow> bool" where
  "group_ok n g \<longleftrightarrow>
     mwf (members g) \<and> distinct (memberOrder g) \<and> set (memberOrder g) = fst ` set (members g)
   \<and> (\<forall>(c, m) \<in> set (members g). memberID m = c \<and> int64_ok (time_UnixMilli (lastHeartbeat m)))
   \<and> mwf (assignments g)
   \<and> (\<forall>c. owned (assignments g) c = owned (assignmentFor n (assignor g) (memberOrder g)) c)
   \<and> assignor g \<noteq> [] \<and> 1 \<le> generation g \<and> int64_ok (generation g)"

definition groups_ok :: "GroupManager \<Rightarrow> bool" where
  "groups_ok gm \<longleftrightarrow> mwf (groups gm) \<and> int64_ok (int (partitionCount gm))
     \<and> (\<forall>(name, g) \<in> set (groups gm). gName g = name \<and> group_ok (partitionCount gm) g)"

definition room :: "GroupManager \<Rightarrow> bool" where
  "room gm \<longleftrightarrow> (\<forall>(name, g) \<in> set (groups gm). generation g < 2 ^ 63 - 4)"

definition evolves :: "ConsumerGroup \<Rightarrow> ConsumerGroup \<Rightarrow> bool" where
  "evolves g g' \<longleftrightarrow> generation g \<le> generation g'
     \<and> (generation g' = generation g \<longrightarrow>
          gTopic g' = gTopic g \<and> assignor g' = assignor g \<and> memberOrder g' = memberOrder g)"

lemma evolves_refl [simp]: "evolves g g"
  by (simp add: evolves_def)

lemma evolves_trans: "evolves g1 g2 \<Longrightarrow> evolves g2 g3 \<Longrightarrow> evolves g1 g3"
  by (auto simp: evolves_def)

lemma groups_okD:
  "groups_ok gm \<Longrightarrow> map_of (groups gm) name = Some g \<Longrightarrow> gName g = name \<and> group_ok (partitionCount gm) g"
  by (auto simp: groups_ok_def dest: map_of_SomeD)

lemma roomD: "room gm \<Longrightarrow> map_of (groups gm) name = Some g \<Longrightarrow> generation g < 2 ^ 63 - 4"
  by (auto simp: room_def dest: map_of_SomeD)

lemma group_okD:
  assumes "group_ok n g"
  shows "mwf (members g)" "distinct (memberOrder g)" "set (memberOrder g) = fst ` set (members g)"
    "\<forall>(c, m) \<in> set (members g). memberID m = c \<and> int64_ok (time_UnixMilli (lastHeartbeat m))"
    "mwf (assignments g)"
    "\<forall>c. owned (assignments g) c = owned (assignmentFor n (assignor g) (memberOrder g)) c"
    "assignor g \<noteq> []" "1 \<le> generation g" "int64_ok (generation g)"
  using assms unfolding group_ok_def by blast+

lemma group_ok_member:
  "group_ok n g \<Longrightarrow> c \<in> set (memberOrder g) \<longleftrightarrow> map_of (members g) c \<noteq> None"
  by (simp add: group_ok_def map_of_eq_None_iff)

lemma next_generation:
  "1 \<le> x \<Longrightarrow> x < 2 ^ 63 - 1 \<Longrightarrow> iadd x 1 = x + 1 \<and> 1 \<le> iadd x 1 \<and> int64_ok (iadd x 1)"
  by (simp add: iadd_def wrap64_id int64_ok_def)

text \<open>A rebalance restores the invariant whatever the old assignment was.\<close>

lemma group_ok_rebalance:
  assumes "mwf (members g)" "distinct (memberOrder g)" "set (memberOrder g) = fst ` set (members g)"
    "\<forall>(c, m) \<in> set (members g). memberID m = c \<and> int64_ok (time_UnixMilli (lastHeartbeat m))"
    "assignor g \<noteq> []" "1 \<le> generation g" "int64_ok (generation g)"
  shows "group_ok n (rebalanceLocked n g)"
  using assms by (simp add: group_ok_def rebalanceLocked_def mwf_assignmentFor)

section \<open>Removing silent members\<close>

definition fresh :: "int \<Rightarrow> int \<Rightarrow> ConsumerGroup \<Rightarrow> string \<Rightarrow> bool" where
  "fresh timeout now g c \<longleftrightarrow>
     (case map_of (members g) c of None \<Rightarrow> False | Some m \<Rightarrow> time_Sub now (lastHeartbeat m) \<le> timeout)"

definition expel :: "string list \<Rightarrow> ConsumerGroup \<Rightarrow> ConsumerGroup" where
  "expel cs g = g\<lparr>members := fold mdel cs (members g), assignments := fold mdel cs (assignments g)\<rparr>"

definition cleaned :: "nat \<Rightarrow> int \<Rightarrow> int \<Rightarrow> ConsumerGroup \<Rightarrow> ConsumerGroup" where
  "cleaned n timeout now g =
     (if list_all (fresh timeout now g) (memberOrder g) then g
      else rebalanceLocked n
             ((expel (filter (\<lambda>c. \<not> fresh timeout now g c) (memberOrder g)) g)
                \<lparr>memberOrder := filter (fresh timeout now g) (memberOrder g),
                 generation := iadd (generation g) 1\<rparr>))"

lemma map_of_fold_mdel: "map_of (fold mdel cs m) k = (if k \<in> set cs then None else map_of m k)"
  by (induction cs arbitrary: m) auto

lemma mwf_fold_mdel: "mwf m \<Longrightarrow> mwf (fold mdel cs m)"
  by (induction cs arbitrary: m) auto

lemma set_fold_mdel: "mwf m \<Longrightarrow> (k, v) \<in> set (fold mdel cs m) \<longleftrightarrow> k \<notin> set cs \<and> (k, v) \<in> set m"
  using map_of_fold_mdel [of cs m k] mwf_fold_mdel [of m cs]
  by (metis map_of_eq_Some_iff option.distinct(1))

lemma cleanupLoop_expel:
  assumes "distinct cs" "\<forall>c \<in> set cs. map_of (members g) c \<noteq> None"
  shows "cleanupLoop timeout now cs g
       = (expel (filter (\<lambda>c. \<not> fresh timeout now g c) cs) g, filter (fresh timeout now g) cs,
          \<not> list_all (fresh timeout now g) cs)"
  using assms
proof (induction cs arbitrary: g)
  case Nil
  then show ?case by (simp add: expel_def)
next
  case (Cons c cs)
  obtain m where m: "map_of (members g) c = Some m" using Cons.prems(2) by auto
  let ?g = "g\<lparr>members := mdel c (members g), assignments := mdel c (assignments g)\<rparr>"
  show ?case
  proof (cases "time_Sub now (lastHeartbeat m) > timeout")
    case True
    then have c: "\<not> fresh timeout now g c" using m by (simp add: fresh_def)
    have same: "fresh timeout now ?g d = fresh timeout now g d" if "d \<in> set cs" for d
      using that Cons.prems(1) by (auto simp: fresh_def)
    have "cleanupLoop timeout now cs ?g
        = (expel (filter (\<lambda>d. \<not> fresh timeout now ?g d) cs) ?g, filter (fresh timeout now ?g) cs,
           \<not> list_all (fresh timeout now ?g) cs)"
      by (rule Cons.IH) (use Cons.prems in auto)
    also have "\<dots> = (expel (c # filter (\<lambda>d. \<not> fresh timeout now g d) cs) g, filter (fresh timeout now g) cs,
           \<not> list_all (fresh timeout now g) cs)"
      using same by (simp add: expel_def list_all_iff cong: filter_cong)
    finally show ?thesis using True c m by simp
  next
    case False
    then have c: "fresh timeout now g c" using m by (simp add: fresh_def)
    have "cleanupLoop timeout now cs g
        = (expel (filter (\<lambda>d. \<not> fresh timeout now g d) cs) g, filter (fresh timeout now g) cs,
           \<not> list_all (fresh timeout now g) cs)"
      by (rule Cons.IH) (use Cons.prems in auto)
    then show ?thesis using False c m by simp
  qed
qed

lemma putGroup_same: "map_of (groups gm) name = Some g \<Longrightarrow> putGroup name g gm = gm"
proof -
  have "map_of m k = Some v \<Longrightarrow> mput k v m = m" for m :: "(string, ConsumerGroup) gomap" and k v
    by (induction m) (auto split: if_splits)
  then show "map_of (groups gm) name = Some g \<Longrightarrow> putGroup name g gm = gm"
    by (simp add: putGroup_def)
qed

text \<open>Cleaning up keeps the manager as it is, or stores the group without its silent members.\<close>

lemma cleanupExpired_cleaned:
  assumes "group_ok n g" "map_of (groups gm) name = Some g" "n = partitionCount gm"
  shows "cleanupExpiredLocked env now name g gm =
     (let g' = cleaned n (sessionTimeout gm) now g
      in if list_all (fresh (sessionTimeout gm) now g) (memberOrder g) then (gm, g)
         else (saveLocked env (putGroup name g' gm), g'))"
proof -
  have loop: "cleanupLoop (sessionTimeout gm) now (memberOrder g) g
    = (expel (filter (\<lambda>c. \<not> fresh (sessionTimeout gm) now g c) (memberOrder g)) g,
       filter (fresh (sessionTimeout gm) now g) (memberOrder g),
       \<not> list_all (fresh (sessionTimeout gm) now g) (memberOrder g))"
    using assms(1) group_ok_member [OF assms(1)] by (intro cleanupLoop_expel) (auto simp: group_ok_def)
  show ?thesis
  proof (cases "list_all (fresh (sessionTimeout gm) now g) (memberOrder g)")
    case True
    then have "filter (fresh (sessionTimeout gm) now g) (memberOrder g) = memberOrder g"
      "filter (\<lambda>c. \<not> fresh (sessionTimeout gm) now g c) (memberOrder g) = []"
      by (auto simp: list_all_iff filter_empty_conv)
    then show ?thesis
      using True loop assms(2) by (simp add: cleanupExpiredLocked_def expel_def putGroup_same)
  next
    case False
    then show ?thesis
      using loop assms(3) by (simp add: cleanupExpiredLocked_def cleaned_def Let_def expel_def)
  qed
qed

lemma group_ok_cleaned:
  assumes "group_ok n g" "generation g < 2 ^ 63 - 1"
  shows "group_ok n (cleaned n timeout now g)"
proof (cases "list_all (fresh timeout now g) (memberOrder g)")
  case True
  then show ?thesis using assms by (simp add: cleaned_def)
next
  case False
  let ?out = "filter (\<lambda>c. \<not> fresh timeout now g c) (memberOrder g)"
  note ok = group_okD [OF assms(1)]
  have mem: "(c, m) \<in> set (fold mdel ?out (members g)) \<longleftrightarrow> c \<notin> set ?out \<and> (c, m) \<in> set (members g)" for c m
    by (rule set_fold_mdel [OF ok(1)])
  have keys: "fst ` set (fold mdel ?out (members g)) = {c \<in> set (memberOrder g). fresh timeout now g c}"
    using mem ok(3) by (force simp: image_iff)
  have vals: "\<forall>(c, m) \<in> set (fold mdel ?out (members g)).
      memberID m = c \<and> int64_ok (time_UnixMilli (lastHeartbeat m))"
    using ok(4) mem by blast
  have gen: "1 \<le> iadd (generation g) 1" "int64_ok (iadd (generation g) 1)"
    using next_generation [OF ok(8)] assms(2) by auto
  show ?thesis
    unfolding cleaned_def if_not_P [OF False] by (rule group_ok_rebalance)
      (use ok(1,2,7) vals keys gen in
        \<open>simp_all add: expel_def mwf_fold_mdel\<close>)
qed

lemma evolves_cleaned:
  assumes "1 \<le> generation g" "generation g < 2 ^ 63 - 1"
  shows "evolves g (cleaned n timeout now g)"
  using next_generation [OF assms] by (simp add: cleaned_def evolves_def rebalanceLocked_def expel_def)

section \<open>The manager\<close>

text \<open>\<open>wrote\<close>: the group was stored in memory and, with a working file system, on disk.\<close>

definition wrote :: "fileIO \<Rightarrow> string \<Rightarrow> ConsumerGroup \<Rightarrow> GroupManager \<Rightarrow> GroupManager \<Rightarrow> bool" where
  "wrote env name g gm gm' \<longleftrightarrow> groups gm' = mput name g (groups gm)
     \<and> partitionCount gm' = partitionCount gm \<and> sessionTimeout gm' = sessionTimeout gm
     \<and> (file_io_ok env \<longrightarrow> groupsFile gm' = Doc (groupsDoc gm'))"

definition advances :: "fileIO \<Rightarrow> string \<Rightarrow> GroupManager \<Rightarrow> GroupManager \<Rightarrow> bool" where
  "advances env name gm gm' \<longleftrightarrow> gm' = gm \<or>
     (\<exists>g'. wrote env name g' gm gm' \<and> gName g' = name \<and> group_ok (partitionCount gm) g'
         \<and> (\<forall>g. map_of (groups gm) name = Some g \<longrightarrow> evolves g g'))"

lemma mput_mput [simp]: "mput k v (mput k w m) = mput k v m"
  by (induction m) auto

lemma wrote_save: "groups gm' = mput name g (groups gm) \<Longrightarrow> partitionCount gm' = partitionCount gm \<Longrightarrow>
    sessionTimeout gm' = sessionTimeout gm \<Longrightarrow> wrote env name g gm (saveLocked env gm')"
  by (simp add: wrote_def saveLocked_def writeState_def file_io_ok_def groupsDoc_def)

text \<open>The manager and the group after the clean-up every operation starts with.\<close>

lemma cleanupE:
  assumes "groups_ok gm" "map_of (groups gm) name = Some g" "generation g < 2 ^ 63 - 1"
    "cleanupExpiredLocked env now name g gm = (gm1, g1)"
  shows "g1 = cleaned (partitionCount gm) (sessionTimeout gm) now g"
    and "group_ok (partitionCount gm) g1" "evolves g g1" "gName g1 = name"
    and "generation g1 \<le> generation g + 1"
    and "map_of (groups gm1) name = Some g1"
    and "gm1 = gm \<and> g1 = g \<or> wrote env name g1 gm gm1"
proof -
  let ?n = "partitionCount gm"
  have ok: "group_ok ?n g" "gName g = name" using groups_okD [OF assms(1,2)] by auto
  then have gen: "1 \<le> generation g" by (simp add: group_ok_def)
  have g1: "g1 = cleaned ?n (sessionTimeout gm) now g"
    and gm1: "gm1 = (if list_all (fresh (sessionTimeout gm) now g) (memberOrder g) then gm
                     else saveLocked env (putGroup name g1 gm))"
    using assms(4) cleanupExpired_cleaned [OF ok(1) assms(2) refl, of env now]
    by (auto simp: Let_def cleaned_def split: if_splits)
  show "g1 = cleaned ?n (sessionTimeout gm) now g" by (rule g1)
  show "group_ok ?n g1" unfolding g1 by (rule group_ok_cleaned [OF ok(1) assms(3)])
  show "evolves g g1" unfolding g1 by (rule evolves_cleaned [OF gen assms(3)])
  show "gName g1 = name" using ok(2) by (simp add: g1 cleaned_def rebalanceLocked_def expel_def)
  show "generation g1 \<le> generation g + 1"
    using next_generation [OF gen assms(3)] by (simp add: g1 cleaned_def rebalanceLocked_def)
  show "gm1 = gm \<and> g1 = g \<or> wrote env name g1 gm gm1"
    using gm1 g1 by (auto simp: cleaned_def putGroup_def intro!: wrote_save)
  then show "map_of (groups gm1) name = Some g1" using assms(2) by (auto simp: wrote_def)
qed

lemma cleanup_advances:
  assumes "groups_ok gm" "map_of (groups gm) name = Some g" "generation g < 2 ^ 63 - 1"
    "cleanupExpiredLocked env now name g gm = (gm1, g1)"
  shows "advances env name gm gm1"
  using cleanupE [OF assms] assms(2) by (auto simp: advances_def)

text \<open>Storing a later state of the cleaned group.\<close>

lemma cleanup_then_write:
  assumes "groups_ok gm" "map_of (groups gm) name = Some g" "generation g < 2 ^ 63 - 1"
    "cleanupExpiredLocked env now name g gm = (gm1, g1)"
    "group_ok (partitionCount gm) g2" "evolves g1 g2" "gName g2 = gName g1"
  shows "advances env name gm (saveLocked env (putGroup name g2 gm1))"
proof -
  note c = cleanupE [OF assms(1-4)]
  have "wrote env name g2 gm (saveLocked env (putGroup name g2 gm1))"
    using c(7) by (intro wrote_save) (auto simp: putGroup_def wrote_def)
  then show ?thesis
    using c(3,4) assms(2,5-7) evolves_trans [OF c(3) assms(6)] by (auto simp: advances_def)
qed

text \<open>A heartbeat only changes the instant a member was last seen.\<close>

lemma group_ok_seen:
  assumes "group_ok n g" "map_of (members g) c = Some m" "int64_ok (time_UnixMilli seen)"
  shows "group_ok n (g\<lparr>members := mput c (m\<lparr>lastHeartbeat := seen\<rparr>) (members g)\<rparr>)"
proof -
  let ?ms = "mput c (m\<lparr>lastHeartbeat := seen\<rparr>) (members g)"
  have cm: "(c, m) \<in> set (members g)" using assms(2) by (rule map_of_SomeD)
  then have "fst ` set ?ms = fst ` set (members g)" by force
  moreover have "\<forall>(c, m) \<in> set ?ms. memberID m = c \<and> int64_ok (time_UnixMilli (lastHeartbeat m))"
    using cm group_okD(4) [OF assms(1)] assms(3) by (intro ball_mput [OF group_okD(4) [OF assms(1)]]) auto
  ultimately show ?thesis using assms(1) unfolding group_ok_def by simp
qed

lemma findGroup_Some:
  "findGroup name topic gm = Some g \<longleftrightarrow> map_of (groups gm) name = Some g \<and> gTopic g = topic"
  by (auto simp: findGroup_def split: option.splits)

section \<open>Every operation advances the manager\<close>

lemma ValidateCommit_advances:
  assumes "groups_ok gm" "room gm"
  shows "advances env name gm (fst (ValidateCommit env now name topic c gen p gm))"
proof (cases "findGroup name topic gm")
  case None
  then show ?thesis by (simp add: ValidateCommit_def advances_def)
next
  case (Some g)
  then have g: "map_of (groups gm) name = Some g" by (simp add: findGroup_Some)
  obtain gm1 g1 where c1: "cleanupExpiredLocked env now name g gm = (gm1, g1)" by force
  have "generation g < 2 ^ 63 - 1" using roomD [OF assms(2) g] by simp
  from cleanup_advances [OF assms(1) g this c1] show ?thesis
    using Some c1 by (simp add: ValidateCommit_def)
qed

lemma Heartbeat_advances:
  assumes "groups_ok gm" "room gm" "int64_ok (time_UnixMilli seen)"
  shows "advances env name gm (fst (Heartbeat env now seen name topic c gen gm))"
proof (cases "findGroup name topic gm")
  case None
  then show ?thesis by (simp add: Heartbeat_def advances_def)
next
  case (Some g)
  then have g: "map_of (groups gm) name = Some g" by (simp add: findGroup_Some)
  obtain gm1 g1 where c1: "cleanupExpiredLocked env now name g gm = (gm1, g1)" by force
  have small: "generation g < 2 ^ 63 - 1" using roomD [OF assms(2) g] by simp
  note adv = cleanup_advances [OF assms(1) g small c1]
  show ?thesis
  proof (cases "gen = generation g1 \<and> map_of (members g1) c \<noteq> None")
    case False
    then show ?thesis using adv Some c1 by (auto simp: Heartbeat_def split: option.split)
  next
    case True
    then obtain m where m: "map_of (members g1) c = Some m" by auto
    let ?g = "g1\<lparr>members := mput c (m\<lparr>lastHeartbeat := seen\<rparr>) (members g1)\<rparr>"
    have "group_ok (partitionCount gm) ?g"
      by (rule group_ok_seen [OF cleanupE(2) [OF assms(1) g small c1] m assms(3)])
    from cleanup_then_write [OF assms(1) g small c1 this] show ?thesis
      using True m Some c1 by (simp add: Heartbeat_def evolves_def Let_def)
  qed
qed

lemma SyncGroup_advances:
  assumes "groups_ok gm" "room gm" "int64_ok (time_UnixMilli seen)"
  shows "advances env name gm (fst (SyncGroup env now seen name topic c gen gm))"
proof -
  have "fst (SyncGroup env now seen name topic c gen gm) = fst (Heartbeat env now seen name topic c gen gm)"
    by (simp add: SyncGroup_def Heartbeat_def Let_def split: option.split prod.split)
  then show ?thesis using Heartbeat_advances [OF assms] by simp
qed

lemma group_ok_left:
  assumes "group_ok n g" "generation g < 2 ^ 63 - 1"
  shows "group_ok n (rebalanceLocked n
     (g\<lparr>members := mdel c (members g), assignments := mdel c (assignments g),
        memberOrder := filter (\<lambda>d. d \<noteq> c) (memberOrder g), generation := iadd (generation g) 1\<rparr>))"
proof (rule group_ok_rebalance)
  note ok = group_okD [OF assms(1)]
  have mem: "(d, m) \<in> set (mdel c (members g)) \<longleftrightarrow> d \<noteq> c \<and> (d, m) \<in> set (members g)" for d m
    using set_fold_mdel [OF ok(1), of d m "[c]"] by simp
  have keys: "{d \<in> set (memberOrder g). d \<noteq> c} = fst ` set (mdel c (members g))"
    using mem ok(3) by (force simp: image_iff)
  have vals: "\<forall>(d, m) \<in> set (mdel c (members g)). memberID m = d \<and> int64_ok (time_UnixMilli (lastHeartbeat m))"
    using ok(4) mem by blast
  have gen: "1 \<le> iadd (generation g) 1" "int64_ok (iadd (generation g) 1)"
    using next_generation [OF ok(8)] assms(2) by auto
  let ?g = "g\<lparr>members := mdel c (members g), assignments := mdel c (assignments g),
        memberOrder := filter (\<lambda>d. d \<noteq> c) (memberOrder g), generation := iadd (generation g) 1\<rparr>"
  show "mwf (members ?g)" "distinct (memberOrder ?g)" "assignor ?g \<noteq> []"
    using ok(1,2,7) by simp_all
  show "set (memberOrder ?g) = fst ` set (members ?g)" using keys by simp
  show "\<forall>(c, m) \<in> set (members ?g). memberID m = c \<and> int64_ok (time_UnixMilli (lastHeartbeat m))"
    using vals by simp
  show "1 \<le> generation ?g" "int64_ok (generation ?g)" using gen by simp_all
qed

lemma LeaveGroup_advances:
  assumes "groups_ok gm" "room gm"
  shows "advances env name gm (fst (LeaveGroup env now name topic c gen gm))"
proof (cases "findGroup name topic gm")
  case None
  then show ?thesis by (simp add: LeaveGroup_def advances_def)
next
  case (Some g)
  then have g: "map_of (groups gm) name = Some g" by (simp add: findGroup_Some)
  obtain gm1 g1 where c1: "cleanupExpiredLocked env now name g gm = (gm1, g1)" by force
  have room: "generation g < 2 ^ 63 - 4" using roomD [OF assms(2) g] .
  then have small: "generation g < 2 ^ 63 - 1" by simp
  note c = cleanupE [OF assms(1) g small c1]
  have small1: "generation g1 < 2 ^ 63 - 1" using c(5) room by simp
  have n: "partitionCount gm1 = partitionCount gm" using c(7) by (auto simp: wrote_def)
  show ?thesis
  proof (cases "gen = generation g1 \<and> map_of (members g1) c \<noteq> None")
    case False
    then show ?thesis
      using cleanup_advances [OF assms(1) g small c1] Some c1 by (auto simp: LeaveGroup_def)
  next
    case True
    then obtain m where m: "map_of (members g1) c = Some m" by auto
    from cleanup_then_write [OF assms(1) g small c1 group_ok_left [OF c(2) small1, of c]]
    show ?thesis
      using True m Some c1 n next_generation [OF group_okD(8) [OF c(2)] small1]
      by (simp add: LeaveGroup_def evolves_def Let_def rebalanceLocked_def)
  qed
qed

lemma groups_ok_put:
  assumes "groups_ok gm" "group_ok (partitionCount gm) g" "gName g = name"
  shows "groups_ok (gm\<lparr>groups := mput name g (groups gm), groupsFile := f\<rparr>)"
proof -
  have "\<forall>(k, h) \<in> set (groups gm). gName h = k \<and> group_ok (partitionCount gm) h"
    using assms(1) by (simp add: groups_ok_def)
  then have "\<forall>(k, h) \<in> set (mput name g (groups gm)). gName h = k \<and> group_ok (partitionCount gm) h"
    using set_mput_subset [of name g "groups gm"] assms(2,3) by blast
  then show ?thesis using assms(1) by (simp add: groups_ok_def)
qed

text \<open>What \<open>ensureGroupLocked\<close> returns: a fresh group, or a later state of the one that exists.\<close>

lemma ensureGroup_group:
  assumes "groups_ok gm" "room gm" "ensureGroupLocked name topic strategy gm = (gm1, g)"
  shows "gm1 = putGroup name g gm" "group_ok (partitionCount gm) g" "gName g = name"
    "generation g < 2 ^ 63 - 2" "gTopic g = topic"
    "\<forall>g0. map_of (groups gm) name = Some g0 \<longrightarrow> evolves g0 g"
proof -
  have "gm1 = putGroup name g gm \<and> group_ok (partitionCount gm) g \<and> gName g = name
      \<and> generation g < 2 ^ 63 - 2 \<and> gTopic g = topic
      \<and> (\<forall>g0. map_of (groups gm) name = Some g0 \<longrightarrow> evolves g0 g)"
  proof (cases "map_of (groups gm) name")
    case None
    then show ?thesis
      using assms(3) by (auto simp: ensureGroupLocked_def Let_def group_ok_def int64_ok_def split: if_splits)
  next
    case (Some g0)
    note ok = groups_okD [OF assms(1) Some]
    have gen: "1 \<le> generation g0" "generation g0 < 2 ^ 63 - 4"
      using roomD [OF assms(2) Some] ok by (auto simp: group_ok_def)
    note next1 = next_generation [of "generation g0"] next_generation [of "generation g0 + 1"]
    define g1 where "g1 = (if gTopic g0 \<noteq> topic
        then g0\<lparr>gTopic := topic, members := [], memberOrder := [], assignments := [],
                generation := iadd (generation g0) 1\<rparr> else g0)"
    have g1: "group_ok (partitionCount gm) g1" "gName g1 = name" "evolves g0 g1" "gTopic g1 = topic"
      "generation g1 \<le> generation g0 + 1"
      using ok next1(1) gen by (auto simp: g1_def group_ok_def evolves_def)
    have gen1: "iadd (generation g1) 1 = generation g1 + 1" "1 \<le> generation g1 + 1" "int64_ok (generation g1 + 1)"
      using next_generation [OF group_okD(8) [OF g1(1)]] g1(5) gen(2) by auto
    define g2 where "g2 = (if strategy \<noteq> [] \<and> strategy \<noteq> assignor g1
        then rebalanceLocked (partitionCount gm) (g1\<lparr>assignor := strategy, generation := iadd (generation g1) 1\<rparr>)
        else g1)"
    have "ensureGroupLocked name topic strategy gm = (putGroup name g2 gm, g2)"
      unfolding ensureGroupLocked_def Some g2_def g1_def by (simp only: option.case Let_def)
    then have g: "gm1 = putGroup name g gm" "g = g2" using assms(3) by simp_all
    have "group_ok (partitionCount gm) (rebalanceLocked (partitionCount gm)
        (g1\<lparr>assignor := strategy, generation := iadd (generation g1) 1\<rparr>))" if "strategy \<noteq> []"
      by (rule group_ok_rebalance) (use that group_okD [OF g1(1)] gen1 in simp_all)
    moreover have "evolves g0 (rebalanceLocked (partitionCount gm)
        (g1\<lparr>assignor := strategy, generation := iadd (generation g1) 1\<rparr>))"
      using g1(3) gen1 by (simp add: evolves_def rebalanceLocked_def)
    ultimately show ?thesis
      using g g1 gen1 gen(2) Some by (auto simp: g2_def rebalanceLocked_def)
  qed
  then show "gm1 = putGroup name g gm" "group_ok (partitionCount gm) g" "gName g = name"
    "generation g < 2 ^ 63 - 2" "gTopic g = topic"
    "\<forall>g0. map_of (groups gm) name = Some g0 \<longrightarrow> evolves g0 g"
    by blast+
qed

definition joined :: "nat \<Rightarrow> int \<Rightarrow> string \<Rightarrow> ConsumerGroup \<Rightarrow> ConsumerGroup" where
  "joined n now c g = (case map_of (members g) c of
      None \<Rightarrow> rebalanceLocked n
        (g\<lparr>memberOrder := memberOrder g @ [c],
           members := mput c \<lparr>memberID = c, lastHeartbeat = now\<rparr> (members g),
           generation := iadd (generation g) 1\<rparr>)
    | Some m \<Rightarrow> g\<lparr>members := mput c (m\<lparr>lastHeartbeat := now\<rparr>) (members g)\<rparr>)"

lemma group_ok_joined:
  assumes "group_ok n g" "generation g < 2 ^ 63 - 1" "int64_ok (time_UnixMilli now)"
  shows "group_ok n (joined n now c g)"
proof (cases "map_of (members g) c")
  case None
  let ?m = "\<lparr>memberID = c, lastHeartbeat = now\<rparr>"
  note ok = group_okD [OF assms(1)]
  have new: "c \<notin> set (memberOrder g)" using None group_ok_member [OF assms(1)] by simp
  have vals: "\<forall>(d, m) \<in> set (mput c ?m (members g)).
      memberID m = d \<and> int64_ok (time_UnixMilli (lastHeartbeat m))"
    by (rule ball_mput [OF ok(4)]) (simp add: assms(3))
  have gen: "1 \<le> iadd (generation g) 1" "int64_ok (iadd (generation g) 1)"
    using next_generation [OF ok(8) assms(2)] by auto
  have "group_ok n (rebalanceLocked n
        (g\<lparr>memberOrder := memberOrder g @ [c], members := mput c ?m (members g),
           generation := iadd (generation g) 1\<rparr>))"
    by (rule group_ok_rebalance) (use ok(1,2,3,7) new vals gen in simp_all)
  then show ?thesis using None by (simp add: joined_def)
next
  case (Some m)
  then show ?thesis using group_ok_seen [OF assms(1) Some assms(3)] by (simp add: joined_def)
qed

lemma joined_evolves:
  assumes "1 \<le> generation g" "generation g < 2 ^ 63 - 1"
  shows "evolves g (joined n now c g)" "gName (joined n now c g) = gName g"
    "gTopic (joined n now c g) = gTopic g" "map_of (members (joined n now c g)) c \<noteq> None"
  using next_generation [OF assms]
  by (simp_all add: joined_def evolves_def rebalanceLocked_def split: option.split)

text \<open>The whole of a join: the group is created or brought up to date, cleaned and joined.\<close>

lemma JoinGroup_group:
  assumes "groups_ok gm" "room gm" "int64_ok (time_UnixMilli now)"
    "JoinGroup env now name topic c strategy gm = (gm', r)"
  obtains g g1 where "ensureGroupLocked name topic strategy gm = (putGroup name g gm, g)"
    "g1 = joined (partitionCount gm) now c (cleaned (partitionCount gm) (sessionTimeout gm) now g)"
    "group_ok (partitionCount gm) g1" "gName g1 = name" "gTopic g1 = topic" "evolves g g1"
    "map_of (members g1) c \<noteq> None" "wrote env name g1 gm gm'"
    "r = \<lparr>jGeneration = generation g1, jAssigned = owned (assignments g1) c\<rparr>"
proof -
  obtain gm1 g where e: "ensureGroupLocked name topic strategy gm = (gm1, g)" by force
  note eg = ensureGroup_group [OF assms(1,2) e]
  have ok1: "groups_ok gm1" using groups_ok_put [OF assms(1) eg(2,3), of "groupsFile gm"]
    by (simp add: eg(1) putGroup_def)
  have g1: "map_of (groups gm1) name = Some g" "partitionCount gm1 = partitionCount gm"
    "sessionTimeout gm1 = sessionTimeout gm"
    by (simp_all add: eg(1) putGroup_def)
  obtain gm2 g2 where c2: "cleanupExpiredLocked env now name g gm1 = (gm2, g2)" by force
  have small: "generation g < 2 ^ 63 - 1" using eg(4) by simp
  note cl = cleanupE [OF ok1 g1(1) small c2]
  let ?g = "joined (partitionCount gm) now c g2"
  have small2: "generation g2 < 2 ^ 63 - 1" using cl(5) eg(4) by simp
  have ok2: "group_ok (partitionCount gm) g2" using cl(2) g1(2) by simp
  note jo = joined_evolves [OF group_okD(8) [OF ok2] small2, of "partitionCount gm" now c]
  have gm2: "partitionCount gm2 = partitionCount gm" "sessionTimeout gm2 = sessionTimeout gm"
    "mput name ?g (groups gm2) = mput name ?g (groups gm)"
    using cl(7) g1(2,3) by (auto simp: wrote_def eg(1) putGroup_def)
  have "JoinGroup env now name topic c strategy gm = (saveLocked env (putGroup name ?g gm2),
      \<lparr>jGeneration = generation ?g, jAssigned = owned (assignments ?g) c\<rparr>)"
    unfolding JoinGroup_def joined_def by (simp only: e c2 gm2(1) Let_def prod.case)
  then have step: "gm' = saveLocked env (putGroup name ?g gm2)"
    "r = \<lparr>jGeneration = generation ?g, jAssigned = owned (assignments ?g) c\<rparr>"
    using assms(4) by simp_all
  have "wrote env name ?g gm gm'"
    unfolding step by (rule wrote_save) (simp_all add: putGroup_def gm2)
  moreover have "gTopic g2 = topic"
    using cl(1) eg(5) by (simp add: cleaned_def rebalanceLocked_def expel_def)
  ultimately show ?thesis
    using that [of g ?g] e eg(1) cl(1,4) jo step(2) group_ok_joined [OF ok2 small2 assms(3)]
      evolves_trans [OF cl(3) jo(1)] g1 by simp
qed

lemma JoinGroup_advances:
  assumes "groups_ok gm" "room gm" "int64_ok (time_UnixMilli now)"
  shows "advances env name gm (fst (JoinGroup env now name topic c strategy gm))"
proof -
  obtain gm' r where j: "JoinGroup env now name topic c strategy gm = (gm', r)" by force
  from JoinGroup_group [OF assms j] obtain g g1
    where g: "ensureGroupLocked name topic strategy gm = (putGroup name g gm, g)"
    "group_ok (partitionCount gm) g1" "gName g1 = name" "evolves g g1" "wrote env name g1 gm gm'"
    by metis
  have "\<forall>g0. map_of (groups gm) name = Some g0 \<longrightarrow> evolves g0 g1"
    using ensureGroup_group(6) [OF assms(1,2) g(1)] evolves_trans [OF _ g(4)] by blast
  then show ?thesis using g j by (auto simp: advances_def)
qed

end
