(* ===== verification/Group_Fencing.thy ===== *)
theory Group_Fencing
  imports Group_Runs
begin

text \<open>
  Consumer groups over restarts and in runs: the state file is read back (up to the millisecond of
  the heartbeats), the invariant holds in every reachable state, and the generation number fences
  off members of earlier generations.
\<close>

section \<open>Reading the state file back\<close>

definition loaded :: "string \<Rightarrow> ConsumerGroup \<Rightarrow> ConsumerGroup" where
  "loaded name g =
     loadGroup name ((persistGroup g)\<lparr>pAssignments := sort_key fst (assignments g)\<rparr>)"

definition groupView ::
  "ConsumerGroup \<Rightarrow> string \<times> int \<times> string \<times> string list \<times> (string \<Rightarrow> int list) \<times> (string \<Rightarrow> int option)" where
  "groupView g = (gTopic g, generation g, assignor g, memberOrder g, owned (assignments g),
     \<lambda>c. map_option (\<lambda>m. time_UnixMilli (lastHeartbeat m)) (map_of (members g) c))"

lemma decMember_encMember [simp]:
  "int64_ok (pLastHeartbeat pm) \<Longrightarrow> decMember (encMember pm) = (pm, True)"
  by (simp add: encMember_def decField_def Let_def)

lemma decState_encState:
  assumes "int64_ok (pGeneration st)" "mwf (pAssignments st)"
    "\<forall>(c, ps) \<in> set (pAssignments st). \<forall>p \<in> set ps. int64_ok p"
    "\<forall>pm \<in> set (pMembers st). int64_ok (pLastHeartbeat pm)"
  shows "decState (encState st) = (st\<lparr>pAssignments := sort_key fst (pAssignments st)\<rparr>, True)"
proof -
  have order: "decList decStr (encCopy JStr (pMemberOrder st)) = (pMemberOrder st, True)"
    using decList_encCopy [of "pMemberOrder st" decStr JStr "\<lambda>s. s"] by simp
  have ints: "decList decInt (encCopy JNum ps) = (ps, True)" if "(c, ps) \<in> set (pAssignments st)" for c ps
    using decList_encCopy [of ps decInt JNum "\<lambda>p. p"] assms(3) that by fastforce
  have asg: "decMap (decList decInt) (encMap (encCopy JNum) (pAssignments st))
      = (sort_key fst (pAssignments st), True)"
    using decMap_encMap [OF assms(2), of "decList decInt" "encCopy JNum" "\<lambda>ps. ps"] ints by simp
  have mems: "decList decMember (JArr (map encMember (pMembers st))) = (pMembers st, True)"
    using assms(4) by (auto simp: list_all_iff intro!: map_idI)
  show ?thesis
    using assms(1) order asg mems by (simp add: encState_def decField_def Let_def)
qed

lemma persisted_members:
  assumes "group_ok n g"
  shows "pMembers (persistGroup g) = map (\<lambda>c. \<lparr>pConsumerID = c,
      pLastHeartbeat = time_UnixMilli (lastHeartbeat (the (map_of (members g) c)))\<rparr>) (memberOrder g)"
    and "\<forall>c \<in> set (memberOrder g). int64_ok (time_UnixMilli (lastHeartbeat (the (map_of (members g) c))))"
proof -
  have m: "\<exists>m. map_of (members g) c = Some m \<and> memberID m = c \<and> int64_ok (time_UnixMilli (lastHeartbeat m))"
    if c: "c \<in> set (memberOrder g)" for c
  proof -
    obtain m where "map_of (members g) c = Some m" using c group_ok_member [OF assms] by auto
    then show ?thesis using group_okD(4) [OF assms] by (auto dest: map_of_SomeD)
  qed
  have "List.map_filter (\<lambda>c. map_option (\<lambda>m. \<lparr>pConsumerID = memberID m,
            pLastHeartbeat = time_UnixMilli (lastHeartbeat m)\<rparr>) (map_of (members g) c)) cs
      = map (\<lambda>c. \<lparr>pConsumerID = c,
            pLastHeartbeat = time_UnixMilli (lastHeartbeat (the (map_of (members g) c)))\<rparr>) cs"
    if "set cs \<subseteq> set (memberOrder g)" for cs
    using that
  proof (induction cs)
    case (Cons c cs)
    then show ?case using m [of c] by (auto simp: List.map_filter_simps)
  qed (simp add: List.map_filter_simps)
  then show "pMembers (persistGroup g) = map (\<lambda>c. \<lparr>pConsumerID = c,
      pLastHeartbeat = time_UnixMilli (lastHeartbeat (the (map_of (members g) c)))\<rparr>) (memberOrder g)"
    by (simp add: persistGroup_def)
  show "\<forall>c \<in> set (memberOrder g). int64_ok (time_UnixMilli (lastHeartbeat (the (map_of (members g) c))))"
    using m by fastforce
qed

lemma group_ok_persists:
  assumes "group_ok n g" "int64_ok (int n)"
  shows "decState (encState (persistGroup g))
       = ((persistGroup g)\<lparr>pAssignments := sort_key fst (assignments g)\<rparr>, True)"
proof -
  note ok = group_okD [OF assms(1)]
  have "int64_ok p" if "(c, ps) \<in> set (assignments g)" "p \<in> set ps" for c ps p
  proof -
    have "p \<in> set (owned (assignments g) c)"
      using that map_of_is_SomeI [OF ok(5) that(1)] by (simp add: owned_def)
    then have "0 \<le> p \<and> p < int n" using ok(6) assignmentFor_in_range [OF ok(2)] by metis
    then show ?thesis using assms(2) by (simp add: int64_ok_def)
  qed
  moreover have "int64_ok (pLastHeartbeat pm)" if "pm \<in> set (pMembers (persistGroup g))" for pm
    using that persisted_members [OF assms(1)] by auto
  moreover have "pGeneration (persistGroup g) = generation g" "pAssignments (persistGroup g) = assignments g"
    by (simp_all add: persistGroup_def)
  ultimately show ?thesis
    using decState_encState [of "persistGroup g"] ok(5,9) by auto
qed

lemma fold_mput_map:
  assumes "distinct (mkeys acc @ cs)" "\<And>c. key (f c) = c"
  shows "fold (\<lambda>x. mput (key x) (val x)) (map f cs) acc = acc @ map (\<lambda>c. (c, val (f c))) cs"
  using assms(1)
proof (induction cs arbitrary: acc)
  case (Cons c cs)
  then have "mput c (val (f c)) acc = acc @ [(c, val (f c))]" by (intro mput_fresh) auto
  then show ?case using Cons.IH [of "acc @ [(c, val (f c))]"] Cons.prems assms(2) by simp
qed simp

lemma members_loaded:
  assumes "group_ok n g"
  shows "members (loaded name g) = map (\<lambda>c. (c, \<lparr>memberID = c, lastHeartbeat =
      time_fromUnixMilli (time_UnixMilli (lastHeartbeat (the (map_of (members g) c))))\<rparr>)) (memberOrder g)"
proof -
  note ok = group_okD [OF assms]
  let ?f = "\<lambda>c. \<lparr>pConsumerID = c,
      pLastHeartbeat = time_UnixMilli (lastHeartbeat (the (map_of (members g) c)))\<rparr>"
  show ?thesis
    using fold_mput_map [of "[]" "memberOrder g" pConsumerID ?f "\<lambda>pm. \<lparr>memberID = pConsumerID pm,
        lastHeartbeat = time_fromUnixMilli (pLastHeartbeat pm)\<rparr>"] ok(2)
      persisted_members(1) [OF assms]
    by (simp add: loaded_def loadGroup_def)
qed

lemma loaded_fields:
  assumes "group_ok n g"
  shows "gName (loaded name g) = name" "gTopic (loaded name g) = gTopic g"
    "generation (loaded name g) = generation g" "assignor (loaded name g) = assignor g"
    "memberOrder (loaded name g) = memberOrder g"
    "owned (assignments (loaded name g)) = owned (assignments g)"
  using group_okD [OF assms]
  by (simp_all add: loaded_def loadGroup_def persistGroup_def owned_def fun_eq_iff)

lemma group_ok_loaded:
  assumes "group_ok n g"
  shows "group_ok n (loaded name g)" "groupView (loaded name g) = groupView g"
proof -
  note ok = group_okD [OF assms] and l = loaded_fields [OF assms, of name] members_loaded [OF assms, of name]
  have trunc: "time_UnixMilli (time_fromUnixMilli (time_UnixMilli t)) = time_UnixMilli t" for t by simp
  note persisted_members(2) [OF assms]
  moreover have "mwf (assignments (loaded name g))"
    using ok(5) by (simp add: loaded_def loadGroup_def persistGroup_def)
  ultimately show "group_ok n (loaded name g)"
    unfolding group_ok_def l using ok(2,6-9) by (auto simp: comp_def image_image)
  have "map_option (\<lambda>m. time_UnixMilli (lastHeartbeat m)) (map_of (members (loaded name g)) c)
      = map_option (\<lambda>m. time_UnixMilli (lastHeartbeat m)) (map_of (members g) c)" for c
    using group_ok_member [OF assms, of c] unfolding l
    by (cases "map_of (members g) c") (auto simp: map_of_map_restrict)
  then show "groupView (loaded name g) = groupView g"
    by (simp add: groupView_def l)
qed

lemma map_of_map_key: "map_of (map (\<lambda>(k, v). (k, f k v)) m) k = map_option (f k) (map_of m k)"
  by (induction m) auto

lemma groups_reload:
  assumes "groups_ok gm" "fopenOK env"
  shows "map_of (groups (NewGroupManager env n (Doc (groupsDoc gm)))) name
         = map_option (loaded name) (map_of (groups gm) name)"
    and "mwf (groups (NewGroupManager env n (Doc (groupsDoc gm))))"
proof -
  let ?m = "map (\<lambda>(name, g). (name, persistGroup g)) (groups gm)"
  have wf: "mwf (groups gm)" and ok: "\<And>name g. (name, g) \<in> set (groups gm) \<Longrightarrow> group_ok (partitionCount gm) g"
    and n: "int64_ok (int (partitionCount gm))"
    using assms(1) by (auto simp: groups_ok_def)
  have keys: "mwf ?m" using wf by (simp add: case_prod_unfold comp_def)
  have dec: "\<forall>(name, st) \<in> set ?m. snd (decState (encState st))"
    using group_ok_persists [OF ok n] by fastforce
  note look = decMap_lookup [OF keys dec]
  obtain ps where ps: "decMap decState (groupsDoc gm) = (ps, True)"
    using look by (metis groupsDoc_def prod.collapse)
  have new: "groups (NewGroupManager env n (Doc (groupsDoc gm)))
      = map (\<lambda>(name, st). (name, loadGroup name st)) ps"
    using assms(2) ps by (simp add: NewGroupManager_def loadGroups_def)
  have "map_of ps name = map_option (\<lambda>st. fst (decState (encState st))) (map_of ?m name)"
    using look [of name] ps by (simp add: groupsDoc_def)
  also have "\<dots> = map_option (\<lambda>g. (persistGroup g)\<lparr>pAssignments := sort_key fst (assignments g)\<rparr>)
      (map_of (groups gm) name)"
    using group_ok_persists [OF ok n] by (auto simp: map_of_map_snd option.map_comp dest!: map_of_SomeD
        intro!: option.map_cong0 split: option.split)
  finally show "map_of (groups (NewGroupManager env n (Doc (groupsDoc gm)))) name
         = map_option (loaded name) (map_of (groups gm) name)"
    by (simp add: new map_of_map_key option.map_comp loaded_def [abs_def] comp_def)
  show "mwf (groups (NewGroupManager env n (Doc (groupsDoc gm))))"
    using decMap_wf [of decState "groupsDoc gm"] ps by (simp add: new case_prod_unfold comp_def)
qed

definition restartGroups :: "fileIO \<Rightarrow> GroupManager \<Rightarrow> GroupManager" where
  "restartGroups env gm = NewGroupManager env (partitionCount gm) (groupsFile gm)"

lemma NewGroupManager_fields [simp]:
  "partitionCount (NewGroupManager env n f) = n" "groupsFile (NewGroupManager env n f) = f"
  "sessionTimeout (NewGroupManager env n f) = 10 * Second"
  by (simp_all add: NewGroupManager_def loadGroups_def split: option.split prod.split bool.split)

definition groups_synced :: "fileIO \<Rightarrow> GroupManager \<Rightarrow> bool" where
  "groups_synced env gm \<longleftrightarrow> groups_ok (restartGroups env gm)
     \<and> (\<forall>name. map_option groupView (map_of (groups (restartGroups env gm)) name)
              = map_option groupView (map_of (groups gm) name))"

lemma groups_synced_saved:
  assumes "groups_ok gm" "fopenOK env" "groupsFile gm = Doc (groupsDoc gm)"
  shows "groups_synced env gm"
proof -
  note r = groups_reload [OF assms(1,2), where n = "partitionCount gm"]
  have new: "restartGroups env gm = NewGroupManager env (partitionCount gm) (Doc (groupsDoc gm))"
    by (simp add: restartGroups_def assms(3))
  have "gName g = name \<and> group_ok (partitionCount gm) g"
    if "(name, g) \<in> set (groups (restartGroups env gm))" for name g
  proof -
    have "map_of (groups (restartGroups env gm)) name = Some g"
      using that r(2) by (simp add: new)
    then obtain g0 where "map_of (groups gm) name = Some g0" "g = loaded name g0"
      using r(1) by (auto simp: new)
    then show ?thesis
      using groups_okD [OF assms(1)] group_ok_loaded(1) loaded_fields(1) by metis
  qed
  then have "groups_ok (restartGroups env gm)"
    using r(2) assms(1) by (auto simp: groups_ok_def new)
  moreover have "map_option groupView (map_of (groups (restartGroups env gm)) name)
      = map_option groupView (map_of (groups gm) name)" for name
  proof (cases "map_of (groups gm) name")
    case (Some g)
    then have "groupView (loaded name g) = groupView g"
      using groups_okD [OF assms(1) Some] group_ok_loaded(2) by blast
    then show ?thesis using r(1) [of name] Some by (simp add: new)
  qed (use r(1) [of name] in \<open>simp add: new\<close>)
  ultimately show ?thesis by (simp add: groups_synced_def)
qed

section \<open>Runs\<close>

inductive group_step :: "fileIO \<Rightarrow> GroupManager \<Rightarrow> GroupManager \<Rightarrow> bool" for env :: fileIO where
  step_join: "room gm \<Longrightarrow> int64_ok (time_UnixMilli now) \<Longrightarrow>
    group_step env gm (fst (JoinGroup env now name topic c strategy gm))"
| step_leave: "room gm \<Longrightarrow> group_step env gm (fst (LeaveGroup env now name topic c gen gm))"
| step_sync: "room gm \<Longrightarrow> int64_ok (time_UnixMilli seen) \<Longrightarrow>
    group_step env gm (fst (SyncGroup env now seen name topic c gen gm))"
| step_heartbeat: "room gm \<Longrightarrow> int64_ok (time_UnixMilli seen) \<Longrightarrow>
    group_step env gm (fst (Heartbeat env now seen name topic c gen gm))"
| step_commit: "room gm \<Longrightarrow> group_step env gm (fst (ValidateCommit env now name topic c gen p gm))"
| step_restart: "file_io_ok env \<Longrightarrow> group_step env gm (restartGroups env gm)"

abbreviation group_run :: "fileIO \<Rightarrow> GroupManager \<Rightarrow> GroupManager \<Rightarrow> bool" where
  "group_run env \<equiv> (group_step env)\<^sup>*\<^sup>*"

definition groups_inv :: "fileIO \<Rightarrow> GroupManager \<Rightarrow> bool" where
  "groups_inv env gm \<longleftrightarrow> groups_ok gm \<and> (file_io_ok env \<longrightarrow> groups_synced env gm)"

definition groups_evolve :: "GroupManager \<Rightarrow> GroupManager \<Rightarrow> bool" where
  "groups_evolve gm gm' \<longleftrightarrow> partitionCount gm' = partitionCount gm
     \<and> (\<forall>name g. map_of (groups gm) name = Some g \<longrightarrow>
          (\<exists>g'. map_of (groups gm') name = Some g' \<and> evolves g g'))"

lemma advances_inv:
  assumes "advances env name gm gm'" "groups_inv env gm"
  shows "groups_inv env gm' \<and> groups_evolve gm gm'"
proof -
  consider "gm' = gm" | g where "wrote env name g gm gm'" "gName g = name"
    "group_ok (partitionCount gm) g" "\<forall>g0. map_of (groups gm) name = Some g0 \<longrightarrow> evolves g0 g"
    using assms(1) by (auto simp: advances_def)
  then show ?thesis
  proof cases
    case 1
    then show ?thesis using assms(2) by (auto simp: groups_evolve_def)
  next
    case 2
    have "groups_ok (gm\<lparr>groups := mput name g (groups gm), groupsFile := groupsFile gm'\<rparr>)"
      using groups_ok_put [OF _ 2(3,2)] assms(2) by (simp add: groups_inv_def)
    then have ok: "groups_ok gm'" using 2(1) by (simp add: groups_ok_def wrote_def)
    moreover have "groups_synced env gm'" if "file_io_ok env"
      using that 2(1) by (intro groups_synced_saved [OF ok]) (auto simp: wrote_def file_io_ok_def)
    ultimately show ?thesis
      using 2(1,4) by (auto simp: groups_inv_def groups_evolve_def wrote_def)
  qed
qed

lemma restartGroups_again: "restartGroups env (restartGroups env gm) = restartGroups env gm"
  by (simp add: restartGroups_def)

lemma restart_inv:
  assumes "groups_inv env gm" "file_io_ok env"
  shows "groups_inv env (restartGroups env gm) \<and> groups_evolve gm (restartGroups env gm)"
proof -
  have sync: "groups_synced env gm" using assms by (simp add: groups_inv_def)
  have "\<exists>g'. map_of (groups (restartGroups env gm)) name = Some g' \<and> evolves g g'"
    if "map_of (groups gm) name = Some g" for name g
  proof -
    have "map_option groupView (map_of (groups (restartGroups env gm)) name) = Some (groupView g)"
      using sync that by (simp add: groups_synced_def)
    then obtain g' where "map_of (groups (restartGroups env gm)) name = Some g'" "groupView g' = groupView g"
      by auto
    then show ?thesis by (auto simp: groupView_def evolves_def)
  qed
  then show ?thesis
    using sync by (simp add: groups_inv_def groups_synced_def restartGroups_again groups_evolve_def)
      (simp add: restartGroups_def)
qed

lemma group_step_inv:
  assumes "group_step env gm gm'" "groups_inv env gm"
  shows "groups_inv env gm' \<and> groups_evolve gm gm'"
proof -
  have ok: "groups_ok gm" using assms(2) by (simp add: groups_inv_def)
  from assms(1) show ?thesis
    by cases (simp_all add: advances_inv [OF JoinGroup_advances [OF ok] assms(2)]
        advances_inv [OF LeaveGroup_advances [OF ok] assms(2)]
        advances_inv [OF SyncGroup_advances [OF ok] assms(2)]
        advances_inv [OF Heartbeat_advances [OF ok] assms(2)]
        advances_inv [OF ValidateCommit_advances [OF ok] assms(2)]
        restart_inv [OF assms(2)])
qed

lemma groups_evolve_trans: "groups_evolve a b \<Longrightarrow> groups_evolve b c \<Longrightarrow> groups_evolve a c"
  unfolding groups_evolve_def by (metis evolves_trans)

lemma group_run_inv:
  assumes "group_run env gm gm'" "groups_inv env gm"
  shows "groups_inv env gm' \<and> groups_evolve gm gm'"
  using assms
proof (induction rule: rtranclp_induct)
  case base
  then show ?case by (auto simp: groups_evolve_def)
next
  case (step gm1 gm2)
  then show ?case using group_step_inv groups_evolve_trans by blast
qed

lemma groups_inv_fresh: "int64_ok (int n) \<Longrightarrow> groups_inv env (NewGroupManager env' n Absent)"
  by (simp add: groups_inv_def groups_ok_def groups_synced_def restartGroups_def
      NewGroupManager_def loadGroups_def)

section \<open>The commit check\<close>

lemma ValidateCommit_accepted:
  assumes "groups_ok gm" "room gm" "ValidateCommit env now name topic c gen p gm = (gm1, None)"
  shows "\<exists>g1. map_of (groups gm1) name = Some g1 \<and> group_ok (partitionCount gm) g1 \<and> gTopic g1 = topic
           \<and> generation g1 = gen \<and> p \<in> set (owned (assignments g1) c)"
proof -
  obtain g where f: "findGroup name topic gm = Some g"
    using assms(3) by (cases "findGroup name topic gm") (auto simp: ValidateCommit_def)
  then have g: "map_of (groups gm) name = Some g" "gTopic g = topic" by (auto simp: findGroup_Some)
  obtain gm2 g1 where c1: "cleanupExpiredLocked env now name g gm = (gm2, g1)" by force
  have small: "generation g < 2 ^ 63 - 1" using roomD [OF assms(2) g(1)] by simp
  note cl = cleanupE [OF assms(1) g(1) small c1]
  have acc: "gm1 = gm2" "generation g1 = gen" "p \<in> set (owned (assignments g1) c)"
    using assms(3) f c1 by (auto simp: ValidateCommit_def split: if_splits)
  have "gTopic g1 = topic"
    using cl(1) g(2) by (simp add: cleaned_def rebalanceLocked_def expel_def)
  then show ?thesis using cl acc by blast
qed

lemma owned_by_generation:
  assumes "evolves g g'" "generation g' = generation g" "group_ok n g" "group_ok n g'"
  shows "gTopic g' = gTopic g" "owned (assignments g') = owned (assignments g)"
proof -
  have "gTopic g' = gTopic g" "assignor g' = assignor g" "memberOrder g' = memberOrder g"
    using assms(1,2) by (simp_all add: evolves_def)
  then show "gTopic g' = gTopic g" "owned (assignments g') = owned (assignments g)"
    using group_okD(6) [OF assms(3)] group_okD(6) [OF assms(4)] by (auto simp: fun_eq_iff)
qed

lemma silent_member_expelled:
  assumes "groups_ok gm" "room gm" "findGroup name topic gm = Some g"
    "cleanupExpiredLocked env now name g gm = (gm1, g1)"
    "map_of (members g) c = Some m" "time_Sub now (lastHeartbeat m) > sessionTimeout gm"
  shows "map_of (members g1) c = None" "generation g1 = generation g + 1"
proof -
  have g: "map_of (groups gm) name = Some g" using assms(3) by (simp add: findGroup_Some)
  have small: "generation g < 2 ^ 63 - 1" using roomD [OF assms(2) g] by simp
  have ok: "group_ok (partitionCount gm) g" using groups_okD [OF assms(1) g] by blast
  note cl = cleanupE(1) [OF assms(1) g small assms(4)]
  have c: "c \<in> set (memberOrder g)" "\<not> fresh (sessionTimeout gm) now g c"
    using assms(5,6) group_ok_member [OF ok] by (auto simp: fresh_def)
  then have "\<not> list_all (fresh (sessionTimeout gm) now g) (memberOrder g)" by (auto simp: list_all_iff)
  then show "map_of (members g1) c = None" "generation g1 = generation g + 1"
    using c next_generation [OF group_okD(8) [OF ok] small]
    by (auto simp: cl cleaned_def rebalanceLocked_def expel_def map_of_fold_mdel)
qed

section \<open>A sample group\<close>

definition one_member :: GroupManager where
  "one_member = fst (JoinGroup good_file_io (1000 * Second) ''billing'' ''orders'' ''alice'' []
     (NewGroupManager good_file_io 3 Absent))"

definition two_members :: GroupManager where
  "two_members = fst (JoinGroup good_file_io (1001 * Second) ''billing'' ''orders'' ''bob'' ''range''
     one_member)"

lemma two_members_eval: "groups two_members =
   [(''billing'', \<lparr>gName = ''billing'', gTopic = ''orders'', generation = 4, assignor = ''range'',
      members = [(''alice'', \<lparr>memberID = ''alice'', lastHeartbeat = 1000 * Second\<rparr>),
                 (''bob'', \<lparr>memberID = ''bob'', lastHeartbeat = 1001 * Second\<rparr>)],
      memberOrder = [''alice'', ''bob''],
      assignments = [(''alice'', [0, 1]), (''bob'', [2])]\<rparr>)]"
  by code_simp

lemma two_members_run: "group_run good_file_io (NewGroupManager good_file_io 3 Absent) two_members"
proof -
  have "group_step good_file_io (NewGroupManager good_file_io 3 Absent) one_member"
    unfolding one_member_def
    by (rule step_join) (simp_all add: room_def NewGroupManager_def loadGroups_def time_UnixMilli_def int64_ok_def)
  moreover have "room one_member" by code_simp
  then have "group_step good_file_io one_member two_members"
    unfolding two_members_def by (rule step_join) (simp add: time_UnixMilli_def int64_ok_def)
  ultimately show ?thesis by (meson converse_rtranclp_into_rtranclp rtranclp.rtrancl_refl)
qed

lemma two_members_room: "room two_members"
  by (simp add: room_def two_members_eval)

section \<open>Properties\<close>

text \<open>
  C22. Exclusive and complete ownership. In every state reached from an empty manager by joins,
  leaves, syncs, heartbeats, commit checks and restarts, a group with members has given every
  partition to exactly one of them, nobody else owns anything, no partition is listed twice, and
  the shares of two members differ by at most one; this holds for every assignor.
\<close>

theorem partitions_owned_once:
  assumes "group_run env (NewGroupManager env0 n Absent) gm" "int64_ok (int n)"
    and "map_of (groups gm) name = Some g" "memberOrder g \<noteq> []"
  shows "(\<forall>p. 0 \<le> p \<and> p < int n \<longrightarrow> (\<exists>!c. c \<in> set (memberOrder g) \<and> p \<in> set (owned (assignments g) c)))
     \<and> (\<forall>c p. p \<in> set (owned (assignments g) c) \<longrightarrow> c \<in> set (memberOrder g) \<and> 0 \<le> p \<and> p < int n)
     \<and> (\<forall>c. distinct (owned (assignments g) c))
     \<and> (\<forall>c c'. c \<in> set (memberOrder g) \<and> c' \<in> set (memberOrder g) \<longrightarrow>
           length (owned (assignments g) c) \<le> Suc (length (owned (assignments g) c')))"
proof (intro conjI)
  have "group_ok n g"
    using group_run_inv [OF assms(1) groups_inv_fresh [OF assms(2)]] groups_okD [OF _ assms(3)]
    by (auto simp: groups_inv_def groups_evolve_def)
  note d = group_okD(2) [OF this] and own = group_okD(6) [OF this, rule_format]
  show "\<forall>p. 0 \<le> p \<and> p < int n \<longrightarrow> (\<exists>!c. c \<in> set (memberOrder g) \<and> p \<in> set (owned (assignments g) c))"
    using assignmentFor_unique_owner [OF d assms(4)] by (simp add: own)
  show "\<forall>c p. p \<in> set (owned (assignments g) c) \<longrightarrow> c \<in> set (memberOrder g) \<and> 0 \<le> p \<and> p < int n"
    using assignmentFor_in_range [OF d] by (auto simp: own)
  show "\<forall>c. distinct (owned (assignments g) c)"
    using assignmentFor_distinct [OF d] by (simp add: own)
  show "\<forall>c c'. c \<in> set (memberOrder g) \<and> c' \<in> set (memberOrder g) \<longrightarrow>
      length (owned (assignments g) c) \<le> Suc (length (owned (assignments g) c'))"
    using assignmentFor_balanced [OF d] by (simp add: own)
qed

theorem partitions_owned_once_witness:
  "(\<exists>!c. c \<in> {''alice'', ''bob''} \<and> 1 \<in> set (owned (assignments (snd (hd (groups two_members)))) c))"
  using partitions_owned_once [OF two_members_run, of "''billing''"] by (simp add: two_members_eval int64_ok_def)

text \<open>
  C21. Generations fence commits. When a commit of a consumer is accepted for a partition in some
  generation of a group, then after any further run of the coordinator, restarts included, a commit
  for the same partition in the same generation is accepted from the same consumer and for the same
  topic only: two consumers never both commit a partition in one generation.
\<close>

theorem commit_fencing:
  assumes "group_run env (NewGroupManager env0 n Absent) gm" "int64_ok (int n)" "room gm"
    and "ValidateCommit env now name topic c gen p gm = (gm1, None)"
    and "group_run env gm1 gm2" "room gm2"
    and "ValidateCommit env now' name topic' c' gen p gm2 = (gm3, None)"
  shows "c' = c \<and> topic' = topic"
proof -
  have inv: "groups_inv env gm"
    using group_run_inv [OF assms(1) groups_inv_fresh [OF assms(2)]] by blast
  have "group_step env gm gm1" using step_commit [OF assms(3)] assms(4) by (metis fst_conv)
  then have inv1: "groups_inv env gm1" "partitionCount gm1 = partitionCount gm"
    using group_step_inv inv by (auto simp: groups_evolve_def)
  have inv2: "groups_inv env gm2" "groups_evolve gm1 gm2" using group_run_inv [OF assms(5) inv1(1)] by auto
  have "group_step env gm2 gm3" using step_commit [OF assms(6)] assms(7) by (metis fst_conv)
  then have "groups_evolve gm2 gm3" using group_step_inv inv2(1) by blast
  then have ev: "groups_evolve gm1 gm3" "partitionCount gm2 = partitionCount gm"
    using groups_evolve_trans [OF inv2(2)] inv2(2) inv1(2) by (auto simp: groups_evolve_def)
  obtain g1 where g1: "map_of (groups gm1) name = Some g1" "group_ok (partitionCount gm) g1"
    "gTopic g1 = topic" "generation g1 = gen" "p \<in> set (owned (assignments g1) c)"
    using ValidateCommit_accepted [OF _ assms(3,4)] inv by (auto simp: groups_inv_def)
  obtain g3 where g3: "map_of (groups gm3) name = Some g3" "group_ok (partitionCount gm) g3"
    "gTopic g3 = topic'" "generation g3 = gen" "p \<in> set (owned (assignments g3) c')"
    using ValidateCommit_accepted [OF _ assms(6,7)] inv2(1) ev(2) by (auto simp: groups_inv_def)
  have "evolves g1 g3" using ev(1) g1(1) g3(1) unfolding groups_evolve_def by (metis option.inject)
  from owned_by_generation [OF this _ g1(2) g3(2)] have "topic' = topic" "p \<in> set (owned (assignments g1) c')"
    using g1 g3 by auto
  moreover have "c' = c"
    using calculation(2) g1(5) group_okD(6) [OF g1(2)] assignmentFor_exclusive [OF group_okD(2) [OF g1(2)]] by metis
  ultimately show ?thesis by simp
qed

theorem commit_fencing_witness:
  "snd (ValidateCommit good_file_io (1003 * Second) ''billing'' ''orders'' ''bob'' 4 1
     (fst (Heartbeat good_file_io (1002 * Second) (1002 * Second) ''billing'' ''orders'' ''bob'' 4
       (fst (ValidateCommit good_file_io (1001 * Second) ''billing'' ''orders'' ''alice'' 4 1 two_members))))) \<noteq> None"
proof
  let ?v = "ValidateCommit good_file_io (1001 * Second) ''billing'' ''orders'' ''alice'' 4 1 two_members"
  let ?h = "fst (Heartbeat good_file_io (1002 * Second) (1002 * Second) ''billing'' ''orders'' ''bob'' 4 (fst ?v))"
  let ?w = "ValidateCommit good_file_io (1003 * Second) ''billing'' ''orders'' ''bob'' 4 1 ?h"
  assume bob: "snd ?w = None"
  have "snd ?v = None" by code_simp
  then have v: "?v = (fst ?v, None)" by (simp add: prod_eq_iff)
  have "room (fst ?v)" by code_simp
  then have run: "group_run good_file_io (fst ?v) ?h"
    by (intro r_into_rtranclp step_heartbeat) (simp_all add: time_UnixMilli_def int64_ok_def)
  have room: "room ?h" by code_simp
  have w: "?w = (fst ?w, None)" using bob by (simp add: prod_eq_iff)
  have "int64_ok (int 3)" by (simp add: int64_ok_def)
  from commit_fencing [OF two_members_run this two_members_room v run room w] show False by simp
qed

text \<open>
  C28. Groups survive a restart. With a working file system a restart after any run gives back every
  group with its topic, generation, assignor, join order, assignment and the heartbeats of its
  members to the millisecond; a restart with another partition count changes nothing of this.
\<close>

theorem groups_survive_restart:
  assumes "group_run env (NewGroupManager env0 n Absent) gm" "int64_ok (int n)" "file_io_ok env"
  shows "map_option groupView (map_of (groups (NewGroupManager env n' (groupsFile gm))) name)
       = map_option groupView (map_of (groups gm) name)"
proof -
  have "groups_synced env gm"
    using group_run_inv [OF assms(1) groups_inv_fresh [OF assms(2)]] assms(3) by (auto simp: groups_inv_def)
  moreover have "groups (NewGroupManager env n' (groupsFile gm)) = groups (restartGroups env gm)"
    by (simp add: restartGroups_def NewGroupManager_def loadGroups_def split: option.split prod.split bool.split)
  ultimately show ?thesis by (simp add: groups_synced_def)
qed

theorem groups_survive_restart_witness:
  "map_option (\<lambda>g. (generation g, memberOrder g))
     (map_of (groups (NewGroupManager good_file_io 5 (groupsFile two_members))) ''billing'')
   = Some (4, [''alice'', ''bob''])"
proof -
  have "int64_ok (int 3)" by (simp add: int64_ok_def)
  from groups_survive_restart [OF two_members_run this good_file_io_ok, of 5 "''billing''"]
  show ?thesis by (auto simp: two_members_eval groupView_def)
qed

text \<open>
  C29. Silent members are fenced off, live ones are served. In every reachable state a member whose
  last heartbeat is older than the session timeout is refused by the commit check, heartbeat, sync
  and leave, whatever generation it names, and is no longer a member afterwards. When all members
  are live, a commit is accepted exactly for the current generation from the owner of the partition.
\<close>

theorem silent_member_fenced:
  assumes "group_run env (NewGroupManager env0 n Absent) gm" "int64_ok (int n)" "room gm"
    and "map_of (groups gm) name = Some g"
  shows "(\<forall>c m. map_of (members g) c = Some m \<and> time_Sub now (lastHeartbeat m) > sessionTimeout gm \<longrightarrow>
            snd (ValidateCommit env now name topic c gen p gm) \<noteq> None
          \<and> snd (Heartbeat env now seen name topic c gen gm) \<noteq> None
          \<and> isl (snd (SyncGroup env now seen name topic c gen gm))
          \<and> snd (LeaveGroup env now name topic c gen gm) \<noteq> None
          \<and> (gTopic g = topic \<longrightarrow> (\<exists>g'. map_of (groups (fst (ValidateCommit env now name topic c gen p gm))) name = Some g'
                \<and> c \<notin> set (memberOrder g') \<and> generation g' = generation g + 1)))
       \<and> (list_all (fresh (sessionTimeout gm) now g) (memberOrder g) \<longrightarrow>
            (snd (ValidateCommit env now name topic c gen p gm) = None \<longleftrightarrow>
               gTopic g = topic \<and> gen = generation g \<and> c \<in> set (memberOrder g)
               \<and> p \<in> set (owned (assignments g) c)))"
proof -
  have ok: "groups_ok gm"
    using group_run_inv [OF assms(1) groups_inv_fresh [OF assms(2)]] by (auto simp: groups_inv_def)
  have g: "group_ok (partitionCount gm) g" using groups_okD [OF ok assms(4)] by blast
  have small: "generation g < 2 ^ 63 - 1" using roomD [OF assms(3,4)] by simp
  obtain gm1 g1 where c1: "cleanupExpiredLocked env now name g gm = (gm1, g1)" by force
  note cl = cleanupE [OF ok assms(4) small c1]
  show ?thesis
  proof (cases "gTopic g = topic")
    case False
    then have "findGroup name topic gm = None" using assms(4) by (simp add: findGroup_def)
    then show ?thesis
      using False by (simp add: ValidateCommit_def Heartbeat_def SyncGroup_def LeaveGroup_def)
  next
    case True
    then have f: "findGroup name topic gm = Some g" using assms(4) by (simp add: findGroup_Some)
    note ops = ValidateCommit_def Heartbeat_def SyncGroup_def LeaveGroup_def f c1
    note out = silent_member_expelled [OF ok assms(3) f c1]
    have "g1 = g" if "list_all (fresh (sessionTimeout gm) now g) (memberOrder g)"
      using that cl(1) by (simp add: cleaned_def)
    then show ?thesis
      using True out cl(6) group_ok_member [OF cl(2)] group_ok_member [OF g]
      by (auto simp: ops)
  qed
qed

theorem silent_member_fenced_witness:
  "snd (Heartbeat good_file_io (1010 * Second + 1) (1010 * Second + 1) ''billing'' ''orders'' ''alice'' 4 two_members) \<noteq> None
   \<and> snd (ValidateCommit good_file_io (1002 * Second) ''billing'' ''orders'' ''bob'' 4 2 two_members) = None"
proof -
  let ?g = "snd (hd (groups two_members))"
  have n: "int64_ok (int 3)" by (simp add: int64_ok_def)
  have g: "map_of (groups two_members) ''billing'' = Some ?g" by (simp add: two_members_eval)
  have timeout: "sessionTimeout two_members = 10 * Second" by code_simp
  note f = silent_member_fenced [OF two_members_run n two_members_room g, where topic = "''orders''" and gen = 4]
  have "snd (Heartbeat good_file_io (1010 * Second + 1) (1010 * Second + 1) ''billing'' ''orders'' ''alice'' 4 two_members) \<noteq> None"
    using f [where now = "1010 * Second + 1" and seen = "1010 * Second + 1"]
    by (simp add: two_members_eval timeout time_Sub_def)
  moreover have "snd (ValidateCommit good_file_io (1002 * Second) ''billing'' ''orders'' ''bob'' 4 2 two_members) = None"
    using f [where now = "1002 * Second" and c = "''bob''" and p = 2]
    by (simp add: two_members_eval timeout time_Sub_def fresh_def owned_def)
  ultimately show ?thesis by blast
qed

end
