(* ===== verification/Control_Plane.thy ===== *)
theory Control_Plane
  imports Go_Strings
begin

text \<open>
  \<open>controlplane\<close>: the cluster metadata, the state machine that applies commands to it, and the
  controller that issues the commands.

  \<^item> \<open>metadata.go\<close>: the records \<open>MetadataSnapshot\<close>, \<open>TopicMetadata\<close>, \<open>PartitionMetadata\<close> and
    \<open>BrokerMetadata\<close>.
  \<^item> \<open>store.go\<close>: \<open>Command\<close>, whose pointer fields are options, and \<open>validateCommand\<close>.
  \<^item> \<open>raft_store.go\<close>: \<open>RaftMetadataStore\<close> with its 64-bit term and index. Every operation runs
    under the store's lock and is one step.
  \<^item> \<open>controller.go\<close>: the operations of \<open>Controller\<close>, which only know the interface
    \<open>MetadataStore\<close>, take its methods \<open>Apply\<close> and \<open>Snapshot\<close> as arguments. The locale
    \<open>metadata_store\<close> is what they rely on; \<open>RaftMetadataStore\<close> is its interpretation.
\<close>

section \<open>Data\<close>

record PartitionMetadata =
  pmID :: int
  pmLeaderID :: int
  pmReplicas :: "int list"
  pmISR :: "int list"

record TopicMetadata =
  tmName :: string
  tmPartitions :: "(int, PartitionMetadata) gomap"
  tmConfigs :: "(string, string) gomap"

record BrokerMetadata =
  bmID :: int
  bmHost :: string
  bmPort :: int
  bmEpoch :: int
  bmLastHeartbeat :: int
  bmFenced :: bool

record MetadataSnapshot =
  Topics :: "(string, TopicMetadata) gomap"
  Brokers :: "(int, BrokerMetadata) gomap"

record PartitionLeaderUpdate =
  luTopic :: string
  luPartition :: int
  luLeaderID :: int
  luISR :: "int list"

record BrokerFenceUpdate =
  fuBrokerID :: int
  fuFenced :: bool

record Command =
  cType :: string
  cTopic :: "TopicMetadata option"
  cBroker :: "BrokerMetadata option"
  cBrokerHeartbeat :: "int option"
  cPartitionLeader :: "PartitionLeaderUpdate option"
  cBrokerFence :: "BrokerFenceUpdate option"

record ApplyResult =
  aTerm :: "64 word"
  aIndex :: "64 word"

record RaftMetadataStore =
  rTerm :: "64 word"
  rIndex :: "64 word"
  metadata :: MetadataSnapshot

section \<open>Snapshots\<close>

definition clonePartition :: "PartitionMetadata \<Rightarrow> PartitionMetadata" where
  "clonePartition p = \<lparr>pmID = pmID p, pmLeaderID = pmLeaderID p, pmReplicas = pmReplicas p, pmISR = pmISR p\<rparr>"

definition cloneTopic :: "TopicMetadata \<Rightarrow> TopicMetadata" where
  "cloneTopic t = \<lparr>tmName = tmName t,
     tmPartitions = map (\<lambda>(pid, p). (pid, clonePartition p)) (tmPartitions t),
     tmConfigs = map (\<lambda>(k, v). (k, v)) (tmConfigs t)\<rparr>"

definition clone :: "MetadataSnapshot \<Rightarrow> MetadataSnapshot" where
  "clone s = \<lparr>Topics = map (\<lambda>(name, t). (name, cloneTopic t)) (Topics s),
              Brokers = map (\<lambda>(i, b). (i, b)) (Brokers s)\<rparr>"

text \<open>Records are values here, so a copy is equal to the original.\<close>

lemma clonePartition_id [simp]: "clonePartition p = p"
  by (cases p) (simp add: clonePartition_def)

lemma cloneTopic_id [simp]: "cloneTopic t = t"
  by (cases t) (simp add: cloneTopic_def)

lemma clone_id [simp]: "clone s = s"
  by (simp add: clone_def)

section \<open>Commands and the store\<close>

definition noCommand :: "string \<Rightarrow> Command" where
  "noCommand ty = \<lparr>cType = ty, cTopic = None, cBroker = None, cBrokerHeartbeat = None,
                   cPartitionLeader = None, cBrokerFence = None\<rparr>"

definition validateCommand :: "Command \<Rightarrow> string option" where
  "validateCommand cmd =
     (if cType cmd = ''UPSERT_TOPIC'' then
        (case cTopic cmd of
           None \<Rightarrow> Some ''invalid upsert topic command''
         | Some t \<Rightarrow> if tmName t = [] then Some ''invalid upsert topic command'' else None)
      else if cType cmd = ''REGISTER_BROKER'' then
        (case cBroker cmd of
           None \<Rightarrow> Some ''invalid register broker command''
         | Some b \<Rightarrow> if bmID b < 0 then Some ''invalid register broker command'' else None)
      else if cType cmd = ''BROKER_HEARTBEAT'' then
        (case cBrokerHeartbeat cmd of
           None \<Rightarrow> Some ''invalid broker heartbeat command''
         | Some i \<Rightarrow> if i < 0 then Some ''invalid broker heartbeat command'' else None)
      else if cType cmd = ''SET_PARTITION_LEADER'' then
        (case cPartitionLeader cmd of
           None \<Rightarrow> Some ''invalid set partition leader command''
         | Some u \<Rightarrow> if luTopic u = [] \<or> luPartition u < 0
                     then Some ''invalid set partition leader command'' else None)
      else if cType cmd = ''SET_BROKER_FENCE'' then
        (case cBrokerFence cmd of
           None \<Rightarrow> Some ''invalid set broker fence command''
         | Some u \<Rightarrow> if fuBrokerID u < 0 then Some ''invalid set broker fence command'' else None)
      else Some (''unknown command type: '' @ cType cmd))"

definition NewRaftMetadataStore :: RaftMetadataStore where
  "NewRaftMetadataStore = \<lparr>rTerm = 1, rIndex = 0, metadata = \<lparr>Topics = [], Brokers = []\<rparr>\<rparr>"

text \<open>The \<open>switch\<close> of \<open>Apply\<close>, on the metadata.\<close>

definition applyHeartbeat :: "int \<Rightarrow> int \<Rightarrow> MetadataSnapshot \<Rightarrow> MetadataSnapshot result" where
  "applyHeartbeat now brokerID md =
     (case map_of (Brokers md) brokerID of
        None \<Rightarrow> Inl (''broker not found: '' @ Itoa brokerID)
      | Some b \<Rightarrow> Inr (md\<lparr>Brokers := mput (bmID b) (b\<lparr>bmLastHeartbeat := now, bmFenced := False\<rparr>) (Brokers md)\<rparr>))"

definition applyLeader :: "PartitionLeaderUpdate \<Rightarrow> MetadataSnapshot \<Rightarrow> MetadataSnapshot result" where
  "applyLeader u md =
     (case map_of (Topics md) (luTopic u) of
        None \<Rightarrow> Inl (''topic not found: '' @ luTopic u)
      | Some t \<Rightarrow>
          (case map_of (tmPartitions t) (luPartition u) of
             None \<Rightarrow> Inl (''partition not found: topic='' @ luTopic u @ '' partition='' @ Itoa (luPartition u))
           | Some p \<Rightarrow>
               let p1 = p\<lparr>pmLeaderID := luLeaderID u\<rparr>;
                   p2 = (if luISR u \<noteq> [] then p1\<lparr>pmISR := luISR u\<rparr> else p1)
               in Inr (md\<lparr>Topics := mput (luTopic u)
                         (t\<lparr>tmPartitions := mput (luPartition u) p2 (tmPartitions t)\<rparr>) (Topics md)\<rparr>)))"

definition applyFence :: "BrokerFenceUpdate \<Rightarrow> MetadataSnapshot \<Rightarrow> MetadataSnapshot result" where
  "applyFence u md =
     (case map_of (Brokers md) (fuBrokerID u) of
        None \<Rightarrow> Inl (''broker not found: '' @ Itoa (fuBrokerID u))
      | Some b \<Rightarrow> Inr (md\<lparr>Brokers := mput (bmID b) (b\<lparr>bmFenced := fuFenced u\<rparr>) (Brokers md)\<rparr>))"

definition applyCommand :: "int \<Rightarrow> Command \<Rightarrow> MetadataSnapshot \<Rightarrow> MetadataSnapshot result" where
  "applyCommand now cmd md =
     (if cType cmd = ''UPSERT_TOPIC'' then
        (case cTopic cmd of None \<Rightarrow> Inr md
         | Some t \<Rightarrow> Inr (md\<lparr>Topics := mput (tmName t) (cloneTopic t) (Topics md)\<rparr>))
      else if cType cmd = ''REGISTER_BROKER'' then
        (case cBroker cmd of None \<Rightarrow> Inr md
         | Some b \<Rightarrow>
             let b1 = (if time_IsZero (bmLastHeartbeat b) then b\<lparr>bmLastHeartbeat := now\<rparr> else b)
             in Inr (md\<lparr>Brokers := mput (bmID b1) b1 (Brokers md)\<rparr>))
      else if cType cmd = ''BROKER_HEARTBEAT'' then
        (case cBrokerHeartbeat cmd of None \<Rightarrow> Inr md | Some i \<Rightarrow> applyHeartbeat now i md)
      else if cType cmd = ''SET_PARTITION_LEADER'' then
        (case cPartitionLeader cmd of None \<Rightarrow> Inr md | Some u \<Rightarrow> applyLeader u md)
      else if cType cmd = ''SET_BROKER_FENCE'' then
        (case cBrokerFence cmd of None \<Rightarrow> Inr md | Some u \<Rightarrow> applyFence u md)
      else Inr md)"

definition Apply :: "int \<Rightarrow> Command \<Rightarrow> RaftMetadataStore \<Rightarrow> RaftMetadataStore \<times> ApplyResult result" where
  "Apply now cmd s =
     (case validateCommand cmd of
        Some e \<Rightarrow> (s, Inl e)
      | None \<Rightarrow>
          (case applyCommand now cmd (metadata s) of
             Inl e \<Rightarrow> (s, Inl e)
           | Inr md \<Rightarrow>
               let s' = s\<lparr>metadata := md, rIndex := rIndex s + 1\<rparr>
               in (s', Inr \<lparr>aTerm = rTerm s', aIndex = rIndex s'\<rparr>)))"

definition StoreSnapshot :: "RaftMetadataStore \<Rightarrow> MetadataSnapshot" where
  "StoreSnapshot s = clone (metadata s)"

section \<open>The controller\<close>

type_synonym 's applyFn = "Command \<Rightarrow> 's \<Rightarrow> 's \<times> ApplyResult result"

definition CreateTopic ::
  "'s applyFn \<Rightarrow> string \<Rightarrow> int \<Rightarrow> int \<Rightarrow> 's \<Rightarrow> 's \<times> ApplyResult result" where
  "CreateTopic ap name nparts replicationFactor s =
     (if name = [] then (s, Inl ''topic name is required'')
      else if nparts \<le> 0 then (s, Inl ''partitions must be > 0'')
      else if replicationFactor \<le> 0 then (s, Inl ''replication factor must be > 0'')
      else
        let replicas = [0..replicationFactor - 1];
            partitionMap = map (\<lambda>i. (i, \<lparr>pmID = i, pmLeaderID = - 1, pmReplicas = replicas, pmISR = replicas\<rparr>))
                             [0..nparts - 1]
        in ap ((noCommand ''UPSERT_TOPIC'')\<lparr>cTopic :=
                 Some \<lparr>tmName = name, tmPartitions = partitionMap, tmConfigs = []\<rparr>\<rparr>) s)"

definition RegisterBroker ::
  "'s applyFn \<Rightarrow> int \<Rightarrow> int \<Rightarrow> string \<Rightarrow> int \<Rightarrow> int \<Rightarrow> 's \<Rightarrow> 's \<times> ApplyResult result" where
  "RegisterBroker ap now brokerID host port epoch s =
     (if brokerID < 0 then (s, Inl ''broker id must be >= 0'')
      else if host = [] then (s, Inl ''broker host is required'')
      else if port \<le> 0 then (s, Inl ''broker port must be > 0'')
      else
        let epoch' = (if epoch \<le> 0 then wrap64 now else epoch)
        in ap ((noCommand ''REGISTER_BROKER'')\<lparr>cBroker :=
                 Some \<lparr>bmID = brokerID, bmHost = host, bmPort = port, bmEpoch = epoch',
                       bmLastHeartbeat = now, bmFenced = False\<rparr>\<rparr>) s)"

definition HeartbeatBroker :: "'s applyFn \<Rightarrow> int \<Rightarrow> 's \<Rightarrow> 's \<times> ApplyResult result" where
  "HeartbeatBroker ap brokerID s =
     ap ((noCommand ''BROKER_HEARTBEAT'')\<lparr>cBrokerHeartbeat := Some brokerID\<rparr>) s"

definition SetPartitionLeader ::
  "'s applyFn \<Rightarrow> string \<Rightarrow> int \<Rightarrow> int \<Rightarrow> int list \<Rightarrow> 's \<Rightarrow> 's \<times> ApplyResult result" where
  "SetPartitionLeader ap topic part leaderID isr s =
     (if topic = [] then (s, Inl ''topic is required'')
      else if part < 0 then (s, Inl ''partition must be >= 0'')
      else if leaderID < - 1 then (s, Inl ''leader id must be >= -1'')
      else ap ((noCommand ''SET_PARTITION_LEADER'')\<lparr>cPartitionLeader :=
                 Some \<lparr>luTopic = topic, luPartition = part, luLeaderID = leaderID, luISR = isr\<rparr>\<rparr>) s)"

definition SetBrokerFence :: "'s applyFn \<Rightarrow> int \<Rightarrow> bool \<Rightarrow> 's \<Rightarrow> 's \<times> ApplyResult result" where
  "SetBrokerFence ap brokerID fenced s =
     (if brokerID < 0 then (s, Inl ''broker id must be >= 0'')
      else ap ((noCommand ''SET_BROKER_FENCE'')\<lparr>cBrokerFence :=
                 Some \<lparr>fuBrokerID = brokerID, fuFenced = fenced\<rparr>\<rparr>) s)"

definition brokerStale :: "int \<Rightarrow> int \<Rightarrow> BrokerMetadata \<Rightarrow> bool" where
  "brokerStale now timeout b \<longleftrightarrow>
     time_IsZero (bmLastHeartbeat b) \<or> time_Sub now (bmLastHeartbeat b) > timeout"

text \<open>The loops return the number of changes made, with the error that stopped them if any.\<close>

fun reconcileLoop ::
  "'s applyFn \<Rightarrow> int \<Rightarrow> int \<Rightarrow> (int, BrokerMetadata) gomap \<Rightarrow> int list \<Rightarrow> int \<Rightarrow> 's \<Rightarrow> 's \<times> int \<times> string option" where
  "reconcileLoop ap now timeout brokers [] changes s = (s, changes, None)"
| "reconcileLoop ap now timeout brokers (i # ids) changes s =
     (case map_of brokers i of
        None \<Rightarrow> reconcileLoop ap now timeout brokers ids changes s
      | Some b \<Rightarrow>
          let targetFenced = brokerStale now timeout b
          in if bmFenced b \<noteq> targetFenced
             then (case SetBrokerFence ap i targetFenced s of
                     (s', Inl e) \<Rightarrow> (s', changes, Some e)
                   | (s', Inr _) \<Rightarrow> reconcileLoop ap now timeout brokers ids (iadd changes 1) s')
             else reconcileLoop ap now timeout brokers ids changes s)"

definition ReconcileBrokerHealth ::
  "'s applyFn \<Rightarrow> ('s \<Rightarrow> MetadataSnapshot) \<Rightarrow> int \<Rightarrow> int \<Rightarrow> 's \<Rightarrow> 's \<times> int \<times> string option" where
  "ReconcileBrokerHealth ap snap now timeout s =
     (if timeout \<le> 0 then (s, 0, Some ''timeout must be > 0'')
      else
        let brokers = Brokers (snap s)
        in reconcileLoop ap now timeout brokers (sort (mkeys brokers)) 0 s)"

definition isBrokerEligible :: "(int, BrokerMetadata) gomap \<Rightarrow> int \<Rightarrow> bool" where
  "isBrokerEligible brokers brokerID =
     (case map_of brokers brokerID of None \<Rightarrow> False | Some b \<Rightarrow> \<not> bmFenced b)"

fun electFromReplicas :: "(int, BrokerMetadata) gomap \<Rightarrow> int list \<Rightarrow> int" where
  "electFromReplicas brokers [] = - 1"
| "electFromReplicas brokers (r # rs) =
     (if isBrokerEligible brokers r then r else electFromReplicas brokers rs)"

definition selectEligibleReplicas :: "(int, BrokerMetadata) gomap \<Rightarrow> int list \<Rightarrow> int list" where
  "selectEligibleReplicas brokers replicas = filter (isBrokerEligible brokers) replicas"

definition targetLeader :: "(int, BrokerMetadata) gomap \<Rightarrow> PartitionMetadata \<Rightarrow> int" where
  "targetLeader brokers p =
     (if \<not> isBrokerEligible brokers (pmLeaderID p) then electFromReplicas brokers (pmReplicas p)
      else pmLeaderID p)"

fun electLoop ::
  "'s applyFn \<Rightarrow> (int, BrokerMetadata) gomap \<Rightarrow> string \<Rightarrow> (int, PartitionMetadata) gomap \<Rightarrow> int list \<Rightarrow> int \<Rightarrow>
   's \<Rightarrow> 's \<times> int \<times> string option" where
  "electLoop ap brokers topic parts [] changes s = (s, changes, None)"
| "electLoop ap brokers topic parts (pid # pids) changes s =
     (case map_of parts pid of
        None \<Rightarrow> electLoop ap brokers topic parts pids changes s
      | Some p \<Rightarrow>
          let target = targetLeader brokers p
          in if target \<noteq> pmLeaderID p
             then
               let isr0 = selectEligibleReplicas brokers (pmReplicas p);
                   isr = (if isr0 = [] \<and> target \<ge> 0 then [target] else isr0)
               in (case SetPartitionLeader ap topic pid target isr s of
                     (s', Inl e) \<Rightarrow> (s', changes, Some e)
                   | (s', Inr _) \<Rightarrow> electLoop ap brokers topic parts pids (iadd changes 1) s')
             else electLoop ap brokers topic parts pids changes s)"

definition ElectTopicLeaders ::
  "'s applyFn \<Rightarrow> ('s \<Rightarrow> MetadataSnapshot) \<Rightarrow> string \<Rightarrow> 's \<Rightarrow> 's \<times> int \<times> string option" where
  "ElectTopicLeaders ap snap topic s =
     (if topic = [] then (s, 0, Some ''topic is required'')
      else
        let snapshot = snap s
        in case map_of (Topics snapshot) topic of
             None \<Rightarrow> (s, 0, Some (''topic not found: '' @ topic))
           | Some t \<Rightarrow> electLoop ap (Brokers snapshot) topic (tmPartitions t) (sort (mkeys (tmPartitions t))) 0 s)"

end
