(* ===== verification/Controller_Props.thy ===== *)
theory Controller_Props
  imports Control_Plane
begin

text \<open>
  The controller over any metadata store, and over the store of the program.

  \<^item> The locale \<open>metadata_store\<close> states what the controller's loops need of \<open>Apply\<close> and
    \<open>Snapshot\<close>: what a fencing and a leadership command do to the snapshot, and that each counts
    one position of the log. Reconciliation and election are proved once in it.
  \<^item> \<open>RaftMetadataStore\<close> satisfies it; \<open>controller_step\<close> are the operations of the
    controller on that store, \<open>metadata_ok\<close> is the invariant of the metadata.
\<close>

section \<open>Well-formed metadata\<close>

definition brokers_ok :: "(int, BrokerMetadata) gomap \<Rightarrow> bool" where
  "brokers_ok bs \<longleftrightarrow> mwf bs \<and> (\<forall>(i, b) \<in> set bs. bmID b = i \<and> 0 \<le> i)"

definition partitions_ok :: "(int, PartitionMetadata) gomap \<Rightarrow> bool" where
  "partitions_ok ps \<longleftrightarrow> mwf ps \<and> (\<forall>(i, p) \<in> set ps. pmID p = i \<and> 0 \<le> i \<and> - 1 \<le> pmLeaderID p)"

definition metadata_ok :: "MetadataSnapshot \<Rightarrow> bool" where
  "metadata_ok md \<longleftrightarrow> brokers_ok (Brokers md) \<and> mwf (Topics md)
     \<and> (\<forall>(name, t) \<in> set (Topics md). tmName t = name \<and> name \<noteq> [] \<and> partitions_ok (tmPartitions t))"

lemma brokers_okD: "brokers_ok bs \<Longrightarrow> map_of bs i = Some b \<Longrightarrow> bmID b = i \<and> 0 \<le> i"
  by (auto simp: brokers_ok_def dest: map_of_SomeD)

lemma partitions_okD: "partitions_ok ps \<Longrightarrow> map_of ps i = Some p \<Longrightarrow> pmID p = i \<and> 0 \<le> i \<and> - 1 \<le> pmLeaderID p"
  by (auto simp: partitions_ok_def dest: map_of_SomeD)

lemma metadata_okD:
  "metadata_ok md \<Longrightarrow> map_of (Topics md) name = Some t \<Longrightarrow>
   tmName t = name \<and> name \<noteq> [] \<and> partitions_ok (tmPartitions t)"
  by (auto simp: metadata_ok_def dest: map_of_SomeD)

section \<open>Election on snapshots\<close>

definition elected :: "(int, BrokerMetadata) gomap \<Rightarrow> PartitionMetadata \<Rightarrow> PartitionMetadata" where
  "elected brokers p =
     (if targetLeader brokers p = pmLeaderID p then p
      else p\<lparr>pmLeaderID := targetLeader brokers p,
             pmISR := (if selectEligibleReplicas brokers (pmReplicas p) = [] then pmISR p
                       else selectEligibleReplicas brokers (pmReplicas p))\<rparr>)"

lemma electFromReplicas_cases:
  "electFromReplicas brokers rs =
     (case filter (isBrokerEligible brokers) rs of [] \<Rightarrow> - 1 | r # _ \<Rightarrow> r)"
  by (induction rs) auto

lemma eligible_nonneg: "brokers_ok brokers \<Longrightarrow> isBrokerEligible brokers i \<Longrightarrow> 0 \<le> i"
  by (auto simp: isBrokerEligible_def split: option.splits dest: brokers_okD)

lemma electFromReplicas_eligible:
  "electFromReplicas brokers rs = - 1 \<and> filter (isBrokerEligible brokers) rs = []
   \<or> isBrokerEligible brokers (electFromReplicas brokers rs) \<and> electFromReplicas brokers rs \<in> set rs"
  by (induction rs) auto

lemma elected_cases:
  "if isBrokerEligible brokers (pmLeaderID p) then elected brokers p = p
   else case filter (isBrokerEligible brokers) (pmReplicas p) of
       [] \<Rightarrow> pmLeaderID (elected brokers p) = - 1 \<and> pmISR (elected brokers p) = pmISR p
     | r # rs \<Rightarrow> pmLeaderID (elected brokers p) = r \<and> pmISR (elected brokers p) = r # rs"
proof (cases "filter (isBrokerEligible brokers) (pmReplicas p)")
  case Nil
  then show ?thesis
    by (auto simp: elected_def targetLeader_def selectEligibleReplicas_def electFromReplicas_cases)
next
  case (Cons r rs)
  then have "isBrokerEligible brokers r" by (auto dest: filter_eq_ConsD)
  then show ?thesis
    using Cons by (auto simp: elected_def targetLeader_def selectEligibleReplicas_def electFromReplicas_cases)
qed

lemma targetLeader_ge:
  assumes "brokers_ok brokers"
  shows "- 1 \<le> targetLeader brokers p"
proof -
  have "- 1 \<le> i" if "isBrokerEligible brokers i" for i
    using eligible_nonneg [OF assms that] by simp
  then show ?thesis
    using electFromReplicas_eligible [of brokers "pmReplicas p"] by (auto simp: targetLeader_def)
qed

section \<open>The interface of the controller\<close>

locale metadata_store =
  fixes ap :: "'s applyFn"
    and snap :: "'s \<Rightarrow> MetadataSnapshot"
    and pos :: "'s \<Rightarrow> 64 word"
  assumes fence: "0 \<le> i \<Longrightarrow> map_of (Brokers (snap s)) i = Some b \<Longrightarrow> bmID b = i \<Longrightarrow>
      \<exists>s' a. SetBrokerFence ap i f s = (s', Inr a) \<and> pos s' = pos s + 1
        \<and> snap s' = (snap s)\<lparr>Brokers := mput i (b\<lparr>bmFenced := f\<rparr>) (Brokers (snap s))\<rparr>"
    and leader: "topic \<noteq> [] \<Longrightarrow> 0 \<le> i \<Longrightarrow> - 1 \<le> l \<Longrightarrow> map_of (Topics (snap s)) topic = Some t \<Longrightarrow>
      map_of (tmPartitions t) i = Some p \<Longrightarrow>
      \<exists>s' a. SetPartitionLeader ap topic i l isr s = (s', Inr a) \<and> pos s' = pos s + 1
        \<and> snap s' = (snap s)\<lparr>Topics := mput topic (t\<lparr>tmPartitions := mput i
              (p\<lparr>pmLeaderID := l, pmISR := (if isr = [] then pmISR p else isr)\<rparr>) (tmPartitions t)\<rparr>)
              (Topics (snap s))\<rparr>"
begin

lemma reconcileLoop_effect:
  assumes "distinct ids" "brokers_ok brokers"
    "\<forall>i \<in> set ids. map_of (Brokers (snap s)) i = map_of brokers i"
  shows "\<exists>s' k. reconcileLoop ap now timeout brokers ids c s = (s', k, None)
     \<and> Topics (snap s') = Topics (snap s)
     \<and> (\<forall>i. map_of (Brokers (snap s')) i =
          (if i \<in> set ids then map_option (\<lambda>b. b\<lparr>bmFenced := brokerStale now timeout b\<rparr>) (map_of brokers i)
           else map_of (Brokers (snap s)) i))
     \<and> pos s' = pos s + of_int (k - c)"
  using assms
proof (induction ids arbitrary: c s)
  case Nil
  then show ?case by simp
next
  case (Cons i ids)
  show ?case
  proof (cases "map_of brokers i")
    case None
    then show ?thesis using Cons.IH [of s c] Cons.prems by fastforce
  next
    case (Some b)
    let ?f = "brokerStale now timeout b"
    have b: "map_of (Brokers (snap s)) i = Some b" "0 \<le> i" "bmID b = i"
      using Some Cons.prems brokers_okD [OF assms(2) Some] by auto
    show ?thesis
    proof (cases "bmFenced b = ?f")
      case True
      then have same: "b\<lparr>bmFenced := ?f\<rparr> = b" by simp
      show ?thesis using Cons.IH [of s c] Cons.prems Some True same by fastforce
    next
      case False
      obtain s1 a where s1: "SetBrokerFence ap i ?f s = (s1, Inr a)" "pos s1 = pos s + 1"
        "snap s1 = (snap s)\<lparr>Brokers := mput i (b\<lparr>bmFenced := ?f\<rparr>) (Brokers (snap s))\<rparr>"
        using fence [OF b(2,1,3)] by blast
      have "\<forall>j \<in> set ids. map_of (Brokers (snap s1)) j = map_of brokers j"
        using Cons.prems s1(3) by auto
      from Cons.IH [OF _ assms(2) this, of "iadd c 1"] Cons.prems(1) obtain s' k
        where "reconcileLoop ap now timeout brokers ids (iadd c 1) s1 = (s', k, None)"
          "Topics (snap s') = Topics (snap s1)"
          "\<forall>i. map_of (Brokers (snap s')) i =
            (if i \<in> set ids then map_option (\<lambda>b. b\<lparr>bmFenced := brokerStale now timeout b\<rparr>) (map_of brokers i)
             else map_of (Brokers (snap s1)) i)"
          "pos s' = pos s1 + of_int (k - iadd c 1)"
        by auto
      moreover have "(of_int (iadd c 1) :: 64 word) = of_int c + 1"
        by (simp add: iadd_def wrap64_sint)
      ultimately show ?thesis
        using False Some s1 Cons.prems(1) by (auto simp: Let_def)
    qed
  qed
qed

lemma electLoop_effect:
  assumes "distinct pids" "brokers_ok brokers" "partitions_ok parts" "topic \<noteq> []"
    "map_of (Topics (snap s)) topic = Some t" "\<forall>i \<in> set pids. map_of (tmPartitions t) i = map_of parts i"
  shows "\<exists>s' k t'. electLoop ap brokers topic parts pids c s = (s', k, None)
     \<and> Brokers (snap s') = Brokers (snap s)
     \<and> (\<forall>name. name \<noteq> topic \<longrightarrow> map_of (Topics (snap s')) name = map_of (Topics (snap s)) name)
     \<and> map_of (Topics (snap s')) topic = Some t' \<and> tmName t' = tmName t \<and> tmConfigs t' = tmConfigs t
     \<and> (\<forall>i. map_of (tmPartitions t') i =
          (if i \<in> set pids then map_option (elected brokers) (map_of parts i) else map_of (tmPartitions t) i))
     \<and> pos s' = pos s + of_int (k - c)"
  using assms(1,5,6)
proof (induction pids arbitrary: c s t)
  case Nil
  then show ?case by simp
next
  case (Cons i pids)
  show ?case
  proof (cases "map_of parts i")
    case None
    then show ?thesis using Cons.IH [of s t c] Cons.prems by fastforce
  next
    case (Some p)
    let ?l = "targetLeader brokers p" and ?isr = "selectEligibleReplicas brokers (pmReplicas p)"
    have p: "map_of (tmPartitions t) i = Some p" "0 \<le> i" "- 1 \<le> ?l"
      using Some Cons.prems partitions_okD [OF assms(3) Some] targetLeader_ge [OF assms(2)] by auto
    show ?thesis
    proof (cases "?l = pmLeaderID p")
      case True
      then have same: "elected brokers p = p" by (simp add: elected_def)
      show ?thesis using Cons.IH [of s t c] Cons.prems Some True same p by fastforce
    next
      case False
      have isr: "(if ?isr = [] \<and> ?l \<ge> 0 then [?l] else ?isr) = ?isr"
        using False electFromReplicas_eligible [of brokers "pmReplicas p"]
        by (auto simp: targetLeader_def selectEligibleReplicas_def filter_empty_conv split: if_splits)
      obtain s1 a where s1: "SetPartitionLeader ap topic i ?l ?isr s = (s1, Inr a)" "pos s1 = pos s + 1"
        "snap s1 = (snap s)\<lparr>Topics := mput topic (t\<lparr>tmPartitions := mput i (elected brokers p) (tmPartitions t)\<rparr>)
              (Topics (snap s))\<rparr>"
        using leader [OF assms(4) p(2,3) Cons.prems(2) p(1), of ?isr] False by (auto simp: elected_def)
      let ?t = "t\<lparr>tmPartitions := mput i (elected brokers p) (tmPartitions t)\<rparr>"
      have "map_of (Topics (snap s1)) topic = Some ?t"
        "\<forall>j \<in> set pids. map_of (tmPartitions ?t) j = map_of parts j"
        using Cons.prems s1(3) by auto
      from Cons.IH [OF _ this, of "iadd c 1"] Cons.prems(1) obtain s' k t'
        where "electLoop ap brokers topic parts pids (iadd c 1) s1 = (s', k, None)"
          "Brokers (snap s') = Brokers (snap s1)"
          "\<forall>name. name \<noteq> topic \<longrightarrow> map_of (Topics (snap s')) name = map_of (Topics (snap s1)) name"
          "map_of (Topics (snap s')) topic = Some t'" "tmName t' = tmName ?t" "tmConfigs t' = tmConfigs ?t"
          "\<forall>i. map_of (tmPartitions t') i =
            (if i \<in> set pids then map_option (elected brokers) (map_of parts i) else map_of (tmPartitions ?t) i)"
          "pos s' = pos s1 + of_int (k - iadd c 1)"
        by auto
      moreover have "(of_int (iadd c 1) :: 64 word) = of_int c + 1"
        by (simp add: iadd_def wrap64_sint)
      ultimately show ?thesis
        using False isr Some s1 Cons.prems(1) by (auto simp: Let_def)
    qed
  qed
qed

lemma ReconcileBrokerHealth_effect:
  assumes "metadata_ok (snap s)" "0 < timeout"
  shows "\<exists>s' k. ReconcileBrokerHealth ap snap now timeout s = (s', k, None)
     \<and> Topics (snap s') = Topics (snap s)
     \<and> (\<forall>i. map_of (Brokers (snap s')) i
           = map_option (\<lambda>b. b\<lparr>bmFenced := brokerStale now timeout b\<rparr>) (map_of (Brokers (snap s)) i))
     \<and> pos s' = pos s + of_int k"
proof -
  let ?bs = "Brokers (snap s)"
  have ok: "brokers_ok ?bs" using assms(1) by (simp add: metadata_ok_def)
  then have d: "distinct (sort (mkeys ?bs))" by (simp add: brokers_ok_def)
  from reconcileLoop_effect [OF d ok, of s now timeout 0] obtain s' k
    where "reconcileLoop ap now timeout ?bs (sort (mkeys ?bs)) 0 s = (s', k, None)"
      "Topics (snap s') = Topics (snap s)"
      "\<forall>i. map_of (Brokers (snap s')) i = (if i \<in> fst ` set ?bs
         then map_option (\<lambda>b. b\<lparr>bmFenced := brokerStale now timeout b\<rparr>) (map_of ?bs i) else map_of ?bs i)"
      "pos s' = pos s + of_int k"
    by auto
  moreover have "map_of ?bs i = None" if "i \<notin> fst ` set ?bs" for i
    using that by (simp add: map_of_eq_None_iff)
  ultimately show ?thesis
    using assms(2) by (auto simp: ReconcileBrokerHealth_def Let_def)
qed

lemma ElectTopicLeaders_effect:
  assumes "metadata_ok (snap s)" "map_of (Topics (snap s)) topic = Some t"
  shows "\<exists>s' k t'. ElectTopicLeaders ap snap topic s = (s', k, None)
     \<and> Brokers (snap s') = Brokers (snap s)
     \<and> (\<forall>name. name \<noteq> topic \<longrightarrow> map_of (Topics (snap s')) name = map_of (Topics (snap s)) name)
     \<and> map_of (Topics (snap s')) topic = Some t' \<and> tmName t' = tmName t \<and> tmConfigs t' = tmConfigs t
     \<and> (\<forall>i. map_of (tmPartitions t') i = map_option (elected (Brokers (snap s))) (map_of (tmPartitions t) i))
     \<and> pos s' = pos s + of_int k"
proof -
  let ?ps = "tmPartitions t"
  have ok: "brokers_ok (Brokers (snap s))" "partitions_ok ?ps" "topic \<noteq> []"
    using assms(1) metadata_okD [OF assms] by (auto simp: metadata_ok_def)
  then have d: "distinct (sort (mkeys ?ps))" by (simp add: partitions_ok_def)
  from electLoop_effect [OF d ok assms(2), of 0] obtain s' k t'
    where "electLoop ap (Brokers (snap s)) topic ?ps (sort (mkeys ?ps)) 0 s = (s', k, None)"
      "Brokers (snap s') = Brokers (snap s)"
      "\<forall>name. name \<noteq> topic \<longrightarrow> map_of (Topics (snap s')) name = map_of (Topics (snap s)) name"
      "map_of (Topics (snap s')) topic = Some t'" "tmName t' = tmName t" "tmConfigs t' = tmConfigs t"
      "\<forall>i. map_of (tmPartitions t') i = (if i \<in> fst ` set ?ps
         then map_option (elected (Brokers (snap s))) (map_of ?ps i) else map_of ?ps i)"
      "pos s' = pos s + of_int k"
    by auto
  moreover have "map_of ?ps i = None" if "i \<notin> fst ` set ?ps" for i
    using that by (simp add: map_of_eq_None_iff)
  ultimately show ?thesis
    using assms(2) ok(3) by (auto simp: ElectTopicLeaders_def Let_def)
qed

end

section \<open>The store of the program\<close>

interpretation raft: metadata_store "Apply now" StoreSnapshot rIndex for now
proof
  fix i s b f
  assume "0 \<le> i" "map_of (Brokers (StoreSnapshot s)) i = Some b" "bmID b = i"
  then show "\<exists>s' a. SetBrokerFence (Apply now) i f s = (s', Inr a) \<and> rIndex s' = rIndex s + 1
        \<and> StoreSnapshot s' = (StoreSnapshot s)\<lparr>Brokers := mput i (b\<lparr>bmFenced := f\<rparr>) (Brokers (StoreSnapshot s))\<rparr>"
    by (simp add: SetBrokerFence_def Apply_def StoreSnapshot_def noCommand_def validateCommand_def
        applyCommand_def applyFence_def Let_def)
next
  fix topic and i l :: int and s t p isr
  assume "topic \<noteq> []" "0 \<le> i" "- 1 \<le> l" "map_of (Topics (StoreSnapshot s)) topic = Some t"
    "map_of (tmPartitions t) i = Some p"
  then show "\<exists>s' a. SetPartitionLeader (Apply now) topic i l isr s = (s', Inr a) \<and> rIndex s' = rIndex s + 1
        \<and> StoreSnapshot s' = (StoreSnapshot s)\<lparr>Topics := mput topic (t\<lparr>tmPartitions := mput i
              (p\<lparr>pmLeaderID := l, pmISR := (if isr = [] then pmISR p else isr)\<rparr>) (tmPartitions t)\<rparr>)
              (Topics (StoreSnapshot s))\<rparr>"
    by (simp add: SetPartitionLeader_def Apply_def StoreSnapshot_def noCommand_def validateCommand_def
        applyCommand_def applyLeader_def Let_def)
qed

inductive controller_step :: "RaftMetadataStore \<Rightarrow> RaftMetadataStore \<Rightarrow> bool" where
  step_create: "controller_step s (fst (CreateTopic (Apply now) name n rf s))"
| step_register: "controller_step s (fst (RegisterBroker (Apply now) now i host port epoch s))"
| step_heartbeat_broker: "controller_step s (fst (HeartbeatBroker (Apply now) i s))"
| step_leader: "controller_step s (fst (SetPartitionLeader (Apply now) topic i l isr s))"
| step_fence: "controller_step s (fst (SetBrokerFence (Apply now) i f s))"
| step_reconcile: "controller_step s (fst (ReconcileBrokerHealth (Apply now) StoreSnapshot now timeout s))"
| step_elect: "controller_step s (fst (ElectTopicLeaders (Apply now) StoreSnapshot topic s))"

abbreviation controller_run :: "RaftMetadataStore \<Rightarrow> RaftMetadataStore \<Rightarrow> bool" where
  "controller_run \<equiv> controller_step\<^sup>*\<^sup>*"

definition store_ok :: "RaftMetadataStore \<Rightarrow> bool" where
  "store_ok s \<longleftrightarrow> metadata_ok (metadata s) \<and> rTerm s = 1"

definition command_ok :: "Command \<Rightarrow> bool" where
  "command_ok cmd \<longleftrightarrow> (\<forall>t. cTopic cmd = Some t \<longrightarrow> partitions_ok (tmPartitions t))
     \<and> (\<forall>u. cPartitionLeader cmd = Some u \<longrightarrow> - 1 \<le> luLeaderID u)"

lemma brokers_ok_mput: "brokers_ok bs \<Longrightarrow> bmID b = i \<Longrightarrow> 0 \<le> i \<Longrightarrow> brokers_ok (mput i b bs)"
  using ball_mput [of bs "\<lambda>i b. bmID b = i \<and> 0 \<le> i" i b] by (simp add: brokers_ok_def)

lemma partitions_ok_mput:
  "partitions_ok ps \<Longrightarrow> pmID p = i \<Longrightarrow> 0 \<le> i \<Longrightarrow> - 1 \<le> pmLeaderID p \<Longrightarrow> partitions_ok (mput i p ps)"
  using ball_mput [of ps "\<lambda>i p. pmID p = i \<and> 0 \<le> i \<and> - 1 \<le> pmLeaderID p" i p]
  by (simp add: partitions_ok_def)

lemma metadata_ok_topic:
  "metadata_ok md \<Longrightarrow> tmName t = name \<Longrightarrow> name \<noteq> [] \<Longrightarrow> partitions_ok (tmPartitions t) \<Longrightarrow>
   metadata_ok (md\<lparr>Topics := mput name t (Topics md)\<rparr>)"
  using ball_mput [of "Topics md" "\<lambda>name t. tmName t = name \<and> name \<noteq> [] \<and> partitions_ok (tmPartitions t)" name t]
  by (simp add: metadata_ok_def)

lemma metadata_ok_broker:
  "metadata_ok md \<Longrightarrow> bmID b = i \<Longrightarrow> 0 \<le> i \<Longrightarrow> metadata_ok (md\<lparr>Brokers := mput i b (Brokers md)\<rparr>)"
  using brokers_ok_mput by (simp add: metadata_ok_def)

lemma applyLeader_ok:
  assumes "metadata_ok md" "- 1 \<le> luLeaderID u" "applyLeader u md = Inr md'"
  shows "metadata_ok md'"
proof -
  obtain t p where t: "map_of (Topics md) (luTopic u) = Some t" "map_of (tmPartitions t) (luPartition u) = Some p"
    using assms(3) by (auto simp: applyLeader_def split: option.splits)
  note ok = metadata_okD [OF assms(1) t(1)]
  then have "partitions_ok (mput (luPartition u) p' (tmPartitions t))" if "pmID p' = pmID p" "- 1 \<le> pmLeaderID p'" for p'
    using that partitions_okD [OF _ t(2)] by (intro partitions_ok_mput) auto
  then show ?thesis
    using assms t ok by (auto simp: applyLeader_def Let_def intro!: metadata_ok_topic split: if_splits)
qed

lemma applyCommand_ok:
  assumes "metadata_ok md" "command_ok cmd" "validateCommand cmd = None" "applyCommand now cmd md = Inr md'"
  shows "metadata_ok md'"
proof -
  have b: "bmID b = i \<and> 0 \<le> i" if "map_of (Brokers md) i = Some b" for b i
    using that assms(1) brokers_okD by (auto simp: metadata_ok_def)
  show ?thesis
    using assms b applyLeader_ok [OF assms(1)]
    by (auto simp: applyCommand_def validateCommand_def command_ok_def applyHeartbeat_def applyFence_def
        Let_def intro!: metadata_ok_topic metadata_ok_broker split: if_splits option.splits)
qed

lemma Apply_ok:
  assumes "store_ok s" "command_ok cmd"
  shows "store_ok (fst (Apply now cmd s))"
  using assms applyCommand_ok [of "metadata s" cmd now]
  by (auto simp: Apply_def store_ok_def Let_def split: option.split sum.split)

lemma controller_commands_ok:
  assumes "store_ok s"
  shows "store_ok (fst (CreateTopic (Apply now) name n rf s))"
    "store_ok (fst (RegisterBroker (Apply now) now' i host port epoch s))"
    "store_ok (fst (HeartbeatBroker (Apply now) i s))"
    "store_ok (fst (SetPartitionLeader (Apply now) topic i l isr s))"
    "store_ok (fst (SetBrokerFence (Apply now) i f s))"
proof -
  have "partitions_ok (map (\<lambda>i. (i, \<lparr>pmID = i, pmLeaderID = - 1, pmReplicas = rs, pmISR = rs\<rparr>)) [0..n - 1])" for rs
    by (simp add: partitions_ok_def comp_def)
  then show "store_ok (fst (CreateTopic (Apply now) name n rf s))"
    using assms by (auto simp: CreateTopic_def Let_def noCommand_def command_ok_def intro!: Apply_ok)
qed (use assms in \<open>auto simp: RegisterBroker_def HeartbeatBroker_def SetPartitionLeader_def
    SetBrokerFence_def Let_def noCommand_def command_ok_def intro!: Apply_ok\<close>)

lemma reconcileLoop_ok:
  "store_ok s \<Longrightarrow> store_ok (fst (reconcileLoop (Apply now) now' timeout brokers ids c s))"
proof (induction ids arbitrary: c s)
  case (Cons i ids)
  show ?case
    using Cons.prems Cons.IH controller_commands_ok(5) [OF Cons.prems, of now i]
    by (auto simp: Let_def split: option.split prod.split sum.split) (metis fst_conv)+
qed simp

lemma electLoop_ok:
  "store_ok s \<Longrightarrow> store_ok (fst (electLoop (Apply now) brokers topic parts pids c s))"
proof (induction pids arbitrary: c s)
  case (Cons i pids)
  show ?case
    using Cons.prems Cons.IH controller_commands_ok(4) [OF Cons.prems, of now topic i]
    by (auto simp: Let_def split: option.split prod.split sum.split) (metis fst_conv)+
qed simp

lemma controller_step_ok: "controller_step s s' \<Longrightarrow> store_ok s \<Longrightarrow> store_ok s'"
  by (induction rule: controller_step.induct)
    (simp_all add: controller_commands_ok ReconcileBrokerHealth_def ElectTopicLeaders_def Let_def
      reconcileLoop_ok electLoop_ok split: option.split)

lemma controller_run_ok: "controller_run NewRaftMetadataStore s \<Longrightarrow> store_ok s"
proof (induction rule: rtranclp_induct)
  case base
  then show ?case by (simp add: store_ok_def NewRaftMetadataStore_def metadata_ok_def brokers_ok_def)
qed (rule controller_step_ok)

section \<open>A sample cluster\<close>

definition three_brokers :: RaftMetadataStore where
  "three_brokers = fold (\<lambda>(i, t) s. fst (RegisterBroker (Apply t) t i ''10.0.0.1'' 9092 1 s))
     [(0, 100 * Second), (1, 109 * Second), (2, 109 * Second)] NewRaftMetadataStore"

definition small_cluster :: RaftMetadataStore where
  "small_cluster = fst (SetPartitionLeader (Apply 0) ''orders'' 0 0 [0]
     (fst (CreateTopic (Apply 0) ''orders'' 2 3 three_brokers)))"

lemma small_cluster_run: "controller_run NewRaftMetadataStore small_cluster"
proof -
  have step: "controller_run s (fst (RegisterBroker (Apply t) t i host port epoch s))" for s t i host port epoch
    by (rule r_into_rtranclp) (rule step_register)
  have "controller_run NewRaftMetadataStore three_brokers"
    unfolding three_brokers_def by (simp, intro rtranclp_trans [OF rtranclp_trans [OF step step] step])
  moreover have "controller_step three_brokers (fst (CreateTopic (Apply 0) ''orders'' 2 3 three_brokers))"
    by (rule step_create)
  moreover have "controller_step (fst (CreateTopic (Apply 0) ''orders'' 2 3 three_brokers)) small_cluster"
    unfolding small_cluster_def by (rule step_leader)
  ultimately show ?thesis by (meson rtranclp.rtrancl_into_rtrancl)
qed

lemma small_cluster_eval: "metadata small_cluster =
   \<lparr>Topics = [(''orders'', \<lparr>tmName = ''orders'', tmPartitions =
        [(0, \<lparr>pmID = 0, pmLeaderID = 0, pmReplicas = [0, 1, 2], pmISR = [0]\<rparr>),
         (1, \<lparr>pmID = 1, pmLeaderID = - 1, pmReplicas = [0, 1, 2], pmISR = [0, 1, 2]\<rparr>)], tmConfigs = []\<rparr>)],
    Brokers = [(0, \<lparr>bmID = 0, bmHost = ''10.0.0.1'', bmPort = 9092, bmEpoch = 1, bmLastHeartbeat = 100 * Second, bmFenced = False\<rparr>),
               (1, \<lparr>bmID = 1, bmHost = ''10.0.0.1'', bmPort = 9092, bmEpoch = 1, bmLastHeartbeat = 109 * Second, bmFenced = False\<rparr>),
               (2, \<lparr>bmID = 2, bmHost = ''10.0.0.1'', bmPort = 9092, bmEpoch = 1, bmLastHeartbeat = 109 * Second, bmFenced = False\<rparr>)]\<rparr>"
  by code_simp

section \<open>Properties\<close>

text \<open>
  C23. Leader election. On every store the controller can reach, electing the leaders of an existing
  topic succeeds and touches nothing but the partitions of that topic. A partition whose leader is
  registered and not fenced is left as it is; any other one is led by its first replica that is
  registered and not fenced, with exactly such replicas in its ISR, or by nobody (-1, ISR kept)
  when there is none. Each change is one command of the log.
\<close>

theorem election_safe:
  assumes "controller_run NewRaftMetadataStore s" "map_of (Topics (metadata s)) topic = Some t"
  shows "\<exists>s' k t'. ElectTopicLeaders (Apply now) StoreSnapshot topic s = (s', k, None)
     \<and> Brokers (metadata s') = Brokers (metadata s)
     \<and> (\<forall>name. name \<noteq> topic \<longrightarrow> map_of (Topics (metadata s')) name = map_of (Topics (metadata s)) name)
     \<and> map_of (Topics (metadata s')) topic = Some t' \<and> rIndex s' = rIndex s + of_int k
     \<and> (\<forall>i p. map_of (tmPartitions t) i = Some p \<longrightarrow>
          (\<exists>p'. map_of (tmPartitions t') i = Some p' \<and> pmReplicas p' = pmReplicas p
             \<and> (if isBrokerEligible (Brokers (metadata s)) (pmLeaderID p) then p' = p
                else case filter (isBrokerEligible (Brokers (metadata s))) (pmReplicas p) of
                    [] \<Rightarrow> pmLeaderID p' = - 1 \<and> pmISR p' = pmISR p
                  | r # rs \<Rightarrow> pmLeaderID p' = r \<and> pmISR p' = r # rs)))"
proof -
  let ?bs = "Brokers (metadata s)"
  have ok: "metadata_ok (StoreSnapshot s)"
    using controller_run_ok [OF assms(1)] by (simp add: store_ok_def StoreSnapshot_def)
  have t: "map_of (Topics (StoreSnapshot s)) topic = Some t" using assms(2) by (simp add: StoreSnapshot_def)
  obtain s' k t' where e: "ElectTopicLeaders (Apply now) StoreSnapshot topic s = (s', k, None)"
    "Brokers (metadata s') = ?bs"
    "\<forall>name. name \<noteq> topic \<longrightarrow> map_of (Topics (metadata s')) name = map_of (Topics (metadata s)) name"
    "map_of (Topics (metadata s')) topic = Some t'" "rIndex s' = rIndex s + of_int k"
    "\<forall>i. map_of (tmPartitions t') i = map_option (elected ?bs) (map_of (tmPartitions t) i)"
    using raft.ElectTopicLeaders_effect [OF ok t, of now] by (auto simp: StoreSnapshot_def)
  have "pmReplicas (elected ?bs p) = pmReplicas p" for p by (simp add: elected_def)
  then show ?thesis using e elected_cases [of ?bs] by auto
qed

theorem election_safe_witness:
  "\<exists>s' k t' p'. ElectTopicLeaders (Apply 0) StoreSnapshot ''orders'' (fst (SetBrokerFence (Apply 0) 0 True small_cluster)) = (s', k, None)
     \<and> map_of (Topics (metadata s')) ''orders'' = Some t' \<and> map_of (tmPartitions t') 0 = Some p'
     \<and> pmLeaderID p' = 1 \<and> pmISR p' = [1, 2]"
proof -
  let ?s = "fst (SetBrokerFence (Apply 0) 0 True small_cluster)"
  have run: "controller_run NewRaftMetadataStore ?s"
    using small_cluster_run step_fence by (rule rtranclp.rtrancl_into_rtrancl)
  have md: "metadata ?s = (metadata small_cluster)\<lparr>Brokers := mput 0
      \<lparr>bmID = 0, bmHost = ''10.0.0.1'', bmPort = 9092, bmEpoch = 1, bmLastHeartbeat = 100 * Second, bmFenced = True\<rparr>
      (Brokers (metadata small_cluster))\<rparr>"
    by code_simp
  let ?bs = "Brokers (metadata ?s)"
  obtain t where t: "map_of (Topics (metadata ?s)) ''orders'' = Some t"
    "map_of (tmPartitions t) 0 = Some \<lparr>pmID = 0, pmLeaderID = 0, pmReplicas = [0, 1, 2], pmISR = [0]\<rparr>"
    by (simp add: md small_cluster_eval)
  have el: "\<not> isBrokerEligible ?bs 0" "isBrokerEligible ?bs 1" "isBrokerEligible ?bs 2"
    by (simp_all add: md small_cluster_eval isBrokerEligible_def)
  obtain s' k t' where e: "ElectTopicLeaders (Apply 0) StoreSnapshot ''orders'' ?s = (s', k, None)"
    "map_of (Topics (metadata s')) ''orders'' = Some t'"
    and all: "\<And>i p. map_of (tmPartitions t) i = Some p \<Longrightarrow>
      \<exists>p'. map_of (tmPartitions t') i = Some p' \<and> pmReplicas p' = pmReplicas p
         \<and> (if isBrokerEligible ?bs (pmLeaderID p) then p' = p
            else case filter (isBrokerEligible ?bs) (pmReplicas p) of
                [] \<Rightarrow> pmLeaderID p' = - 1 \<and> pmISR p' = pmISR p
              | r # rs \<Rightarrow> pmLeaderID p' = r \<and> pmISR p' = r # rs)"
    using election_safe [OF run t(1), of 0] by blast
  show ?thesis using e all [OF t(2)] el by auto
qed



text \<open>
  C34. The metadata state machine. Every store reached by the operations of the controller is well
  formed: brokers, topics and partitions are stored under their own non-negative ids and non-empty
  names, leaders are brokers or -1. A rejected command leaves the store as it was, an accepted one
  takes the next position of the log, which is the one reported.
\<close>

theorem controller_reachable_ok:
  assumes "controller_run NewRaftMetadataStore s"
  shows "metadata_ok (metadata s) \<and> rTerm s = 1
     \<and> (\<forall>now cmd. case Apply now cmd s of
          (s', Inl e) \<Rightarrow> s' = s
        | (s', Inr a) \<Rightarrow> rIndex s' = rIndex s + 1 \<and> aIndex a = rIndex s' \<and> aTerm a = 1 \<and> rTerm s' = 1)"
  using controller_run_ok [OF assms]
  by (simp add: store_ok_def Apply_def Let_def split: option.split sum.split)

theorem controller_reachable_ok_witness: "metadata_ok (metadata small_cluster)"
  using controller_reachable_ok [OF small_cluster_run] by blast

end
