(* ===== verification/Broker.thy ===== *)
theory Broker
  imports Transport Replication Offsets Group_Fencing Controller_Props
begin

text \<open>
  \<open>broker/broker.go\<close>, \<open>broker/cluster_runtime.go\<close> and \<open>coordinator/coordinator.go\<close>: the broker
  that holds all services, and the background loop that keeps its roles and its replication workers
  in step with the cluster metadata.

  \<^item> \<open>Broker\<close> is the struct of that name together with the fields of \<open>clusterRuntime\<close>, which
    only exists as part of a broker.
  \<^item> \<open>brokerIO\<close> is what one operation sees of its surroundings: the file systems, the instants
    \<open>time.Now\<close> returns (\<open>tick\<close>), the order in which Go happens to visit the keys of a map
    (\<open>visit\<close>), and what other goroutines do while \<open>WaitForAckAll\<close> sleeps (\<open>polls\<close>).
  \<^item> The tickers and the \<open>done\<close> channel of the background goroutine are the list of events its loop
    sees; the steps of the loop, \<open>reconcileRoles\<close> and \<open>stepWorkers\<close>, are operations on the broker.
    Talking to another broker is the argument \<open>rpc\<close> of \<open>stepWorkers\<close>.
\<close>

section \<open>Data\<close>

record Coordinator =
  cGroups :: GroupManager
  cOffsets :: OffsetManager

record peerInfo =
  peerID :: int
  peerAddr :: string

record replicaWorkerState =
  rwWorker :: FollowerWorker
  rwTransport :: TCPTransport
  rwLeaderID :: int
  rwLeaderAddr :: string
  rwFailureCount :: int

record clusterRuntime =
  peers :: "(int, peerInfo) gomap"
  workers :: "(string, replicaWorkerState) gomap"
  maxFailureBeforeFailover :: int

record Broker =
  bStorage :: Storage
  bCoordinator :: Coordinator
  bReplication :: Manager
  bController :: RaftMetadataStore
  LocalBrokerID :: int
  DefaultPartitions :: int
  DefaultReplicationFactor :: int
  bRuntime :: clusterRuntime

record brokerIO =
  storeIO :: io
  stateIO :: fileIO
  tick :: "nat \<Rightarrow> int"
  visit :: "int list \<Rightarrow> int list"
  polls :: "nat \<Rightarrow> poll"

section \<open>Addresses and peers\<close>

text \<open>\<open>net.SplitHostPort\<close>, without the text of its errors.\<close>

definition net_SplitHostPort :: "string \<Rightarrow> (string \<times> string) option" where
  "net_SplitHostPort hp =
     (case LastIndex hp '':'' of
        None \<Rightarrow> None
      | Some i \<Rightarrow>
          if HasPrefix hp ''['' then
            (case Index hp '']'' of
               None \<Rightarrow> None
             | Some e \<Rightarrow>
                 if e + 1 \<noteq> i \<or> Contains (drop 1 hp) ''['' \<or> Contains (drop (e + 1) hp) '']'' then None
                 else Some (drop 1 (take e hp), drop (i + 1) hp))
          else if Contains (take i hp) '':'' \<or> Contains hp ''['' \<or> Contains hp '']'' then None
          else Some (take i hp, drop (i + 1) hp))"

definition parseListenAddr :: "string \<Rightarrow> string \<times> int" where
  "parseListenAddr listen =
     (let addr = TrimSpace listen
      in if HasPrefix addr '':'' then
           (''127.0.0.1'',
            (case Atoi (TrimPrefix addr '':'') of None \<Rightarrow> 9092 | Some p \<Rightarrow> if p > 0 then p else 9092))
         else case net_SplitHostPort addr of
           None \<Rightarrow> (''127.0.0.1'', 9092)
         | Some (h, p) \<Rightarrow>
             (if h \<noteq> [] then h else ''127.0.0.1'',
              (case Atoi p of None \<Rightarrow> 9092 | Some p \<Rightarrow> if p > 0 then p else 9092)))"

definition parsePeer :: "string \<Rightarrow> peerInfo option" where
  "parsePeer entry =
     (let parts = SplitN (TrimSpace entry) ''@'' 2
      in if length parts \<noteq> 2 then None
         else case Atoi (parts ! 0) of
           None \<Rightarrow> None
         | Some i \<Rightarrow>
             if i < 0 then None
             else let addr = TrimSpace (parts ! 1)
                  in if addr = [] then None else Some \<lparr>peerID = i, peerAddr = addr\<rparr>)"

definition parsePeers :: "string list \<Rightarrow> (int, peerInfo) gomap" where
  "parsePeers raw =
     fold (\<lambda>entry out. case parsePeer entry of None \<Rightarrow> out | Some p \<Rightarrow> mput (peerID p) p out) raw []"

definition splitHostPort :: "string \<Rightarrow> (string \<times> int) option" where
  "splitHostPort addr =
     (let parts = Split addr '':''
      in if length parts \<noteq> 2 then None
         else case Atoi (parts ! 1) of
           None \<Rightarrow> None
         | Some port \<Rightarrow>
             if port \<le> 0 then None
             else let host = TrimSpace (parts ! 0) in if host = [] then None else Some (host, port))"

definition workerKey :: "string \<Rightarrow> int \<Rightarrow> string" where
  "workerKey topic part = topic @ ''/'' @ Itoa part"

section \<open>Construction\<close>

definition NewCoordinator :: "brokerIO \<Rightarrow> Config \<Rightarrow> stateFile \<Rightarrow> stateFile \<Rightarrow> Coordinator" where
  "NewCoordinator env cfg groupsJson offsetsJson =
     \<lparr>cGroups = NewGroupManager (stateIO env) (nat (NumPartitions cfg)) groupsJson,
      cOffsets = NewOffsetManager (stateIO env) offsetsJson\<rparr>"

definition newClusterRuntime :: "int \<Rightarrow> Config \<Rightarrow> clusterRuntime" where
  "newClusterRuntime localID cfg =
     \<lparr>peers = mput localID \<lparr>peerID = localID, peerAddr = AdvertisedHost cfg @ '':'' @ Itoa (AdvertisedPort cfg)\<rparr>
                (parsePeers (ClusterPeers cfg)),
      workers = [], maxFailureBeforeFailover = 10\<rparr>"

definition bootstrapControllerMetadata :: "brokerIO \<Rightarrow> Config \<Rightarrow> Broker \<Rightarrow> Broker" where
  "bootstrapControllerMetadata env cfg b =
     (let host0 = TrimSpace (AdvertisedHost cfg);
          port0 = AdvertisedPort cfg;
          fallback = parseListenAddr (ListenAddr cfg);
          host = (if host0 = [] then fst fallback else host0);
          port = (if port0 \<le> 0 then snd fallback else port0)
      in b\<lparr>bController := fst (RegisterBroker (Apply (tick env 0)) (tick env 0) (LocalBrokerID b) host port
             (wrap64 (tick env 0)) (bController b))\<rparr>)"

definition NewBroker :: "brokerIO \<Rightarrow> Config \<Rightarrow> filesystem \<Rightarrow> stateFile \<Rightarrow> stateFile \<Rightarrow> Broker" where
  "NewBroker env cfg fs groupsJson offsetsJson =
     bootstrapControllerMetadata env cfg
       \<lparr>bStorage = NewStorage (storeIO env) cfg fs,
        bCoordinator = NewCoordinator env cfg groupsJson offsetsJson,
        bReplication = NewManager
          \<lparr>cReplicationFactor = ReplicationFactor cfg, cMinInSyncReplicas = MinInSyncReplicas cfg,
           cMaxReplicaLag = ReplicaMaxLag cfg,
           cReplicaLagTimeout = imul (ReplicaLagTimeoutMs cfg) Millisecond,
           cAckAllTimeout = imul (AckAllTimeoutMs cfg) Millisecond\<rparr> True,
        bController = NewRaftMetadataStore,
        LocalBrokerID = BrokerID cfg, DefaultPartitions = NumPartitions cfg,
        DefaultReplicationFactor = ReplicationFactor cfg,
        bRuntime = newClusterRuntime (BrokerID cfg) cfg\<rparr>"

section \<open>Topic metadata\<close>

definition assignInitialLeaders :: "TopicMetadata \<Rightarrow> int list \<Rightarrow> (int, int) gomap" where
  "assignInitialLeaders t brokers =
     (if brokers = [] then []
      else map (\<lambda>(pid, p). (pid, brokers ! nat (pid mod int (length brokers)))) (tmPartitions t))"

fun initLeaders ::
  "'s applyFn \<Rightarrow> string \<Rightarrow> int \<Rightarrow> (int, int) gomap \<Rightarrow> int list \<Rightarrow> 's \<Rightarrow> 's \<times> string option" where
  "initLeaders ap topic localID leaders [] s = (s, None)"
| "initLeaders ap topic localID leaders (p # ps) s =
     (let leaderID = (case map_of leaders p of None \<Rightarrow> localID | Some l \<Rightarrow> l)
      in case SetPartitionLeader ap topic p leaderID [leaderID] s of
           (s', Inl e) \<Rightarrow> (s', Some e)
         | (s', Inr _) \<Rightarrow> initLeaders ap topic localID leaders ps s')"

definition liveBrokers :: "brokerIO \<Rightarrow> int \<Rightarrow> MetadataSnapshot \<Rightarrow> int list" where
  "liveBrokers env localID md =
     (let ids = visit env (map fst (filter (\<lambda>(i, b). \<not> bmFenced b) (Brokers md)))
      in if ids = [] then [localID] else ids)"

definition topicOf :: "string \<Rightarrow> MetadataSnapshot \<Rightarrow> TopicMetadata" where
  "topicOf topic md =
     (case map_of (Topics md) topic of
        None \<Rightarrow> \<lparr>tmName = [], tmPartitions = [], tmConfigs = []\<rparr>
      | Some t \<Rightarrow> t)"

definition EnsureTopicMetadata ::
  "brokerIO \<Rightarrow> string \<Rightarrow> Broker \<Rightarrow> Broker \<times> TopicMetadata result" where
  "EnsureTopicMetadata env topic b =
     (if topic = [] then (b, Inl ''topic is required'')
      else case map_of (Topics (StoreSnapshot (bController b))) topic of
        Some t \<Rightarrow> (b, Inr t)
      | None \<Rightarrow>
          (case CreateTopic (Apply (tick env 0)) topic (DefaultPartitions b) (DefaultReplicationFactor b)
                  (bController b) of
             (c1, Inl e) \<Rightarrow> (b\<lparr>bController := c1\<rparr>, Inl e)
           | (c1, Inr _) \<Rightarrow>
               let md = StoreSnapshot c1;
                   leaders = assignInitialLeaders (topicOf topic md) (liveBrokers env (LocalBrokerID b) md)
               in (case initLeaders (Apply (tick env 0)) topic (LocalBrokerID b) leaders
                          [0..DefaultPartitions b - 1] c1 of
                     (c2, Some e) \<Rightarrow> (b\<lparr>bController := c2\<rparr>, Inl e)
                   | (c2, None) \<Rightarrow> (b\<lparr>bController := c2\<rparr>, Inr (topicOf topic (StoreSnapshot c2))))))"

section \<open>The cluster runtime\<close>

definition bootstrapPeers :: "brokerIO \<Rightarrow> Broker \<Rightarrow> Broker" where
  "bootstrapPeers env b =
     fold (\<lambda>(i, peer) b. case splitHostPort (peerAddr peer) of
              None \<Rightarrow> b
            | Some (host, port) \<Rightarrow>
                b\<lparr>bController := fst (RegisterBroker (Apply (tick env 0)) (tick env 0) i host port
                    (wrap64 (tick env 0)) (bController b))\<rparr>)
       (peers (bRuntime b)) b"

definition HeartbeatSelf :: "brokerIO \<Rightarrow> Broker \<Rightarrow> Broker" where
  "HeartbeatSelf env b =
     b\<lparr>bController := fst (HeartbeatBroker (Apply (tick env 0)) (LocalBrokerID b) (bController b))\<rparr>"

definition stopWorker :: "string \<Rightarrow> int \<Rightarrow> Broker \<Rightarrow> Broker" where
  "stopWorker topic part b =
     b\<lparr>bRuntime := (bRuntime b)\<lparr>workers := mdel (workerKey topic part) (workers (bRuntime b))\<rparr>\<rparr>"

definition ensureWorker :: "string \<Rightarrow> int \<Rightarrow> int \<Rightarrow> string \<Rightarrow> int \<Rightarrow> Broker \<Rightarrow> Broker" where
  "ensureWorker topic part leaderID leaderAddr startOffset b =
     (let key = workerKey topic part;
          create = (case NewFollowerWorker
               \<lparr>cfgFollowerID = LocalBrokerID b, cfgTopic = topic, cfgPartition = part,
                cfgStartOffset = startOffset, cfgMaxBatch = 256\<rparr> True True of
               Inl _ \<Rightarrow> b
             | Inr w \<Rightarrow> b\<lparr>bRuntime := (bRuntime b)\<lparr>workers := mput key
                   \<lparr>rwWorker = w, rwTransport = NewTCPTransport leaderAddr (2 * Second),
                    rwLeaderID = leaderID, rwLeaderAddr = leaderAddr, rwFailureCount = 0\<rparr>
                   (workers (bRuntime b))\<rparr>\<rparr>)
      in case map_of (workers (bRuntime b)) key of
           None \<Rightarrow> create
         | Some w \<Rightarrow> if rwLeaderID w = leaderID \<and> rwLeaderAddr w = leaderAddr then b else create)"

definition assumeRole :: "brokerIO \<Rightarrow> string \<Rightarrow> int \<Rightarrow> string \<Rightarrow> int \<Rightarrow> Broker \<Rightarrow> Broker" where
  "assumeRole env topic part newRole lastOffset b =
     b\<lparr>bReplication := BootstrapOffset (tick env 2) topic part lastOffset
         (fst (SetRole (tick env 1) topic part newRole (bReplication b)))\<rparr>"

text \<open>The body of the loop of \<open>reconcileRoles\<close> over topics and partitions.\<close>

definition reconcilePartition ::
  "brokerIO \<Rightarrow> string \<Rightarrow> int \<Rightarrow> PartitionMetadata \<Rightarrow> Broker \<Rightarrow> Broker" where
  "reconcilePartition env topic part pm b =
     (let lastOffset = LastOffset topic part (bStorage b)
      in if pmLeaderID pm = LocalBrokerID b
         then stopWorker topic part (assumeRole env topic part ''leader'' lastOffset b)
         else if LocalBrokerID b \<notin> set (pmReplicas pm) \<or> pmLeaderID pm < 0
         then stopWorker topic part b
         else
           let b1 = assumeRole env topic part ''follower'' lastOffset b
           in case map_of (peers (bRuntime b1)) (pmLeaderID pm) of
                None \<Rightarrow> b1
              | Some leader \<Rightarrow>
                  ensureWorker topic part (pmLeaderID pm) (peerAddr leader) (iadd lastOffset 1) b1)"

definition topicPartitions :: "MetadataSnapshot \<Rightarrow> (string \<times> int \<times> PartitionMetadata) list" where
  "topicPartitions md =
     concat (map (\<lambda>(topic, t). map (\<lambda>(i, pm). (topic, i, pm)) (tmPartitions t)) (Topics md))"

definition reconcileRoles :: "brokerIO \<Rightarrow> Broker \<Rightarrow> Broker" where
  "reconcileRoles env b =
     (let b1 = HeartbeatSelf env b
      in fold (\<lambda>(topic, i, pm). reconcilePartition env topic i pm)
           (topicPartitions (StoreSnapshot (bController b1))) b1)"

definition failoverTopic :: "brokerIO \<Rightarrow> string \<Rightarrow> TopicMetadata \<Rightarrow> Broker \<Rightarrow> Broker" where
  "failoverTopic env topic t b =
     (case ElectTopicLeaders (Apply (tick env 0)) StoreSnapshot topic (bController b) of
        (c1, changed, Some e) \<Rightarrow> b\<lparr>bController := c1\<rparr>
      | (c1, changed, None) \<Rightarrow>
          fold (\<lambda>(i, pm) b. if pmLeaderID pm = LocalBrokerID b
                  then b\<lparr>bReplication := fst (SetRole (tick env 1) topic i ''leader'' (bReplication b))\<rparr>
                  else b)
            (tmPartitions t) (b\<lparr>bController := c1\<rparr>))"

definition tryFailoverForWorker :: "brokerIO \<Rightarrow> int \<Rightarrow> Broker \<Rightarrow> Broker" where
  "tryFailoverForWorker env leaderID b =
     (let b1 = b\<lparr>bController := fst (SetBrokerFence (Apply (tick env 0)) leaderID True (bController b))\<rparr>
      in fold (\<lambda>(topic, t). failoverTopic env topic t) (Topics (StoreSnapshot (bController b1))) b1)"

definition transportFetch ::
  "'n rpc \<Rightarrow> string \<Rightarrow> int \<Rightarrow> int \<Rightarrow> int \<Rightarrow> int \<Rightarrow> TCPTransport \<times> 'n \<Rightarrow> (TCPTransport \<times> 'n) \<times> FetchResult result" where
  "transportFetch rpc topic part f off n st =
     (case Fetch rpc topic part f off n (fst st) (snd st) of (t, net, r) \<Rightarrow> ((t, net), r))"

definition transportAck ::
  "'n rpc \<Rightarrow> string \<Rightarrow> int \<Rightarrow> int \<Rightarrow> int \<Rightarrow> TCPTransport \<times> 'n \<Rightarrow> (TCPTransport \<times> 'n) \<times> string option" where
  "transportAck rpc topic part f off st =
     (case Ack rpc topic part f off (fst st) (snd st) of (t, net, r) \<Rightarrow> ((t, net), r))"

definition stepWorker ::
  "brokerIO \<Rightarrow> 'n rpc \<Rightarrow> string \<Rightarrow> Broker \<times> 'n \<Rightarrow> Broker \<times> 'n" where
  "stepWorker env rpc key bn =
     (case map_of (workers (bRuntime (fst bn))) key of
        None \<Rightarrow> bn
      | Some st \<Rightarrow>
          (case StepOnce (transportFetch rpc) (transportAck rpc) (AppendReplicated (storeIO env))
                  (rwWorker st) (rwTransport st, snd bn) (bStorage (fst bn)) of
             (w, (t, net), store, applied, err) \<Rightarrow>
               let put = (\<lambda>st b. b\<lparr>bRuntime := (bRuntime b)\<lparr>workers := mput key st (workers (bRuntime b))\<rparr>\<rparr>);
                   b1 = (fst bn)\<lparr>bStorage := store\<rparr>;
                   st1 = st\<lparr>rwWorker := w, rwTransport := t\<rparr>
               in case err of
                    Some e \<Rightarrow>
                      let st2 = st1\<lparr>rwFailureCount := iadd (rwFailureCount st1) 1\<rparr>
                      in if rwFailureCount st2 \<ge> maxFailureBeforeFailover (bRuntime b1)
                         then (put (st2\<lparr>rwFailureCount := 0\<rparr>)
                                 (tryFailoverForWorker env (rwLeaderID st2) b1), net)
                         else (put st2 b1, net)
                  | None \<Rightarrow>
                      if applied > 0 then (put (st1\<lparr>rwFailureCount := 0\<rparr>) b1, net)
                      else (put st1 b1, net)))"

definition stepWorkers :: "brokerIO \<Rightarrow> 'n rpc \<Rightarrow> Broker \<times> 'n \<Rightarrow> Broker \<times> 'n" where
  "stepWorkers env rpc bn = fold (stepWorker env rpc) (mkeys (workers (bRuntime (fst bn)))) bn"

text \<open>
  The loop of \<open>clusterRuntime.run\<close>: one event per turn of its \<open>select\<close>, in the order in which the
  channels happen to be ready, with what the step sees of its surroundings.
\<close>

datatype runtimeEvent = DoneClosed | ReconcileTick brokerIO | ReplicationTick brokerIO

fun runtimeRun :: "'n rpc \<Rightarrow> runtimeEvent list \<Rightarrow> Broker \<times> 'n \<Rightarrow> Broker \<times> 'n" where
  "runtimeRun rpc [] bn = bn"
| "runtimeRun rpc (DoneClosed # events) bn = bn"
| "runtimeRun rpc (ReconcileTick env # events) bn = runtimeRun rpc events (reconcileRoles env (fst bn), snd bn)"
| "runtimeRun rpc (ReplicationTick env # events) bn = runtimeRun rpc events (stepWorkers env rpc bn)"

definition runtimeStart :: "brokerIO \<Rightarrow> 'n rpc \<Rightarrow> runtimeEvent list \<Rightarrow> Broker \<times> 'n \<Rightarrow> Broker \<times> 'n" where
  "runtimeStart env rpc events bn = runtimeRun rpc events (bootstrapPeers env (fst bn), snd bn)"

end
