(* ===== verification/Handler.thy ===== *)
theory Handler
  imports Broker
begin

text \<open>
  \<open>network/handler.go\<close>: the commands of the text protocol.

  \<^item> Every handler takes the parsed request and the broker and yields the broker afterwards and the
    line written to the client. Instants of \<open>time.Now\<close> are ticks of the \<open>brokerIO\<close>, in the order of
    the calls.
  \<^item> Three handlers can panic, which ends the process, or (\<open>PRODUCE\<close> with \<open>acks=all\<close>) wait for
    ever on a clock that stands still; there the result is an option and \<open>None\<close> stands for both.
  \<^item> \<open>intArg\<close> is the recurring check of an integer argument: it answers \<open>BAD_REQUEST\<close> or goes on.
  \<^item> Logging and the writes to the socket are left out; \<open>HandleConnection\<close> yields the lines written.
\<close>

section \<open>Common parts\<close>

definition okLine :: "Request \<Rightarrow> string \<Rightarrow> string" where
  "okLine req payload = Ok (CorrelationID req) payload"

definition errLine :: "Request \<Rightarrow> string \<Rightarrow> string \<Rightarrow> string" where
  "errLine req code msg = Err (CorrelationID req) code msg"

definition badRequest :: "Request \<Rightarrow> string \<Rightarrow> string" where
  "badRequest req msg = errLine req ''BAD_REQUEST'' msg"

definition intArg :: "Request \<Rightarrow> nat \<Rightarrow> string \<Rightarrow> (string \<Rightarrow> 'r) \<Rightarrow> (int \<Rightarrow> 'r) \<Rightarrow> 'r" where
  "intArg req i field stop go_on =
     (case ParseInt (Args req ! i) field of
        Inl e \<Rightarrow> stop (badRequest req e)
      | Inr n \<Rightarrow> go_on n)"

definition notLeader :: "Request \<Rightarrow> string" where
  "notLeader req = errLine req ''NOT_LEADER'' ''partition leader unavailable on this broker''"

definition termIndex :: "ApplyResult \<Rightarrow> string" where
  "termIndex r = '' term='' @ Itoa (uint (aTerm r)) @ '' index='' @ Itoa (uint (aIndex r))"

definition setGroups :: "GroupManager \<Rightarrow> Broker \<Rightarrow> Broker" where
  "setGroups gm b = b\<lparr>bCoordinator := (bCoordinator b)\<lparr>cGroups := gm\<rparr>\<rparr>"

definition setOffsets :: "OffsetManager \<Rightarrow> Broker \<Rightarrow> Broker" where
  "setOffsets om b = b\<lparr>bCoordinator := (bCoordinator b)\<lparr>cOffsets := om\<rparr>\<rparr>"

text \<open>
  \<open>make([]string, 0, n)\<close> panics when the backing array of 16-byte headers exceeds the address
  space the runtime allows, which is 48 bits on 64-bit platforms.
\<close>

definition makeStrings_ok :: "int \<Rightarrow> bool" where
  "makeStrings_ok n \<longleftrightarrow> 0 \<le> n \<and> n * 16 \<le> 2 ^ 48"

section \<open>Records\<close>

text \<open>The value of an option \<open>name=value\<close> among the given values.\<close>

definition optionArg :: "string \<Rightarrow> string list \<Rightarrow> string \<Rightarrow> string option" where
  "optionArg name allowed arg =
     (let parts = SplitN arg ''='' 2
      in if length parts \<noteq> 2 \<or> ToLower (parts ! 0) \<noteq> name then None
         else if ToLower (parts ! 1) \<in> set allowed then Some (ToLower (parts ! 1))
         else None)"

text \<open>The end of \<open>handleProduce\<close>, once the broker is known to lead the partition.\<close>

definition produceTo ::
  "brokerIO \<Rightarrow> Request \<Rightarrow> string \<Rightarrow> int \<Rightarrow> string \<Rightarrow> string \<Rightarrow> Broker \<Rightarrow> (Broker \<times> string) option" where
  "produceTo env req topic part val ackMode b =
     (let (s1, part', offset) = ProduceToPartition (storeIO env) topic part val (bStorage b);
          m1 = OnLeaderAppend (tick env 1) topic part' offset (bReplication b)
      in case (if ackMode = ''all''
               then WaitForAckAll (tick env 2) topic part' offset (polls env) m1
               else Some (m1, None)) of
           None \<Rightarrow> None
         | Some (m2, Some e) \<Rightarrow>
             Some (b\<lparr>bStorage := s1, bReplication := m2\<rparr>, errLine req ''REPLICATION_TIMEOUT'' e)
         | Some (m2, None) \<Rightarrow>
             let (m3, hw) = HighWatermark (tick env 3) topic part' m2
             in Some (b\<lparr>bStorage := s1, bReplication := m3\<rparr>,
                  okLine req (''partition='' @ Itoa part' @ '' offset='' @ Itoa offset @ '' hw='' @ Itoa hw)))"

definition handleProduce :: "brokerIO \<Rightarrow> Request \<Rightarrow> Broker \<Rightarrow> (Broker \<times> string) option" where
  "handleProduce env req b =
     (if length (Args req) < 2 \<or> length (Args req) > 3 then
        Some (b, badRequest req ''PRODUCE requires: <topic> <key>:<value> [acks=0|1|all]'')
      else
        let topic = Args req ! 0;
            messageParts = SplitN (Args req ! 1) '':'' 2
        in if length messageParts \<noteq> 2 then Some (b, badRequest req ''message must be key:value'')
        else
          let key = messageParts ! 0;
              val = messageParts ! 1
          in case EnsureTopicMetadata env topic b of
            (b1, Inl e) \<Rightarrow> Some (b1, badRequest req e)
          | (b1, Inr topicMetadata) \<Rightarrow>
              let partitionCount = int (length (tmPartitions topicMetadata))
              in if partitionCount \<le> 0 then Some (b1, badRequest req ''topic has no partitions'')
              else
                case (if length (Args req) = 3
                      then optionArg ''acks'' [''0'', ''1'', ''all''] (Args req ! 2)
                      else Some ''1'') of
                  None \<Rightarrow> Some (b1, badRequest req ''invalid ack mode; expected acks=0|1|all'')
                | Some ackMode \<Rightarrow>
                    (case PartitionForKeyWithCount key partitionCount of
                       None \<Rightarrow> None
                     | Some part \<Rightarrow>
                         (case map_of (tmPartitions topicMetadata) part of
                            None \<Rightarrow> Some (b1, badRequest req ''partition metadata missing'')
                          | Some partitionMetadata \<Rightarrow>
                              if pmLeaderID partitionMetadata \<noteq> LocalBrokerID b1 then Some (b1, notLeader req)
                              else
                                let (m1, isLeader) = IsLeader topic part (bReplication b1);
                                    b2 = b1\<lparr>bReplication := m1\<rparr>
                                in if \<not> isLeader then Some (b2, notLeader req)
                                   else produceTo env req topic part val ackMode b2)))"

definition handleSetPartitionRole :: "brokerIO \<Rightarrow> Request \<Rightarrow> Broker \<Rightarrow> Broker \<times> string" where
  "handleSetPartitionRole env req b =
     (if length (Args req) \<noteq> 3 then
        (b, badRequest req ''SET_PARTITION_ROLE requires: <topic> <partition> <leader|follower>'')
      else
        let topic = Args req ! 0
        in intArg req 1 ''partition'' (Pair b) (\<lambda>part.
          case EnsureTopicMetadata env topic b of
            (b1, Inl e) \<Rightarrow> (b1, badRequest req e)
          | (b1, Inr _) \<Rightarrow>
              (case SetRole (tick env 1) topic part (ToLower (Args req ! 2)) (bReplication b1) of
                 (m2, Some e) \<Rightarrow> (b1\<lparr>bReplication := m2\<rparr>, badRequest req e)
               | (m2, None) \<Rightarrow>
                   (case SetPartitionLeader (Apply (tick env 2)) topic part (LocalBrokerID b1) [LocalBrokerID b1]
                           (bController b1) of
                      (c3, Inl e) \<Rightarrow> (b1\<lparr>bReplication := m2, bController := c3\<rparr>, badRequest req e)
                    | (c3, Inr _) \<Rightarrow>
                        let (m4, status) = ManagerStatus (tick env 3) topic part m2
                        in (b1\<lparr>bReplication := m4, bController := c3\<rparr>,
                            okLine req (''topic='' @ topic @ '' partition='' @ Itoa part @ '' role='' @ sRole status
                                        @ '' hw='' @ Itoa (sHighWatermark status)))))))"

definition handleConsume :: "brokerIO \<Rightarrow> Request \<Rightarrow> Broker \<Rightarrow> (Broker \<times> string) option" where
  "handleConsume env req b =
     (if length (Args req) \<noteq> 3 then
        Some (b, badRequest req ''CONSUME requires: <topic> <partition> <offset>'')
      else
        let topic = Args req ! 0
        in intArg req 1 ''partition'' (\<lambda>e. Some (b, e)) (\<lambda>part.
           intArg req 2 ''offset'' (\<lambda>e. Some (b, e)) (\<lambda>offset.
             case EnsureTopicMetadata env topic b of
               (b1, Inl e) \<Rightarrow> Some (b1, badRequest req e)
             | (b1, Inr topicMetadata) \<Rightarrow>
                 if map_of (tmPartitions topicMetadata) part = None
                 then Some (b1, badRequest req ''invalid partition'')
                 else
                   let (m2, hw) = HighWatermark (tick env 1) topic part (bReplication b1);
                       b2 = b1\<lparr>bReplication := m2\<rparr>;
                       none = okLine req (''messages= hw='' @ Itoa hw)
                   in if hw < 0 \<or> offset > hw then Some (b2, none)
                      else case Consume topic part offset (bStorage b2) of
                        None \<Rightarrow> None
                      | Some messages \<Rightarrow>
                          let filtered = map fetchItem (takeWhile (\<lambda>msg. \<not> Offset msg > hw) messages)
                          in if filtered = [] then Some (b2, none)
                             else Some (b2, okLine req (''messages='' @ Join filtered '','' @ '' hw='' @ Itoa hw)))))"

section \<open>Consumer groups and their positions\<close>

definition handleJoin :: "brokerIO \<Rightarrow> Request \<Rightarrow> Broker \<Rightarrow> Broker \<times> string" where
  "handleJoin env req b =
     (if length (Args req) \<noteq> 3 \<and> length (Args req) \<noteq> 4 then
        (b, badRequest req ''JOIN requires: <group> <topic> <consumer_id> [assignor=round_robin|range]'')
      else case (if length (Args req) = 4
                 then optionArg ''assignor'' [''round_robin'', ''range''] (Args req ! 3)
                 else Some []) of
        None \<Rightarrow> (b, badRequest req ''invalid assignor; expected assignor=round_robin|range'')
      | Some strategy \<Rightarrow>
          let (gm, result) = JoinGroup (stateIO env) (tick env 0) (Args req ! 0) (Args req ! 1) (Args req ! 2)
                               strategy (cGroups (bCoordinator b))
          in (setGroups gm b,
              okLine req (''generation='' @ Itoa (jGeneration result) @ '' assigned='' @ fmt_ints (jAssigned result))))"

definition handleSync :: "brokerIO \<Rightarrow> Request \<Rightarrow> Broker \<Rightarrow> Broker \<times> string" where
  "handleSync env req b =
     (if length (Args req) \<noteq> 4 then
        (b, badRequest req ''SYNC requires: <group> <topic> <consumer_id> <generation>'')
      else intArg req 3 ''generation'' (Pair b) (\<lambda>gen.
        case SyncGroup (stateIO env) (tick env 0) (tick env 1) (Args req ! 0) (Args req ! 1) (Args req ! 2) gen
               (cGroups (bCoordinator b)) of
          (gm, Inl e) \<Rightarrow> (setGroups gm b, errLine req ''GENERATION_MISMATCH'' e)
        | (gm, Inr result) \<Rightarrow>
            (setGroups gm b,
             okLine req (''generation='' @ Itoa (jGeneration result) @ '' assigned='' @ fmt_ints (jAssigned result)))))"

definition handleHeartbeat :: "brokerIO \<Rightarrow> Request \<Rightarrow> Broker \<Rightarrow> Broker \<times> string" where
  "handleHeartbeat env req b =
     (if length (Args req) \<noteq> 4 then
        (b, badRequest req ''HEARTBEAT requires: <group> <topic> <consumer_id> <generation>'')
      else intArg req 3 ''generation'' (Pair b) (\<lambda>gen.
        case Heartbeat (stateIO env) (tick env 0) (tick env 1) (Args req ! 0) (Args req ! 1) (Args req ! 2) gen
               (cGroups (bCoordinator b)) of
          (gm, Some e) \<Rightarrow> (setGroups gm b, errLine req ''GENERATION_MISMATCH'' e)
        | (gm, None) \<Rightarrow> (setGroups gm b, okLine req ''heartbeat=ok'')))"

definition handleLeave :: "brokerIO \<Rightarrow> Request \<Rightarrow> Broker \<Rightarrow> Broker \<times> string" where
  "handleLeave env req b =
     (if length (Args req) \<noteq> 4 then
        (b, badRequest req ''LEAVE requires: <group> <topic> <consumer_id> <generation>'')
      else intArg req 3 ''generation'' (Pair b) (\<lambda>gen.
        case LeaveGroup (stateIO env) (tick env 0) (Args req ! 0) (Args req ! 1) (Args req ! 2) gen
               (cGroups (bCoordinator b)) of
          (gm, Some e) \<Rightarrow> (setGroups gm b, errLine req ''GENERATION_MISMATCH'' e)
        | (gm, None) \<Rightarrow> (setGroups gm b, okLine req ''left=true'')))"

definition handleCommit :: "brokerIO \<Rightarrow> Request \<Rightarrow> Broker \<Rightarrow> Broker \<times> string" where
  "handleCommit env req b =
     (if length (Args req) \<noteq> 6 then
        (b, badRequest req ''COMMIT requires: <group> <topic> <consumer_id> <generation> <partition> <offset>'')
      else
        let groupName = Args req ! 0; topic = Args req ! 1; consumerID = Args req ! 2
        in intArg req 3 ''generation'' (Pair b) (\<lambda>gen.
           intArg req 4 ''partition'' (Pair b) (\<lambda>part.
           intArg req 5 ''offset'' (Pair b) (\<lambda>offset.
             case ValidateCommit (stateIO env) (tick env 0) groupName topic consumerID gen part
                    (cGroups (bCoordinator b)) of
               (gm, Some e) \<Rightarrow> (setGroups gm b, errLine req ''GENERATION_MISMATCH'' e)
             | (gm, None) \<Rightarrow>
                 (setOffsets (Commit (stateIO env) groupName topic part offset (cOffsets (bCoordinator b)))
                    (setGroups gm b),
                  okLine req ''committed=true'')))))"

definition handleOffset :: "Request \<Rightarrow> Broker \<Rightarrow> Broker \<times> string" where
  "handleOffset req b =
     (if length (Args req) \<noteq> 3 then (b, badRequest req ''OFFSET requires: <group> <topic> <partition>'')
      else intArg req 2 ''partition'' (Pair b) (\<lambda>part.
        (b, okLine req (''offset='' @
              Itoa (GetOffset (Args req ! 0) (Args req ! 1) part (cOffsets (bCoordinator b)))))))"

section \<open>Replication between brokers\<close>

definition ackStatus :: "Status \<Rightarrow> string" where
  "ackStatus status = '' hw='' @ Itoa (sHighWatermark status) @ '' isr='' @ fmt_ints (sInSyncReplicas status)
     @ '' under_replicated='' @ fmt_bool (sUnderReplicated status)"

definition handleReplicaFetch :: "brokerIO \<Rightarrow> Request \<Rightarrow> Broker \<Rightarrow> Broker \<times> string" where
  "handleReplicaFetch env req b =
     (if length (Args req) \<noteq> 4 then
        (b, badRequest req ''REPLICA_FETCH requires: <topic> <partition> <replica_id> <offset>'')
      else
        let topic = Args req ! 0
        in intArg req 1 ''partition'' (Pair b) (\<lambda>part.
           intArg req 2 ''replica_id'' (Pair b) (\<lambda>replicaID.
           intArg req 3 ''offset'' (Pair b) (\<lambda>offset.
             case AckReplica (tick env 0) (tick env 1) topic part replicaID offset (bReplication b) of
               (m1, Some e) \<Rightarrow> (b\<lparr>bReplication := m1\<rparr>, badRequest req e)
             | (m1, None) \<Rightarrow>
                 let (m2, status) = ManagerStatus (tick env 2) topic part m1
                 in (b\<lparr>bReplication := m2\<rparr>,
                     okLine req (''replica='' @ Itoa replicaID @ '' acked_offset='' @ Itoa offset
                                 @ ackStatus status))))))"

definition handleBrokerFetch :: "brokerIO \<Rightarrow> Request \<Rightarrow> Broker \<Rightarrow> (Broker \<times> string) option" where
  "handleBrokerFetch env req b =
     (if length (Args req) \<noteq> 4 \<and> length (Args req) \<noteq> 5 then
        Some (b, badRequest req ''BROKER_FETCH requires: <topic> <partition> <follower_id> <offset> [max_messages]'')
      else
        let topic = Args req ! 0; stop = (\<lambda>e. Some (b, e))
        in intArg req 1 ''partition'' stop (\<lambda>part.
           intArg req 2 ''follower_id'' stop (\<lambda>followerID.
           intArg req 3 ''offset'' stop (\<lambda>offset.
           (if length (Args req) = 5 then intArg req 4 ''max_messages'' stop else (\<lambda>k. k 100)) (\<lambda>maxMessages.
             if maxMessages \<le> 0 then Some (b, badRequest req ''max_messages must be > 0'')
             else
               let (m1, isLeader) = IsLeader topic part (bReplication b)
               in if \<not> isLeader then Some (b\<lparr>bReplication := m1\<rparr>, notLeader req)
               else
                 let (m2, status) = ManagerStatus (tick env 0) topic part m1;
                     hw = sHighWatermark status;
                     b2 = b\<lparr>bReplication := m2\<rparr>
                 in if sLeaderOffset status < 0 \<or> offset > sLeaderOffset status
                    then Some (b2, okLine req (fetchPayload topic part followerID hw []))
                    else case Consume topic part offset (bStorage b) of
                      None \<Rightarrow> None
                    | Some messages \<Rightarrow>
                        if \<not> makeStrings_ok maxMessages then None
                        else Some (b2, okLine req (fetchPayload topic part followerID hw
                                     (take (nat maxMessages) messages))))))))"

definition handleBrokerReplicaAck :: "brokerIO \<Rightarrow> Request \<Rightarrow> Broker \<Rightarrow> Broker \<times> string" where
  "handleBrokerReplicaAck env req b =
     (if length (Args req) \<noteq> 4 then
        (b, badRequest req ''BROKER_REPLICA_ACK requires: <topic> <partition> <follower_id> <acked_offset>'')
      else
        let topic = Args req ! 0
        in intArg req 1 ''partition'' (Pair b) (\<lambda>part.
           intArg req 2 ''follower_id'' (Pair b) (\<lambda>followerID.
           intArg req 3 ''acked_offset'' (Pair b) (\<lambda>ackedOffset.
             case AckReplica (tick env 0) (tick env 1) topic part followerID ackedOffset (bReplication b) of
               (m1, Some e) \<Rightarrow> (b\<lparr>bReplication := m1\<rparr>, badRequest req e)
             | (m1, None) \<Rightarrow>
                 let (m2, status) = ManagerStatus (tick env 2) topic part m1
                 in (b\<lparr>bReplication := m2\<rparr>,
                     okLine req (''topic='' @ topic @ '' partition='' @ Itoa part @ '' follower='' @ Itoa followerID
                                 @ '' acked_offset='' @ Itoa ackedOffset @ ackStatus status))))))"

section \<open>Administration\<close>

definition admin :: "RaftMetadataStore \<times> 'a result \<Rightarrow> Request \<Rightarrow> ('a \<Rightarrow> string) \<Rightarrow> Broker \<Rightarrow> Broker \<times> string" where
  "admin outcome req payload b =
     (case outcome of
        (c, Inl e) \<Rightarrow> (b\<lparr>bController := c\<rparr>, badRequest req e)
      | (c, Inr result) \<Rightarrow> (b\<lparr>bController := c\<rparr>, okLine req (payload result)))"

definition handleAdminCreateTopic :: "brokerIO \<Rightarrow> Request \<Rightarrow> Broker \<Rightarrow> Broker \<times> string" where
  "handleAdminCreateTopic env req b =
     (if length (Args req) \<noteq> 3 then
        (b, badRequest req ''ADMIN_CREATE_TOPIC requires: <topic> <partitions> <replication_factor>'')
      else intArg req 1 ''partitions'' (Pair b) (\<lambda>nparts.
           intArg req 2 ''replication_factor'' (Pair b) (\<lambda>replicationFactor.
             admin (CreateTopic (Apply (tick env 0)) (Args req ! 0) nparts replicationFactor (bController b)) req
               (\<lambda>r. ''topic='' @ Args req ! 0 @ '' partitions='' @ Itoa nparts @ '' replication_factor=''
                    @ Itoa replicationFactor @ termIndex r) b)))"

definition handleAdminRegisterBroker :: "brokerIO \<Rightarrow> Request \<Rightarrow> Broker \<Rightarrow> Broker \<times> string" where
  "handleAdminRegisterBroker env req b =
     (if length (Args req) \<noteq> 3 \<and> length (Args req) \<noteq> 4 then
        (b, badRequest req ''ADMIN_REGISTER_BROKER requires: <broker_id> <host> <port> [epoch]'')
      else intArg req 0 ''broker_id'' (Pair b) (\<lambda>brokerID.
           intArg req 2 ''port'' (Pair b) (\<lambda>port.
             case (if length (Args req) = 4 then ParseInt64 (Args req ! 3) else Some 0) of
               None \<Rightarrow> (b, badRequest req ''invalid epoch'')
             | Some epoch \<Rightarrow>
                 admin (RegisterBroker (Apply (tick env 0)) (tick env 0) brokerID (Args req ! 1) port epoch (bController b)) req
                   (\<lambda>r. ''broker_id='' @ Itoa brokerID @ '' host='' @ Args req ! 1 @ '' port='' @ Itoa port
                        @ termIndex r) b)))"

definition handleAdminBrokerHeartbeat :: "brokerIO \<Rightarrow> Request \<Rightarrow> Broker \<Rightarrow> Broker \<times> string" where
  "handleAdminBrokerHeartbeat env req b =
     (if length (Args req) \<noteq> 1 then (b, badRequest req ''ADMIN_BROKER_HEARTBEAT requires: <broker_id>'')
      else intArg req 0 ''broker_id'' (Pair b) (\<lambda>brokerID.
        admin (HeartbeatBroker (Apply (tick env 0)) brokerID (bController b)) req
          (\<lambda>r. ''broker_id='' @ Itoa brokerID @ '' heartbeat=ok'' @ termIndex r) b))"

definition handleAdminReconcileBrokerHealth :: "brokerIO \<Rightarrow> Request \<Rightarrow> Broker \<Rightarrow> Broker \<times> string" where
  "handleAdminReconcileBrokerHealth env req b =
     (if length (Args req) \<noteq> 1 then (b, badRequest req ''ADMIN_RECONCILE_BROKER_HEALTH requires: <timeout_ms>'')
      else intArg req 0 ''timeout_ms'' (Pair b) (\<lambda>timeoutMs.
        case ReconcileBrokerHealth (Apply (tick env 0)) StoreSnapshot (tick env 0) (imul timeoutMs Millisecond)
               (bController b) of
          (c, changes, Some e) \<Rightarrow> (b\<lparr>bController := c\<rparr>, badRequest req e)
        | (c, changes, None) \<Rightarrow> (b\<lparr>bController := c\<rparr>, okLine req (''reconciled='' @ Itoa changes))))"

definition handleAdminFenceBroker :: "brokerIO \<Rightarrow> Request \<Rightarrow> Broker \<Rightarrow> Broker \<times> string" where
  "handleAdminFenceBroker env req b =
     (if length (Args req) \<noteq> 1 then (b, badRequest req ''ADMIN_FENCE_BROKER requires: <broker_id>'')
      else intArg req 0 ''broker_id'' (Pair b) (\<lambda>brokerID.
        admin (SetBrokerFence (Apply (tick env 0)) brokerID True (bController b)) req
          (\<lambda>r. ''broker_id='' @ Itoa brokerID @ '' fenced=true'' @ termIndex r) b))"

definition handleAdminUnfenceBroker :: "brokerIO \<Rightarrow> Request \<Rightarrow> Broker \<Rightarrow> Broker \<times> string" where
  "handleAdminUnfenceBroker env req b =
     (if length (Args req) \<noteq> 1 then (b, badRequest req ''ADMIN_UNFENCE_BROKER requires: <broker_id>'')
      else intArg req 0 ''broker_id'' (Pair b) (\<lambda>brokerID.
        admin (SetBrokerFence (Apply (tick env 0)) brokerID False (bController b)) req
          (\<lambda>r. ''broker_id='' @ Itoa brokerID @ '' fenced=false'' @ termIndex r) b))"

fun csvInts :: "string list \<Rightarrow> int list option" where
  "csvInts [] = Some []"
| "csvInts (part # parts) =
     (let p = TrimSpace part
      in if p = [] then csvInts parts
         else case Atoi p of
           None \<Rightarrow> None
         | Some n \<Rightarrow> map_option ((#) n) (csvInts parts))"

definition parseCSVInts :: "string \<Rightarrow> int list result" where
  "parseCSVInts raw =
     (case csvInts (Split raw '','') of None \<Rightarrow> Inl ''invalid integer list'' | Some ns \<Rightarrow> Inr ns)"

definition handleAdminSetPartitionLeader :: "brokerIO \<Rightarrow> Request \<Rightarrow> Broker \<Rightarrow> Broker \<times> string" where
  "handleAdminSetPartitionLeader env req b =
     (if length (Args req) \<noteq> 4 then
        (b, badRequest req ''ADMIN_SET_PARTITION_LEADER requires: <topic> <partition> <leader_id> <isr_csv>'')
      else intArg req 1 ''partition'' (Pair b) (\<lambda>part.
           intArg req 2 ''leader_id'' (Pair b) (\<lambda>leaderID.
             case parseCSVInts (Args req ! 3) of
               Inl e \<Rightarrow> (b, badRequest req e)
             | Inr isr \<Rightarrow>
                 admin (SetPartitionLeader (Apply (tick env 0)) (Args req ! 0) part leaderID isr (bController b)) req
                   (\<lambda>r. ''topic='' @ Args req ! 0 @ '' partition='' @ Itoa part @ '' leader='' @ Itoa leaderID
                        @ '' isr='' @ fmt_ints isr @ termIndex r) b)))"

definition handleAdminElectTopicLeaders :: "brokerIO \<Rightarrow> Request \<Rightarrow> Broker \<Rightarrow> Broker \<times> string" where
  "handleAdminElectTopicLeaders env req b =
     (if length (Args req) \<noteq> 1 then (b, badRequest req ''ADMIN_ELECT_TOPIC_LEADERS requires: <topic>'')
      else case ElectTopicLeaders (Apply (tick env 0)) StoreSnapshot (Args req ! 0) (bController b) of
          (c, changes, Some e) \<Rightarrow> (b\<lparr>bController := c\<rparr>, badRequest req e)
        | (c, changes, None) \<Rightarrow>
            (b\<lparr>bController := c\<rparr>,
             okLine req (''topic='' @ Args req ! 0 @ '' elected_changes='' @ Itoa changes)))"

definition handleAdminGetMetadata :: "Request \<Rightarrow> Broker \<Rightarrow> Broker \<times> string" where
  "handleAdminGetMetadata req b =
     (if Args req \<noteq> [] then (b, badRequest req ''ADMIN_GET_METADATA requires no args'')
      else
        let s = StoreSnapshot (bController b);
            topicNames = sort (mkeys (Topics s));
            brokerIDs = sort (mkeys (Brokers s));
            fenced = filter (\<lambda>i. case map_of (Brokers s) i of None \<Rightarrow> False | Some m \<Rightarrow> bmFenced m) brokerIDs
        in (b, okLine req (''topics='' @ fmt_strs topicNames @ '' brokers='' @ fmt_ints brokerIDs
                           @ '' fenced='' @ fmt_ints fenced)))"

section \<open>Dispatch\<close>

definition handleRequest :: "brokerIO \<Rightarrow> Request \<Rightarrow> Broker \<Rightarrow> (Broker \<times> string) option" where
  "handleRequest env req b =
     (let cmd = Command req
      in if cmd = ''PRODUCE'' then handleProduce env req b
      else if cmd = ''CONSUME'' then handleConsume env req b
      else if cmd = ''JOIN'' then Some (handleJoin env req b)
      else if cmd = ''SYNC'' then Some (handleSync env req b)
      else if cmd = ''HEARTBEAT'' then Some (handleHeartbeat env req b)
      else if cmd = ''LEAVE'' then Some (handleLeave env req b)
      else if cmd = ''COMMIT'' then Some (handleCommit env req b)
      else if cmd = ''OFFSET'' then Some (handleOffset req b)
      else if cmd = ''REPLICA_FETCH'' then Some (handleReplicaFetch env req b)
      else if cmd = ''BROKER_FETCH'' then handleBrokerFetch env req b
      else if cmd = ''BROKER_REPLICA_ACK'' then Some (handleBrokerReplicaAck env req b)
      else if cmd = ''SET_PARTITION_ROLE'' then Some (handleSetPartitionRole env req b)
      else if cmd = ''ADMIN_CREATE_TOPIC'' then Some (handleAdminCreateTopic env req b)
      else if cmd = ''ADMIN_REGISTER_BROKER'' then Some (handleAdminRegisterBroker env req b)
      else if cmd = ''ADMIN_BROKER_HEARTBEAT'' then Some (handleAdminBrokerHeartbeat env req b)
      else if cmd = ''ADMIN_RECONCILE_BROKER_HEALTH'' then Some (handleAdminReconcileBrokerHealth env req b)
      else if cmd = ''ADMIN_FENCE_BROKER'' then Some (handleAdminFenceBroker env req b)
      else if cmd = ''ADMIN_UNFENCE_BROKER'' then Some (handleAdminUnfenceBroker env req b)
      else if cmd = ''ADMIN_SET_PARTITION_LEADER'' then Some (handleAdminSetPartitionLeader env req b)
      else if cmd = ''ADMIN_ELECT_TOPIC_LEADERS'' then Some (handleAdminElectTopicLeaders env req b)
      else if cmd = ''ADMIN_GET_METADATA'' then Some (handleAdminGetMetadata req b)
      else Some (b, errLine req ''UNKNOWN_COMMAND'' ''unsupported command''))"

text \<open>One line of input: what the loop of \<open>HandleConnection\<close> does with it.\<close>

definition handleLine :: "brokerIO \<Rightarrow> string \<Rightarrow> Broker \<Rightarrow> (Broker \<times> string) option" where
  "handleLine env line b =
     (case ParseRequest line of
        Inl e \<Rightarrow> Some (b, Err ''0'' ''BAD_REQUEST'' e)
      | Inr req \<Rightarrow> handleRequest env req b)"

fun handleLines :: "(nat \<Rightarrow> brokerIO) \<Rightarrow> nat \<Rightarrow> string list \<Rightarrow> Broker \<Rightarrow> (Broker \<times> string list) option" where
  "handleLines envs n [] b = Some (b, [])"
| "handleLines envs n (line # lines) b =
     (case handleLine (envs n) line b of
        None \<Rightarrow> None
      | Some (b1, response) \<Rightarrow>
          map_option (\<lambda>(b2, responses). (b2, response # responses)) (handleLines envs (Suc n) lines b1))"

text \<open>A connection on which the given bytes arrive before the client closes it.\<close>

definition HandleConnection :: "(nat \<Rightarrow> brokerIO) \<Rightarrow> string \<Rightarrow> Broker \<Rightarrow> (Broker \<times> string list) option" where
  "HandleConnection envs input b = handleLines envs 0 (scan_lines input) b"

section \<open>Startup of the process\<close>

text \<open>
  \<open>main\<close> up to its accept loop: it ends with exit status 1 or with a broker that serves
  connections. The sockets are the argument \<open>listens\<close>; the accept loop starts one
  \<open>HandleConnection\<close> per connection.
\<close>

datatype startup = Exited | Serving Broker

definition main ::
  "brokerIO \<Rightarrow> environment \<Rightarrow> (string \<Rightarrow> bool) \<Rightarrow> filesystem \<Rightarrow> stateFile \<Rightarrow> stateFile \<Rightarrow> startup" where
  "main env vars listens fs groupsJson offsetsJson =
     (case Load vars of
        Inl e \<Rightarrow> Exited
      | Inr cfg \<Rightarrow>
          let b = bootstrapPeers env (NewBroker env cfg fs groupsJson offsetsJson)
          in if listens (ListenAddr cfg) then Serving b else Exited)"

end
