(* ===== verification/Broker_Props.thy ===== *)
theory Broker_Props
  imports Broker
begin

text \<open>
  The broker and its metadata: how a new topic gets its leaders, what a failover does, and that the
  roles and workers of a broker follow the metadata.
\<close>

section \<open>A broker of a small cluster\<close>

definition sample_env :: brokerIO where
  "sample_env = \<lparr>storeIO = quiet_io 0, stateIO = good_file_io, tick = (\<lambda>_. 110 * Second),
     visit = (\<lambda>ids. ids), polls = sample_polls\<rparr>"

text \<open>Broker 1 of the cluster of \<open>Controller_Props\<close>, with the configuration given by the environment.\<close>

definition sample_cfg :: Config where
  "sample_cfg = (defaultConfig (\<lambda>_. []))\<lparr>BrokerID := 1, NumPartitions := 2, ReplicationFactor := 3,
     AdvertisedHost := ''10.0.0.1'', AdvertisedPort := 9093, ClusterPeers := [''0@10.0.0.1:9092'', ''2@10.0.0.1:9094'']\<rparr>"

definition sample_broker :: Broker where
  "sample_broker =
     \<lparr>bStorage = sample_storage, bCoordinator = NewCoordinator sample_env sample_cfg Absent Absent,
      bReplication = NewManager sample_config False, bController = small_cluster,
      LocalBrokerID = 1, DefaultPartitions = 2, DefaultReplicationFactor = 3,
      bRuntime = newClusterRuntime 1 sample_cfg\<rparr>"

lemma sample_broker_simps [simp]:
  "bStorage sample_broker = sample_storage" "bController sample_broker = small_cluster"
  "bReplication sample_broker = NewManager sample_config False" "LocalBrokerID sample_broker = 1"
  "DefaultPartitions sample_broker = 2" "DefaultReplicationFactor sample_broker = 3"
  by (simp_all add: sample_broker_def)

lemma sample_peers: "map_of (peers (bRuntime sample_broker)) 0 = Some \<lparr>peerID = 0, peerAddr = ''10.0.0.1:9092''\<rparr>"
proof -
  have "map_of (parsePeers [''0@10.0.0.1:9092'', ''2@10.0.0.1:9094'']) 0 =
      Some \<lparr>peerID = 0, peerAddr = ''10.0.0.1:9092''\<rparr>"
    by code_simp
  then show ?thesis by (simp add: sample_broker_def newClusterRuntime_def sample_cfg_def)
qed

section \<open>Leaders of a new topic\<close>

context metadata_store
begin

lemma initLeaders_effect:
  assumes "topic \<noteq> []" "distinct ps" "\<forall>p \<in> set ps. 0 \<le> p \<and> - 1 \<le> lead p"
    "\<And>p. lead p = (case map_of leaders p of None \<Rightarrow> localID | Some l \<Rightarrow> l)"
    "map_of (Topics (snap s)) topic = Some t" "\<forall>p \<in> set ps. map_of (tmPartitions t) p \<noteq> None"
  shows "\<exists>s' t'. initLeaders ap topic localID leaders ps s = (s', None)
     \<and> Brokers (snap s') = Brokers (snap s)
     \<and> (\<forall>name. name \<noteq> topic \<longrightarrow> map_of (Topics (snap s')) name = map_of (Topics (snap s)) name)
     \<and> map_of (Topics (snap s')) topic = Some t'
     \<and> (\<forall>p. map_of (tmPartitions t') p =
          (if p \<in> set ps then map_option (\<lambda>pm. pm\<lparr>pmLeaderID := lead p, pmISR := [lead p]\<rparr>) (map_of (tmPartitions t) p)
           else map_of (tmPartitions t) p))"
  using assms(2,3,5,6)
proof (induction ps arbitrary: s t)
  case Nil
  then show ?case by simp
next
  case (Cons p ps)
  obtain pm where pm: "map_of (tmPartitions t) p = Some pm" using Cons.prems(4) by auto
  have p: "0 \<le> p" "- 1 \<le> lead p" using Cons.prems(2) by auto
  let ?t = "t\<lparr>tmPartitions := mput p (pm\<lparr>pmLeaderID := lead p, pmISR := [lead p]\<rparr>) (tmPartitions t)\<rparr>"
  obtain s1 a where s1: "SetPartitionLeader ap topic p (lead p) [lead p] s = (s1, Inr a)"
    "snap s1 = (snap s)\<lparr>Topics := mput topic ?t (Topics (snap s))\<rparr>"
    using leader [OF assms(1) p Cons.prems(3) pm, of "[lead p]"] by auto
  have "map_of (Topics (snap s1)) topic = Some ?t" "\<forall>q \<in> set ps. map_of (tmPartitions ?t) q \<noteq> None"
    using s1(2) Cons.prems(4) by auto
  from Cons.IH [OF _ _ this] Cons.prems(1,2) obtain s' t' where
    "initLeaders ap topic localID leaders ps s1 = (s', None)" "Brokers (snap s') = Brokers (snap s1)"
    "\<forall>name. name \<noteq> topic \<longrightarrow> map_of (Topics (snap s')) name = map_of (Topics (snap s1)) name"
    "map_of (Topics (snap s')) topic = Some t'"
    "\<forall>q. map_of (tmPartitions t') q =
        (if q \<in> set ps then map_option (\<lambda>pm. pm\<lparr>pmLeaderID := lead q, pmISR := [lead q]\<rparr>) (map_of (tmPartitions ?t) q)
         else map_of (tmPartitions ?t) q)"
    by auto
  then show ?case
    using s1 pm Cons.prems(1) assms(4) [of p] by (auto simp: Let_def)
qed

end

lemma map_of_map_id: "map_of (map (\<lambda>i. (i, f i)) xs) k = (if k \<in> set xs then Some (f k) else None)"
  by (induction xs) auto

lemma CreateTopic_effect:
  assumes "name \<noteq> []" "0 < n" "0 < rf"
  shows "\<exists>c a. CreateTopic (Apply tm) name n rf s = (c, Inr a)
    \<and> metadata c = (metadata s)\<lparr>Topics := mput name \<lparr>tmName = name, tmPartitions =
          map (\<lambda>i. (i, \<lparr>pmID = i, pmLeaderID = - 1, pmReplicas = [0..rf - 1], pmISR = [0..rf - 1]\<rparr>)) [0..n - 1],
          tmConfigs = []\<rparr> (Topics (metadata s))\<rparr>"
  using assms by (simp add: CreateTopic_def Let_def Apply_def noCommand_def validateCommand_def applyCommand_def)

definition visits_all :: "brokerIO \<Rightarrow> bool" where
  "visits_all env \<longleftrightarrow> (\<forall>xs. set (visit env xs) = set xs)"

definition leaderFor :: "brokerIO \<Rightarrow> Broker \<Rightarrow> int \<Rightarrow> int" where
  "leaderFor env b p = (let ids = liveBrokers env (LocalBrokerID b) (metadata (bController b))
                        in ids ! nat (p mod int (length ids)))"

lemma liveBrokers_members:
  assumes "visits_all env" "brokers_ok (Brokers md)"
  shows "liveBrokers env localID md \<noteq> []"
    and "i \<in> set (liveBrokers env localID md) \<Longrightarrow> isBrokerEligible (Brokers md) i
       \<or> i = localID \<and> (\<forall>j. \<not> isBrokerEligible (Brokers md) j)"
proof -
  let ?up = "map fst (filter (\<lambda>(i, b). \<not> bmFenced b) (Brokers md))"
  have up: "set ?up = {i. isBrokerEligible (Brokers md) i}"
  proof -
    have "i \<in> set ?up \<longleftrightarrow> (\<exists>b. map_of (Brokers md) i = Some b \<and> \<not> bmFenced b)" for i
      using assms(2) by (auto simp: brokers_ok_def image_iff)
    moreover have "isBrokerEligible (Brokers md) i \<longleftrightarrow> (\<exists>b. map_of (Brokers md) i = Some b \<and> \<not> bmFenced b)" for i
      by (simp add: isBrokerEligible_def split: option.split)
    ultimately show ?thesis unfolding set_eq_iff mem_Collect_eq by blast
  qed
  have v: "set (visit env ?up) = set ?up" using assms(1) by (simp add: visits_all_def)
  show "liveBrokers env localID md \<noteq> []" by (simp add: liveBrokers_def Let_def)
  show "i \<in> set (liveBrokers env localID md) \<Longrightarrow> isBrokerEligible (Brokers md) i
       \<or> i = localID \<and> (\<forall>j. \<not> isBrokerEligible (Brokers md) j)"
    using v up by (auto simp: liveBrokers_def Let_def split: if_splits)
qed

lemma liveBrokers_topic: "liveBrokers env localID (md\<lparr>Topics := ts\<rparr>) = liveBrokers env localID md"
  by (simp add: liveBrokers_def)

lemma leaderFor_member:
  assumes "visits_all env" "store_ok (bController b)" "0 \<le> p" "0 \<le> LocalBrokerID b"
  shows "0 \<le> leaderFor env b p"
    and "isBrokerEligible (Brokers (metadata (bController b))) (leaderFor env b p)
      \<or> leaderFor env b p = LocalBrokerID b
        \<and> (\<forall>j. \<not> isBrokerEligible (Brokers (metadata (bController b))) j)"
proof -
  let ?md = "metadata (bController b)" and ?ids = "liveBrokers env (LocalBrokerID b) (metadata (bController b))"
  have ok: "brokers_ok (Brokers ?md)" using assms(2) by (simp add: store_ok_def metadata_ok_def)
  note live = liveBrokers_members [OF assms(1) ok, where localID = "LocalBrokerID b"]
  have "0 < length ?ids" using live(1) by simp
  then have "p mod int (length ?ids) < int (length ?ids)" "0 \<le> p mod int (length ?ids)" by simp_all
  then have "leaderFor env b p \<in> set ?ids" by (simp add: leaderFor_def Let_def nat_less_iff)
  from live(2) [OF this] show "isBrokerEligible (Brokers ?md) (leaderFor env b p)
      \<or> leaderFor env b p = LocalBrokerID b \<and> (\<forall>j. \<not> isBrokerEligible (Brokers ?md) j)" .
  then show "0 \<le> leaderFor env b p" using eligible_nonneg [OF ok] assms(4) by auto
qed

text \<open>The creation itself: the topic is stored, then every partition is given its leader.\<close>

lemma EnsureTopicMetadata_creates:
  assumes "store_ok (bController b)" "visits_all env" "topic \<noteq> []"
    and "0 < DefaultPartitions b" "0 < DefaultReplicationFactor b" "0 \<le> LocalBrokerID b"
    and "map_of (Topics (metadata (bController b))) topic = None"
  obtains c t where "EnsureTopicMetadata env topic b = (b\<lparr>bController := c\<rparr>, Inr t)"
    "Brokers (metadata c) = Brokers (metadata (bController b))"
    "\<forall>name. name \<noteq> topic \<longrightarrow>
       map_of (Topics (metadata c)) name = map_of (Topics (metadata (bController b))) name"
    "map_of (Topics (metadata c)) topic = Some t"
    "\<forall>p. map_of (tmPartitions t) p = (if 0 \<le> p \<and> p < DefaultPartitions b
       then Some \<lparr>pmID = p, pmLeaderID = leaderFor env b p,
                  pmReplicas = [0..DefaultReplicationFactor b - 1], pmISR = [leaderFor env b p]\<rparr>
       else None)"
proof -
  let ?s = "bController b" and ?n = "DefaultPartitions b" and ?rf = "DefaultReplicationFactor b"
  let ?new = "map (\<lambda>i. (i, \<lparr>pmID = i, pmLeaderID = - 1, pmReplicas = [0..?rf - 1], pmISR = [0..?rf - 1]\<rparr>)) [0..?n - 1]"
  note ok = assms(1) and None = assms(7) and lead = leaderFor_member [OF assms(2,1) _ assms(6)]
  obtain c1 a where c1: "CreateTopic (Apply (tick env 0)) topic ?n ?rf ?s = (c1, Inr a)"
    "metadata c1 = (metadata ?s)\<lparr>Topics := mput topic \<lparr>tmName = topic, tmPartitions = ?new, tmConfigs = []\<rparr> (Topics (metadata ?s))\<rparr>"
    using CreateTopic_effect [OF assms(3-5)] by blast
  let ?t = "\<lparr>tmName = topic, tmPartitions = ?new, tmConfigs = []\<rparr>"
  let ?leaders = "assignInitialLeaders (topicOf topic (metadata c1)) (liveBrokers env (LocalBrokerID b) (metadata c1))"
  have leaders: "map_of ?leaders p = Some (leaderFor env b p)" if "0 \<le> p" "p < ?n" for p
    using that liveBrokers_members(1) [OF assms(2)] ok
    by (simp add: assignInitialLeaders_def topicOf_def c1(2) leaderFor_def Let_def comp_def map_of_map_id
        liveBrokers_topic store_ok_def metadata_ok_def)
  define lead' where "lead' p = (case map_of ?leaders p of None \<Rightarrow> LocalBrokerID b | Some l \<Rightarrow> l)" for p
  have lead': "lead' p = leaderFor env b p" if "0 \<le> p" "p < ?n" for p
    using leaders [OF that] by (simp add: lead'_def)
  have ps: "\<forall>p \<in> set [0..?n - 1]. 0 \<le> p \<and> - 1 \<le> lead' p" using lead' lead(1) by fastforce
  have top: "map_of (Topics (StoreSnapshot c1)) topic = Some ?t" by (simp add: StoreSnapshot_def c1(2))
  have all: "\<forall>p \<in> set [0..?n - 1]. map_of (tmPartitions ?t) p \<noteq> None" by (simp add: map_of_map_id)
  obtain c t where c: "initLeaders (Apply (tick env 0)) topic (LocalBrokerID b) ?leaders [0..?n - 1] c1 = (c, None)"
    "Brokers (metadata c) = Brokers (metadata c1)"
    "\<forall>name. name \<noteq> topic \<longrightarrow> map_of (Topics (metadata c)) name = map_of (Topics (metadata c1)) name"
    "map_of (Topics (metadata c)) topic = Some t"
    "\<forall>p. map_of (tmPartitions t) p =
        (if p \<in> set [0..?n - 1] then map_option (\<lambda>pm. pm\<lparr>pmLeaderID := lead' p, pmISR := [lead' p]\<rparr>) (map_of ?new p)
         else map_of ?new p)"
    using raft.initLeaders_effect [OF assms(3) _ ps lead'_def top all, of "tick env 0"] by (auto simp: StoreSnapshot_def)
  have ens: "EnsureTopicMetadata env topic b = (b\<lparr>bController := c\<rparr>, Inr t)"
    using None assms(3) c1(1) c(1,4) by (simp add: EnsureTopicMetadata_def StoreSnapshot_def topicOf_def Let_def)
  have "\<forall>p. map_of (tmPartitions t) p = (if 0 \<le> p \<and> p < ?n
      then Some \<lparr>pmID = p, pmLeaderID = leaderFor env b p, pmReplicas = [0..?rf - 1], pmISR = [leaderFor env b p]\<rparr>
      else None)"
    using c(5) lead' by (auto simp: map_of_map_id)
  with ens c(2-4) c1(2) show thesis by (intro that) auto
qed

text \<open>
  C32. A topic used for the first time. Asking for the metadata of a topic the controller does not
  know creates it: every one of the configured partitions gets the configured replicas and a leader,
  its only in-sync replica, chosen round robin from the brokers that are registered and not fenced,
  in whatever order these are visited, and the local broker when there is none. Brokers and other
  topics are untouched. For a known topic nothing is changed at all.
\<close>

theorem new_topic_leaders:
  assumes "controller_run NewRaftMetadataStore (bController b)" "visits_all env" "topic \<noteq> []"
    and "0 < DefaultPartitions b" "0 < DefaultReplicationFactor b" "0 \<le> LocalBrokerID b"
  shows "case map_of (Topics (metadata (bController b))) topic of
      Some t \<Rightarrow> EnsureTopicMetadata env topic b = (b, Inr t)
    | None \<Rightarrow> \<exists>c t. EnsureTopicMetadata env topic b = (b\<lparr>bController := c\<rparr>, Inr t)
        \<and> Brokers (metadata c) = Brokers (metadata (bController b))
        \<and> (\<forall>name. name \<noteq> topic \<longrightarrow>
              map_of (Topics (metadata c)) name = map_of (Topics (metadata (bController b))) name)
        \<and> map_of (Topics (metadata c)) topic = Some t
        \<and> (\<forall>p. map_of (tmPartitions t) p =
              (if 0 \<le> p \<and> p < DefaultPartitions b
               then Some \<lparr>pmID = p, pmLeaderID = leaderFor env b p,
                          pmReplicas = [0..DefaultReplicationFactor b - 1], pmISR = [leaderFor env b p]\<rparr>
               else None))
        \<and> (\<forall>p \<ge> 0. isBrokerEligible (Brokers (metadata c)) (leaderFor env b p)
              \<or> leaderFor env b p = LocalBrokerID b \<and> (\<forall>j. \<not> isBrokerEligible (Brokers (metadata c)) j))"
proof (cases "map_of (Topics (metadata (bController b))) topic")
  case (Some t)
  then show ?thesis using assms(3) by (simp add: EnsureTopicMetadata_def StoreSnapshot_def)
next
  case None
  have ok: "store_ok (bController b)" by (rule controller_run_ok [OF assms(1)])
  note lead = leaderFor_member(2) [OF assms(2) ok _ assms(6)]
  from EnsureTopicMetadata_creates [OF ok assms(2-6) None]
  obtain c t where "EnsureTopicMetadata env topic b = (b\<lparr>bController := c\<rparr>, Inr t)"
    "Brokers (metadata c) = Brokers (metadata (bController b))"
    "\<forall>name. name \<noteq> topic \<longrightarrow>
       map_of (Topics (metadata c)) name = map_of (Topics (metadata (bController b))) name"
    "map_of (Topics (metadata c)) topic = Some t"
    "\<forall>p. map_of (tmPartitions t) p = (if 0 \<le> p \<and> p < DefaultPartitions b
       then Some \<lparr>pmID = p, pmLeaderID = leaderFor env b p,
                  pmReplicas = [0..DefaultReplicationFactor b - 1], pmISR = [leaderFor env b p]\<rparr>
       else None)" .
  then show ?thesis
    unfolding None option.case using lead by (intro exI [of _ c] exI [of _ t]) simp
qed

theorem new_topic_leaders_witness:
  "\<exists>c t. EnsureTopicMetadata sample_env ''events'' sample_broker = (sample_broker\<lparr>bController := c\<rparr>, Inr t)
     \<and> map_option pmLeaderID (map_of (tmPartitions t) 0) = Some 0
     \<and> map_option pmLeaderID (map_of (tmPartitions t) 1) = Some 1"
proof -
  have "visits_all sample_env" by (simp add: visits_all_def sample_env_def)
  moreover have "leaderFor sample_env sample_broker 0 = 0" "leaderFor sample_env sample_broker 1 = 1"
    by (simp_all add: leaderFor_def liveBrokers_def sample_env_def small_cluster_eval)
  moreover have "map_of (Topics (metadata small_cluster)) ''events'' = None" by (simp add: small_cluster_eval)
  ultimately show ?thesis
    using new_topic_leaders [of sample_broker sample_env "''events''"] small_cluster_run by auto
qed

section \<open>Failover\<close>

definition electAll :: "int \<Rightarrow> string list \<Rightarrow> RaftMetadataStore \<Rightarrow> RaftMetadataStore" where
  "electAll tm names c = fold (\<lambda>topic c. fst (ElectTopicLeaders (Apply tm) StoreSnapshot topic c)) names c"

lemma bController_failoverTopic:
  "bController (failoverTopic env topic t b)
   = fst (ElectTopicLeaders (Apply (tick env 0)) StoreSnapshot topic (bController b))"
proof -
  have "bController (fold (\<lambda>(i, pm) b. if pmLeaderID pm = LocalBrokerID b
      then b\<lparr>bReplication := fst (SetRole (tick env 1) topic i ''leader'' (bReplication b))\<rparr> else b) ps b')
    = bController b'" for ps :: "(int, PartitionMetadata) gomap" and b' :: Broker
    by (induction ps arbitrary: b') auto
  then show ?thesis
    by (simp add: failoverTopic_def split: prod.split option.split)
qed

lemma bController_tryFailover:
  "bController (tryFailoverForWorker env l b) =
     (let c = fst (SetBrokerFence (Apply (tick env 0)) l True (bController b))
      in electAll (tick env 0) (mkeys (Topics (metadata c))) c)"
proof -
  have "bController (fold (\<lambda>(topic, t). failoverTopic env topic t) ts b')
      = electAll (tick env 0) (mkeys ts) (bController b')" for ts and b' :: Broker
    by (induction ts arbitrary: b') (auto simp: electAll_def bController_failoverTopic)
  then show ?thesis
    by (simp add: tryFailoverForWorker_def Let_def StoreSnapshot_def)
qed

lemma electAll_effect:
  assumes "store_ok c" "distinct names" "\<forall>name \<in> set names. map_of (Topics (metadata c)) name \<noteq> None"
  shows "store_ok (electAll tm names c) \<and> Brokers (metadata (electAll tm names c)) = Brokers (metadata c)
    \<and> (\<forall>name t. map_of (Topics (metadata c)) name = Some t \<longrightarrow>
         (\<exists>t'. map_of (Topics (metadata (electAll tm names c))) name = Some t'
            \<and> (\<forall>i. map_of (tmPartitions t') i = (if name \<in> set names
                 then map_option (elected (Brokers (metadata c))) (map_of (tmPartitions t) i)
                 else map_of (tmPartitions t) i))))"
  using assms
proof (induction names arbitrary: c)
  case Nil
  then show ?case by (simp add: electAll_def)
next
  case (Cons n names)
  obtain t where t: "map_of (Topics (metadata c)) n = Some t" using Cons.prems(3) by auto
  let ?c = "fst (ElectTopicLeaders (Apply tm) StoreSnapshot n c)"
  have md: "metadata_ok (StoreSnapshot c)" "map_of (Topics (StoreSnapshot c)) n = Some t"
    using Cons.prems(1) t by (auto simp: store_ok_def StoreSnapshot_def)
  obtain t' where e: "Brokers (metadata ?c) = Brokers (metadata c)"
    "\<forall>name. name \<noteq> n \<longrightarrow> map_of (Topics (metadata ?c)) name = map_of (Topics (metadata c)) name"
    "map_of (Topics (metadata ?c)) n = Some t'"
    "\<forall>i. map_of (tmPartitions t') i = map_option (elected (Brokers (metadata c))) (map_of (tmPartitions t) i)"
    using raft.ElectTopicLeaders_effect [OF md, of tm] by (auto simp: StoreSnapshot_def)
  have ok: "store_ok ?c" by (rule controller_step_ok [OF step_elect Cons.prems(1)])
  have dom: "\<forall>name \<in> set names. map_of (Topics (metadata ?c)) name \<noteq> None"
    using Cons.prems(2,3) e(2) by auto
  have fold: "electAll tm (n # names) c = electAll tm names ?c" by (simp add: electAll_def)
  have "distinct names" using Cons.prems(2) by simp
  note ih = Cons.IH [OF ok this dom, unfolded e(1)]
  show ?case
    unfolding fold
  proof (intro conjI allI impI)
    show "store_ok (electAll tm names ?c)" "Brokers (metadata (electAll tm names ?c)) = Brokers (metadata c)"
      using ih Cons.prems(2) e(1) by auto
    fix name u
    assume u: "map_of (Topics (metadata c)) name = Some u"
    show "\<exists>t'. map_of (Topics (metadata (electAll tm names ?c))) name = Some t'
        \<and> (\<forall>i. map_of (tmPartitions t') i = (if name \<in> set (n # names)
             then map_option (elected (Brokers (metadata c))) (map_of (tmPartitions u) i)
             else map_of (tmPartitions u) i))"
    proof (cases "name = n")
      case True
      then obtain t2 where "map_of (Topics (metadata (electAll tm names ?c))) name = Some t2"
        "\<forall>i. map_of (tmPartitions t2) i = map_of (tmPartitions t') i"
        using ih e(3) Cons.prems(2) by fastforce
      then show ?thesis using True e(4) u t by auto
    next
      case False
      then have "map_of (Topics (metadata ?c)) name = Some u" using e(2) u by simp
      with ih obtain t2 where "map_of (Topics (metadata (electAll tm names ?c))) name = Some t2"
        "\<forall>i. map_of (tmPartitions t2) i = (if name \<in> set names
           then map_option (elected (Brokers (metadata c))) (map_of (tmPartitions u) i)
           else map_of (tmPartitions u) i)"
        by blast
      then show ?thesis using False by (intro exI [of _ t2]) simp
    qed
  qed
qed

text \<open>What a failover leaves: the old leader fenced, and an election held for every partition.\<close>

lemma failover_metadata:
  assumes "store_ok (bController b)"
    and "map_of (Brokers (metadata (bController b))) leaderID = Some lb"
    and "md = metadata (bController b)" "md' = metadata (bController (tryFailoverForWorker env leaderID b))"
  shows "Brokers md' = mput leaderID (lb\<lparr>bmFenced := True\<rparr>) (Brokers md)"
    and "map_of (Topics md) topic = Some t \<Longrightarrow> map_of (tmPartitions t) i = Some p \<Longrightarrow>
      \<exists>t'. map_of (Topics md') topic = Some t' \<and> map_of (tmPartitions t') i = Some (elected (Brokers md') p)"
proof -
  let ?tm = "tick env 0"
  let ?c = "fst (SetBrokerFence (Apply ?tm) leaderID True (bController b))"
  have lb: "bmID lb = leaderID" "0 \<le> leaderID"
    using brokers_okD [OF _ assms(2)] assms(1) by (auto simp: store_ok_def metadata_ok_def)
  have c: "metadata ?c = md\<lparr>Brokers := mput leaderID (lb\<lparr>bmFenced := True\<rparr>) (Brokers md)\<rparr>"
    using raft.fence [of leaderID "bController b" lb ?tm True] lb assms(2,3) by (auto simp: StoreSnapshot_def)
  have ok1: "store_ok ?c" by (rule controller_commands_ok(5) [OF assms(1)])
  have names: "distinct (mkeys (Topics (metadata ?c)))"
    "\<forall>name \<in> set (mkeys (Topics (metadata ?c))). map_of (Topics (metadata ?c)) name \<noteq> None"
    using ok1 by (auto simp: store_ok_def metadata_ok_def)
  have md': "md' = metadata (electAll ?tm (mkeys (Topics (metadata ?c))) ?c)"
    by (simp add: assms(4) bController_tryFailover Let_def)
  note all = electAll_effect [OF ok1 names, of ?tm, folded md']
  show brokers: "Brokers md' = mput leaderID (lb\<lparr>bmFenced := True\<rparr>) (Brokers md)" using all c by simp
  assume part: "map_of (Topics md) topic = Some t" "map_of (tmPartitions t) i = Some p"
  have top: "map_of (Topics (metadata ?c)) topic = Some t" using part(1) c by simp
  then have mem: "topic \<in> set (mkeys (Topics (metadata ?c)))" by (metis map_of_SomeD list.set_map fst_conv image_eqI)
  from all top obtain t' where t': "map_of (Topics md') topic = Some t'"
    "\<forall>i. map_of (tmPartitions t') i = (if topic \<in> set (mkeys (Topics (metadata ?c)))
       then map_option (elected (Brokers (metadata ?c))) (map_of (tmPartitions t) i)
       else map_of (tmPartitions t) i)"
    by blast
  have "Brokers (metadata ?c) = Brokers md'" using brokers c by simp
  then have "map_of (tmPartitions t') i = Some (elected (Brokers md') p)"
    using t'(2) mem part(2) by (simp only: if_True option.map)
  with t'(1) show "\<exists>t'. map_of (Topics md') topic = Some t' \<and> map_of (tmPartitions t') i = Some (elected (Brokers md') p)"
    by blast
qed

text \<open>
  C30. Failover. When the replication workers give up on a registered broker, it is fenced, no other
  broker's state changes, and in every partition of every topic whose leader is not available any
  more the lead goes to the first replica that is registered and not fenced, with exactly such
  replicas in the ISR, or to nobody when there is none. Partitions with an available leader keep it.
\<close>

theorem failover_moves_leadership:
  assumes "controller_run NewRaftMetadataStore (bController b)"
    and "map_of (Brokers (metadata (bController b))) leaderID = Some lb"
    and "md = metadata (bController b)" "md' = metadata (bController (tryFailoverForWorker env leaderID b))"
  shows "\<not> isBrokerEligible (Brokers md') leaderID
     \<and> (\<forall>i. i \<noteq> leaderID \<longrightarrow> map_of (Brokers md') i = map_of (Brokers md) i)
     \<and> (\<forall>topic t i p. map_of (Topics md) topic = Some t \<and> map_of (tmPartitions t) i = Some p \<longrightarrow>
          (\<exists>t' p'. map_of (Topics md') topic = Some t' \<and> map_of (tmPartitions t') i = Some p'
             \<and> pmReplicas p' = pmReplicas p
             \<and> (if isBrokerEligible (Brokers md') (pmLeaderID p) then p' = p
                else case filter (isBrokerEligible (Brokers md')) (pmReplicas p) of
                    [] \<Rightarrow> pmLeaderID p' = - 1 \<and> pmISR p' = pmISR p
                  | r # rs \<Rightarrow> pmLeaderID p' = r \<and> pmISR p' = r # rs)))"
proof -
  have ok: "store_ok (bController b)" by (rule controller_run_ok [OF assms(1)])
  note brokers = failover_metadata(1) [OF ok assms(2-4)]
  have repl: "pmReplicas (elected (Brokers md') p) = pmReplicas p" for p by (simp add: elected_def)
  have "\<exists>t' p'. map_of (Topics md') topic = Some t' \<and> map_of (tmPartitions t') i = Some p'
      \<and> pmReplicas p' = pmReplicas p
      \<and> (if isBrokerEligible (Brokers md') (pmLeaderID p) then p' = p
         else case filter (isBrokerEligible (Brokers md')) (pmReplicas p) of
             [] \<Rightarrow> pmLeaderID p' = - 1 \<and> pmISR p' = pmISR p
           | r # rs \<Rightarrow> pmLeaderID p' = r \<and> pmISR p' = r # rs)"
    if part: "map_of (Topics md) topic = Some t" "map_of (tmPartitions t) i = Some p" for topic t i p
  proof -
    obtain t' where "map_of (Topics md') topic = Some t'" "map_of (tmPartitions t') i = Some (elected (Brokers md') p)"
      using failover_metadata(2) [OF ok assms(2-4) part] by blast
    then show ?thesis using repl elected_cases by (intro exI conjI)
  qed
  moreover have "\<not> isBrokerEligible (Brokers md') leaderID" by (simp add: brokers isBrokerEligible_def)
  moreover have "\<forall>i. i \<noteq> leaderID \<longrightarrow> map_of (Brokers md') i = map_of (Brokers md) i" by (simp add: brokers)
  ultimately show ?thesis by blast
qed

theorem failover_moves_leadership_witness:
  "\<exists>t p. map_of (Topics (metadata (bController (tryFailoverForWorker sample_env 0 sample_broker)))) ''orders'' = Some t
     \<and> map_of (tmPartitions t) 0 = Some p \<and> pmLeaderID p = 1 \<and> pmISR p = [1, 2]"
proof -
  let ?md' = "metadata (bController (tryFailoverForWorker sample_env 0 sample_broker))"
  have lb: "map_of (Brokers (metadata (bController sample_broker))) 0 = Some
      \<lparr>bmID = 0, bmHost = ''10.0.0.1'', bmPort = 9092, bmEpoch = 1, bmLastHeartbeat = 100 * Second, bmFenced = False\<rparr>"
    by (simp add: small_cluster_eval)
  have run: "controller_run NewRaftMetadataStore (bController sample_broker)" using small_cluster_run by simp
  note f = failover_moves_leadership [OF run lb refl refl, of sample_env]
  have el: "\<not> isBrokerEligible (Brokers ?md') 0" "isBrokerEligible (Brokers ?md') 1" "isBrokerEligible (Brokers ?md') 2"
    using f by (simp_all add: isBrokerEligible_def small_cluster_eval)
  obtain t where t: "map_of (Topics (metadata small_cluster)) ''orders'' = Some t"
    "map_of (tmPartitions t) 0 = Some \<lparr>pmID = 0, pmLeaderID = 0, pmReplicas = [0, 1, 2], pmISR = [0]\<rparr>"
    by (simp add: small_cluster_eval)
  have "\<exists>t' p'. map_of (Topics ?md') ''orders'' = Some t' \<and> map_of (tmPartitions t') 0 = Some p'
      \<and> (case filter (isBrokerEligible (Brokers ?md')) [0, 1, 2] of
            [] \<Rightarrow> pmLeaderID p' = - 1 | r # rs \<Rightarrow> pmLeaderID p' = r \<and> pmISR p' = r # rs)"
    using f [THEN conjunct2, THEN conjunct2, rule_format, of "''orders''" t 0] t el(1) by auto
  then show ?thesis using el by auto
qed

section \<open>Roles and workers\<close>

definition roleAt :: "string \<Rightarrow> int \<Rightarrow> Broker \<Rightarrow> string option" where
  "roleAt topic i b = map_option role (mget2 (partitions (bReplication b)) topic i)"

definition workerAt :: "string \<Rightarrow> int \<Rightarrow> Broker \<Rightarrow> (int \<times> string) option" where
  "workerAt topic i b =
     map_option (\<lambda>w. (rwLeaderID w, rwLeaderAddr w)) (map_of (workers (bRuntime b)) (workerKey topic i))"

text \<open>The role and the worker a partition should have, given its metadata.\<close>

definition placed :: "string \<Rightarrow> int \<Rightarrow> PartitionMetadata \<Rightarrow> Broker \<Rightarrow> bool" where
  "placed topic i pm b \<longleftrightarrow>
     (if pmLeaderID pm = LocalBrokerID b then roleAt topic i b = Some ''leader'' \<and> workerAt topic i b = None
      else if LocalBrokerID b \<notin> set (pmReplicas pm) \<or> pmLeaderID pm < 0 then workerAt topic i b = None
      else roleAt topic i b = Some ''follower''
         \<and> (case map_of (peers (bRuntime b)) (pmLeaderID pm) of
              None \<Rightarrow> True
            | Some peer \<Rightarrow> 0 < LocalBrokerID b \<longrightarrow>
                workerAt topic i b = Some (pmLeaderID pm, peerAddr peer)))"

lemma ensurePartition_frame:
  assumes "ensurePartition t p m = (m1, ps)"
  shows "mget2 (partitions m1) t p = Some ps"
    "t' \<noteq> t \<or> p' \<noteq> p \<Longrightarrow> mget2 (partitions m1) t' p' = mget2 (partitions m) t' p'"
  using assms by (auto simp: ensurePartition_def putPartition_def Let_def split: option.splits)

lemma SetRole_frame:
  assumes "r = ''leader'' \<or> r = ''follower''"
  shows "map_option role (mget2 (partitions (fst (SetRole tm t p r m))) t p) = Some r"
    "t' \<noteq> t \<or> p' \<noteq> p \<Longrightarrow> mget2 (partitions (fst (SetRole tm t p r m))) t' p' = mget2 (partitions m) t' p'"
  using assms ensurePartition_frame(2) [of t p m _ _ t' p']
  by (auto simp: SetRole_def Let_def recomputeLocked_simps split: prod.split)

lemma BootstrapOffset_frame:
  "map_option role (mget2 (partitions m) t p) = Some r \<Longrightarrow>
     map_option role (mget2 (partitions (BootstrapOffset tm t p off m)) t p) = Some r"
  "t' \<noteq> t \<or> p' \<noteq> p \<Longrightarrow> mget2 (partitions (BootstrapOffset tm t p off m)) t' p' = mget2 (partitions m) t' p'"
proof -
  obtain m1 ps where e: "ensurePartition t p m = (m1, ps)" by force
  show "map_option role (mget2 (partitions (BootstrapOffset tm t p off m)) t p) = Some r"
    if "map_option role (mget2 (partitions m) t p) = Some r"
    using that by (auto simp: BootstrapOffset_def ensurePartition_def Let_def recomputeLocked_simps)
  show "t' \<noteq> t \<or> p' \<noteq> p \<Longrightarrow> mget2 (partitions (BootstrapOffset tm t p off m)) t' p' = mget2 (partitions m) t' p'"
    using ensurePartition_frame(2) [OF e, of t' p'] e by (auto simp: BootstrapOffset_def Let_def recomputeLocked_simps)
qed

lemma assumeRole_simps [simp]:
  "LocalBrokerID (assumeRole env t p r off b) = LocalBrokerID b"
  "bRuntime (assumeRole env t p r off b) = bRuntime b" "bStorage (assumeRole env t p r off b) = bStorage b"
  by (simp_all add: assumeRole_def)

lemma assumeRole_role:
  assumes "r = ''leader'' \<or> r = ''follower''"
  shows "roleAt t' p' (assumeRole env t p r off b) = (if t' = t \<and> p' = p then Some r else roleAt t' p' b)"
  using BootstrapOffset_frame(1) [OF SetRole_frame(1) [OF assms]]
    BootstrapOffset_frame(2) SetRole_frame(2) [OF assms]
  by (auto simp: roleAt_def assumeRole_def)

lemma workerKey_inj:
  assumes "0 \<le> i" "0 \<le> j" "workerKey t i = workerKey u j"
  shows "t = u \<and> i = j"
proof -
  have sep: "CHR ''/'' \<notin> set (Itoa i)" "CHR ''/'' \<notin> set (Itoa j)"
    using Itoa_nonneg_chars assms(1,2) by (fastforce simp: is_digit_def)+
  have "LastIndex (t @ CHR ''/'' # Itoa i) ''/'' = Some (length t)"
    "LastIndex (u @ CHR ''/'' # Itoa j) ''/'' = Some (length u)"
    using sep by simp_all
  then have "length t = length u" using assms(3) by (simp add: workerKey_def)
  then have "t = u" "Itoa i = Itoa j" using assms(3) by (simp_all add: workerKey_def)
  moreover have "i = j" using calculation(2) assms(1,2) digits_val_digits_base [of "nat i"] digits_val_digits_base [of "nat j"]
    by (simp add: Itoa_def)
  ultimately show ?thesis by simp
qed

lemma stopWorker_simps [simp]:
  "LocalBrokerID (stopWorker t p b) = LocalBrokerID b" "bStorage (stopWorker t p b) = bStorage b"
  "peers (bRuntime (stopWorker t p b)) = peers (bRuntime b)" "roleAt t' p' (stopWorker t p b) = roleAt t' p' b"
  by (simp_all add: stopWorker_def roleAt_def)

lemma ensureWorker_simps [simp]:
  "LocalBrokerID (ensureWorker t p l a off b) = LocalBrokerID b" "bStorage (ensureWorker t p l a off b) = bStorage b"
  "peers (bRuntime (ensureWorker t p l a off b)) = peers (bRuntime b)"
  "roleAt t' p' (ensureWorker t p l a off b) = roleAt t' p' b"
  by (simp_all add: ensureWorker_def roleAt_def Let_def split: option.split sum.split)

lemma workerAt_assumeRole [simp]: "workerAt t' p' (assumeRole env t p r off b) = workerAt t' p' b"
  by (simp add: workerAt_def)

lemma workerAt_stopWorker:
  "0 \<le> p \<Longrightarrow> 0 \<le> p' \<Longrightarrow>
   workerAt t' p' (stopWorker t p b) = (if t' = t \<and> p' = p then None else workerAt t' p' b)"
  using workerKey_inj [of p' p t' t] by (auto simp: workerAt_def stopWorker_def)

lemma workerAt_ensureWorker:
  assumes "0 \<le> p" "0 \<le> p'"
  shows "t' \<noteq> t \<or> p' \<noteq> p \<Longrightarrow> workerAt t' p' (ensureWorker t p l a off b) = workerAt t' p' b"
    and "0 < LocalBrokerID b \<Longrightarrow> t \<noteq> [] \<Longrightarrow> 0 \<le> off \<Longrightarrow> workerAt t p (ensureWorker t p l a off b) = Some (l, a)"
proof -
  show "workerAt t' p' (ensureWorker t p l a off b) = workerAt t' p' b" if "t' \<noteq> t \<or> p' \<noteq> p"
    using that workerKey_inj [OF assms(2,1), of t' t]
    by (auto simp: workerAt_def ensureWorker_def Let_def split: option.split sum.split)
  show "workerAt t p (ensureWorker t p l a off b) = Some (l, a)" if "0 < LocalBrokerID b" "t \<noteq> []" "0 \<le> off"
    using that assms(1)
    by (simp add: workerAt_def ensureWorker_def NewFollowerWorker_def Let_def split: option.split)
qed

definition offsets_sane :: "Broker \<Rightarrow> bool" where
  "offsets_sane b \<longleftrightarrow> (\<forall>t p. - 1 \<le> LastOffset t p (bStorage b) \<and> LastOffset t p (bStorage b) < 2 ^ 63 - 1)"

lemma reconcilePartition_placed:
  assumes "t \<noteq> []" "0 \<le> i" "offsets_sane b"
  shows "placed t i pm (reconcilePartition env t i pm b)"
proof -
  have "- 1 \<le> LastOffset t i (bStorage b)" "LastOffset t i (bStorage b) < 2 ^ 63 - 1"
    using assms(3) by (simp_all only: offsets_sane_def)
  then have "0 \<le> iadd (LastOffset t i (bStorage b)) 1"
    by (simp add: iadd_id int64_ok_def)
  then show ?thesis
    using assms(1,2) workerAt_ensureWorker(2) [OF assms(2,2)]
    by (auto simp: placed_def reconcilePartition_def Let_def assumeRole_role workerAt_stopWorker split: option.split)
qed

lemma reconcilePartition_simps [simp]:
  "LocalBrokerID (reconcilePartition env t i pm b) = LocalBrokerID b"
  "bStorage (reconcilePartition env t i pm b) = bStorage b"
  "peers (bRuntime (reconcilePartition env t i pm b)) = peers (bRuntime b)"
  by (simp_all add: reconcilePartition_def Let_def split: option.split)

lemma reconcilePartition_other:
  assumes "0 \<le> i" "0 \<le> j" "u \<noteq> t \<or> j \<noteq> i"
  shows "placed u j pm' (reconcilePartition env t i pm b) \<longleftrightarrow> placed u j pm' b"
proof -
  have "roleAt u j (reconcilePartition env t i pm b) = roleAt u j b"
    using assms(3) by (auto simp: reconcilePartition_def Let_def assumeRole_role split: option.split)
  moreover have "workerAt u j (reconcilePartition env t i pm b) = workerAt u j b"
    using assms(3) workerAt_ensureWorker(1) [OF assms(1,2,3)]
    by (auto simp: reconcilePartition_def Let_def workerAt_stopWorker [OF assms(1,2)] split: option.split)
  ultimately show ?thesis by (simp only: placed_def reconcilePartition_simps)
qed

lemma fold_reconcile_placed:
  assumes "offsets_sane b" "distinct (map (\<lambda>(t, i, pm). (t, i)) xs)" "\<forall>(t, i, pm) \<in> set xs. t \<noteq> [] \<and> 0 \<le> i"
  shows "\<forall>(t, i, pm) \<in> set xs. placed t i pm (fold (\<lambda>(t, i, pm). reconcilePartition env t i pm) xs b)"
  using assms(2,3)
proof (induction xs rule: rev_induct)
  case (snoc x xs)
  obtain t i pm where x: "x = (t, i, pm)" by (cases x)
  let ?b = "fold (\<lambda>(t, i, pm). reconcilePartition env t i pm) xs b"
  have "bStorage ?b = bStorage b" by (induction xs rule: rev_induct) auto
  then have "offsets_sane ?b" using assms(1) by (simp add: offsets_sane_def)
  then have last: "placed t i pm (reconcilePartition env t i pm ?b)"
    using snoc.prems(2) x by (intro reconcilePartition_placed) auto
  have "placed u j pm' (reconcilePartition env t i pm ?b)" if "(u, j, pm') \<in> set xs" for u j pm'
  proof -
    have "u \<noteq> t \<or> j \<noteq> i" using that snoc.prems(1) x by force
    moreover have "0 \<le> i" "0 \<le> j" using that snoc.prems(2) x by auto
    moreover have "placed u j pm' ?b" using that snoc by auto
    ultimately show ?thesis using reconcilePartition_other by blast
  qed
  then show ?case using last x by auto
qed simp

lemma topicPartitions_keys:
  assumes "metadata_ok md"
  shows "distinct (map (\<lambda>(t, i, pm). (t, i)) (topicPartitions md))"
    and "\<forall>(t, i, pm) \<in> set (topicPartitions md). t \<noteq> [] \<and> 0 \<le> i"
    and "map_of (Topics md) topic = Some t \<Longrightarrow> map_of (tmPartitions t) i = Some pm \<Longrightarrow>
      (topic, i, pm) \<in> set (topicPartitions md)"
proof -
  have ts: "mwf (Topics md)" "\<forall>(name, t) \<in> set (Topics md). name \<noteq> [] \<and> partitions_ok (tmPartitions t)"
    using assms by (auto simp: metadata_ok_def)
  have "distinct (map (\<lambda>(t, i, pm). (t, i))
      (concat (map (\<lambda>(topic, t). map (\<lambda>(i, pm). (topic, i, pm)) (tmPartitions t)) ts)))"
    if "mwf ts" "\<forall>(name, t) \<in> set ts. partitions_ok (tmPartitions t)" for ts :: "(string, TopicMetadata) gomap"
    using that
  proof (induction ts)
    case (Cons x ts)
    obtain name t where x: "x = (name, t)" by force
    have "map (\<lambda>(i, pm). (name, i)) (tmPartitions t) = map (Pair name) (mkeys (tmPartitions t))"
      by (simp add: case_prod_unfold comp_def)
    moreover have "mwf (tmPartitions t)" using Cons.prems(2) x by (simp add: partitions_ok_def)
    ultimately have "distinct (map (\<lambda>(i, pm). (name, i)) (tmPartitions t))"
      by (simp only: distinct_map [of "Pair name"]) (simp add: inj_on_def)
    then show ?case using Cons x by (force simp: comp_def case_prod_unfold)
  qed simp
  then show "distinct (map (\<lambda>(t, i, pm). (t, i)) (topicPartitions md))"
    using ts by (auto simp: topicPartitions_def)
  show "\<forall>(t, i, pm) \<in> set (topicPartitions md). t \<noteq> [] \<and> 0 \<le> i"
    using ts(2) by (fastforce simp: topicPartitions_def partitions_ok_def)
  show "map_of (Topics md) topic = Some t \<Longrightarrow> map_of (tmPartitions t) i = Some pm \<Longrightarrow>
      (topic, i, pm) \<in> set (topicPartitions md)"
    by (force simp: topicPartitions_def dest: map_of_SomeD)
qed

lemma reconcileRoles_frame:
  "bStorage (reconcileRoles env b) = bStorage b"
  "LocalBrokerID (reconcileRoles env b) = LocalBrokerID b"
  "peers (bRuntime (reconcileRoles env b)) = peers (bRuntime b)"
proof -
  have "bStorage (fold (\<lambda>(t, i, pm). reconcilePartition env t i pm) xs b) = bStorage b
      \<and> LocalBrokerID (fold (\<lambda>(t, i, pm). reconcilePartition env t i pm) xs b) = LocalBrokerID b
      \<and> peers (bRuntime (fold (\<lambda>(t, i, pm). reconcilePartition env t i pm) xs b)) = peers (bRuntime b)" for xs b
    by (induction xs rule: rev_induct) auto
  then show "bStorage (reconcileRoles env b) = bStorage b"
    "LocalBrokerID (reconcileRoles env b) = LocalBrokerID b"
    "peers (bRuntime (reconcileRoles env b)) = peers (bRuntime b)"
    by (simp_all add: reconcileRoles_def Let_def HeartbeatSelf_def)
qed

text \<open>
  C31. Roles follow the metadata. One pass of the reconciliation gives the broker, for every partition
  of every topic of the metadata, the role the metadata names: leader and no replication worker where
  it is the leader; follower where it is a replica of another leader, with a worker that fetches from
  exactly that leader's address when the leader is a known peer (and the own id is positive, which
  workers require); no worker where it holds no replica or there is no leader. Identity, peers and
  stored records stay as they were.
\<close>

theorem roles_follow_metadata:
  assumes "controller_run NewRaftMetadataStore (bController b)" "offsets_sane b"
    and "map_of (Topics (metadata (bController b))) topic = Some t" "map_of (tmPartitions t) i = Some pm"
  shows "placed topic i pm (reconcileRoles env b) \<and> LocalBrokerID (reconcileRoles env b) = LocalBrokerID b
     \<and> peers (bRuntime (reconcileRoles env b)) = peers (bRuntime b) \<and> bStorage (reconcileRoles env b) = bStorage b"
proof -
  let ?b = "HeartbeatSelf env b"
  have ok: "metadata_ok (metadata (bController ?b))"
    using controller_commands_ok(3) [OF controller_run_ok [OF assms(1)]] by (simp add: HeartbeatSelf_def store_ok_def)
  have "Topics (metadata (bController ?b)) = Topics (metadata (bController b))"
    by (auto simp: HeartbeatSelf_def HeartbeatBroker_def Apply_def noCommand_def validateCommand_def
        applyCommand_def applyHeartbeat_def Let_def split: option.split)
  then have mem: "(topic, i, pm) \<in> set (topicPartitions (metadata (bController ?b)))"
    using topicPartitions_keys(3) [OF ok] assms(3,4) by simp
  have "offsets_sane ?b" using assms(2) by (simp add: offsets_sane_def HeartbeatSelf_def)
  from fold_reconcile_placed [OF this topicPartitions_keys(1,2) [OF ok], of env] mem
  have "placed topic i pm (reconcileRoles env b)" by (auto simp: reconcileRoles_def Let_def StoreSnapshot_def)
  then show ?thesis by (simp add: reconcileRoles_frame)
qed


theorem roles_follow_metadata_witness:
  "roleAt ''orders'' 0 (reconcileRoles sample_env sample_broker) = Some ''follower''
     \<and> workerAt ''orders'' 0 (reconcileRoles sample_env sample_broker) = Some (0, ''10.0.0.1:9092'')"
proof -
  let ?pm = "\<lparr>pmID = 0, pmLeaderID = 0, pmReplicas = [0, 1, 2], pmISR = [0]\<rparr>"
  obtain t where t: "map_of (Topics (metadata small_cluster)) ''orders'' = Some t" "map_of (tmPartitions t) 0 = Some ?pm"
    by (simp add: small_cluster_eval)
  have "offsets_sane sample_broker"
    by (simp add: offsets_sane_def LastOffset_def sample_storage_def newStorageRecord_def)
  then have "placed ''orders'' 0 ?pm (reconcileRoles sample_env sample_broker)"
    using roles_follow_metadata [of sample_broker "''orders''" t 0 ?pm sample_env] small_cluster_run t by simp
  then show ?thesis by (simp add: placed_def reconcileRoles_frame sample_peers)
qed

end
