(* ===== verification/Handler_Props.thy ===== *)
theory Handler_Props
  imports Handler Broker_Props
begin

text \<open>
  What the handlers guarantee to clients: the invariant of the whole broker, which every request
  and every background step keeps, and the effect of \<open>CONSUME\<close>, \<open>PRODUCE\<close> and \<open>COMMIT\<close>.
\<close>

section \<open>The invariant of a broker\<close>

text \<open>
  The invariants of all components. The controller's state is one its operations reach from the
  start; the two state files agree with the memory.
\<close>

definition broker_ok :: "Broker \<Rightarrow> bool" where
  "broker_ok b \<longleftrightarrow> controller_run NewRaftMetadataStore (bController b) \<and> manager_ok (bReplication b)
     \<and> groups_inv good_file_io (cGroups (bCoordinator b))
     \<and> offsets_synced good_file_io (cOffsets (bCoordinator b)) \<and> durable (bStorage b)"

text \<open>Working disks, instants that 64 bits of milliseconds hold, other goroutines that keep to the rules.\<close>

definition env_ok :: "brokerIO \<Rightarrow> bool" where
  "env_ok env \<longleftrightarrow> file_io_ok (stateIO env) \<and> io_ok (storeIO env) \<and> polls_ok (polls env)
     \<and> (\<forall>n. int64_ok (time_UnixMilli (tick env n)))"

text \<open>What a record must satisfy for the log files to hold it and to be found again.\<close>

definition record_fits :: "Request \<Rightarrow> Broker \<Rightarrow> bool" where
  "record_fits req b \<longleftrightarrow>
     (case Args req of
        topic # msg # _ \<Rightarrow> plain_topic topic \<and> recoverable topic 0 \<and> (\<forall>v \<in> set (SplitN msg '':'' 2). value_ok v)
          \<and> (\<forall>p. nextAt (bStorage b) topic p < 2 ^ 63 - 1)
      | _ \<Rightarrow> True)"

definition request_ok :: "Request \<Rightarrow> Broker \<Rightarrow> bool" where
  "request_ok req b \<longleftrightarrow> room (cGroups (bCoordinator b)) \<and> (Command req = ''PRODUCE'' \<longrightarrow> record_fits req b)"

lemma file_io_ok_good: "file_io_ok env \<Longrightarrow> env = good_file_io"
  by (cases env) (simp add: file_io_ok_def good_file_io_def)

named_theorems broker_keep \<open>steps that keep the invariant of the broker\<close>

lemma broker_ok_controller [broker_keep]:
  "broker_ok b \<Longrightarrow> controller_run (bController b) c \<Longrightarrow> broker_ok (b\<lparr>bController := c\<rparr>)"
  by (auto simp: broker_ok_def)

lemma manager_run_ok: "manager_step\<^sup>*\<^sup>* m m' \<Longrightarrow> manager_ok m \<Longrightarrow> manager_ok m' \<and> rcfg m' = rcfg m"
  by (induction rule: rtranclp_induct) (auto dest: manager_step_ok)

lemma broker_ok_manager: "broker_ok b \<Longrightarrow> manager_ok m \<Longrightarrow> broker_ok (b\<lparr>bReplication := m\<rparr>)"
  by (auto simp: broker_ok_def)

lemma broker_ok_groups [broker_keep]:
  "broker_ok b \<Longrightarrow> group_step good_file_io (cGroups (bCoordinator b)) gm \<Longrightarrow> broker_ok (setGroups gm b)"
  using group_step_inv by (auto simp: broker_ok_def setGroups_def)

lemma broker_ok_offsets:
  "broker_ok b \<Longrightarrow> int64_ok p \<Longrightarrow> int64_ok v \<Longrightarrow>
   broker_ok (setOffsets (Commit good_file_io g t p v (cOffsets (bCoordinator b))) b)"
  using offsets_synced_Commit by (auto simp: broker_ok_def setOffsets_def)

lemma broker_okD:
  assumes "broker_ok b"
  shows "controller_run NewRaftMetadataStore (bController b)" "store_ok (bController b)"
    "manager_ok (bReplication b)" "groups_ok (cGroups (bCoordinator b))" "durable (bStorage b)"
  using assms controller_run_ok by (auto simp: broker_ok_def groups_inv_def)

section \<open>Steps of the controller\<close>

lemma controller_run_fst:
  "controller_run c (fst (CreateTopic (Apply tm) name n rf c))"
  "controller_run c (fst (RegisterBroker (Apply tm) tm i host port epoch c))"
  "controller_run c (fst (HeartbeatBroker (Apply tm) i c))"
  "controller_run c (fst (SetPartitionLeader (Apply tm) topic i l isr c))"
  "controller_run c (fst (SetBrokerFence (Apply tm) i f c))"
  "controller_run c (fst (ReconcileBrokerHealth (Apply tm) StoreSnapshot tm timeout c))"
  "controller_run c (fst (ElectTopicLeaders (Apply tm) StoreSnapshot topic c))"
  by (intro r_into_rtranclp controller_step.intros)+

lemma initLeaders_run: "controller_run s (fst (initLeaders (Apply tm) topic l leaders ps s))"
proof (induction ps arbitrary: s)
  case (Cons p ps)
  show ?case
  proof (cases "SetPartitionLeader (Apply tm) topic p (case map_of leaders p of None \<Rightarrow> l | Some l \<Rightarrow> l)
      [case map_of leaders p of None \<Rightarrow> l | Some l \<Rightarrow> l] s")
    case (Pair s' r)
    then have "controller_run s s'" by (metis controller_run_fst(4) fst_conv)
    then show ?thesis using Pair Cons.IH [of s'] by (auto simp: Let_def split: sum.split)
  qed
qed simp

lemma EnsureTopicMetadata_run:
  assumes "EnsureTopicMetadata env topic b = (b', r)"
  obtains c where "b' = b\<lparr>bController := c\<rparr>" "controller_run (bController b) c"
proof (cases "topic = [] \<or> map_of (Topics (StoreSnapshot (bController b))) topic \<noteq> None")
  case True
  then have "b' = b" using assms by (auto simp: EnsureTopicMetadata_def split: if_splits)
  then show thesis using that [of "bController b"] by simp
next
  case False
  obtain c1 r1 where c1: "CreateTopic (Apply (tick env 0)) topic (DefaultPartitions b) (DefaultReplicationFactor b)
      (bController b) = (c1, r1)" by force
  have run1: "controller_run (bController b) c1" by (metis c1 controller_run_fst(1) fst_conv)
  show thesis
  proof (cases r1)
    case (Inl e)
    then have "b' = b\<lparr>bController := c1\<rparr>" using assms False c1 by (auto simp: EnsureTopicMetadata_def)
    then show thesis using that run1 by blast
  next
    case (Inr a)
    obtain c2 e where c2: "initLeaders (Apply (tick env 0)) topic (LocalBrokerID b)
        (assignInitialLeaders (topicOf topic (StoreSnapshot c1)) (liveBrokers env (LocalBrokerID b) (StoreSnapshot c1)))
        [0..DefaultPartitions b - 1] c1 = (c2, e)" by force
    have "controller_run c1 c2" by (metis c2 initLeaders_run fst_conv)
    with run1 have "controller_run (bController b) c2" by (rule rtranclp_trans)
    moreover have "b' = b\<lparr>bController := c2\<rparr>"
      using assms False c1 c2 Inr by (cases e) (auto simp: EnsureTopicMetadata_def Let_def)
    ultimately show thesis using that by blast
  qed
qed

lemma EnsureTopicMetadata_ok: "broker_ok b \<Longrightarrow> EnsureTopicMetadata env topic b = (b', r) \<Longrightarrow> broker_ok b'"
  by (metis EnsureTopicMetadata_run broker_ok_controller)

section \<open>Requests keep the invariant\<close>

lemma intArg_split:
  "P (intArg req i field stop go_on) \<longleftrightarrow>
     (Atoi (Args req ! i) = None \<longrightarrow> P (stop (badRequest req (''invalid '' @ field))))
   \<and> (\<forall>n. Atoi (Args req ! i) = Some n \<longrightarrow> P (go_on n))"
  by (auto simp: intArg_def ParseInt_def split: option.splits)

lemma intArg_split_asm:
  "P (intArg req i field stop go_on) \<longleftrightarrow>
     \<not> (Atoi (Args req ! i) = None \<and> \<not> P (stop (badRequest req (''invalid '' @ field)))
      \<or> (\<exists>n. Atoi (Args req ! i) = Some n \<and> \<not> P (go_on n)))"
  using intArg_split [of P] by metis

lemmas intArg_splits = intArg_split intArg_split_asm

lemma manager_ok_fst:
  assumes "manager_ok m"
  shows "manager_ok (fst (AckReplica seen tm t p i offset m))" "manager_ok (fst (SetRole tm t p newRole m))"
    "manager_ok (fst (HighWatermark tm t p m))" "manager_ok (fst (IsLeader t p m))"
    "manager_ok (fst (ManagerStatus tm t p m))"
  using manager_step_ok [OF manager_step.ack assms] manager_step_ok [OF manager_step.set_role assms]
    manager_step_ok [OF manager_step.high_watermark assms] manager_step_ok [OF manager_step.is_leader assms]
    manager_step_ok [OF manager_step.status assms] by blast+

lemma manager_ok_result:
  assumes "manager_ok m"
  shows "AckReplica seen tm t p i offset m = (m', e) \<Longrightarrow> manager_ok m'"
    "SetRole tm t p newRole m = (m', e) \<Longrightarrow> manager_ok m'" "HighWatermark tm t p m = (m', hw) \<Longrightarrow> manager_ok m'"
    "IsLeader t p m = (m', l) \<Longrightarrow> manager_ok m'" "ManagerStatus tm t p m = (m', st) \<Longrightarrow> manager_ok m'"
  using manager_ok_fst [OF assms] by (metis fst_conv)+

lemma group_handlers_ok:
  assumes "broker_ok b" "env_ok env" "room (cGroups (bCoordinator b))"
  shows "broker_ok (fst (handleJoin env req b))" "broker_ok (fst (handleSync env req b))"
    "broker_ok (fst (handleHeartbeat env req b))" "broker_ok (fst (handleLeave env req b))"
proof -
  have io: "stateIO env = good_file_io" and tm: "\<And>n. int64_ok (time_UnixMilli (tick env n))"
    using assms(2) file_io_ok_good by (auto simp: env_ok_def)
  note step = broker_ok_groups [OF assms(1)]
  note steps = step [OF step_join [OF assms(3) tm]] step [OF step_sync [OF assms(3) tm]]
    step [OF step_heartbeat [OF assms(3) tm]] step [OF step_leave [OF assms(3)]]
  show "broker_ok (fst (handleJoin env req b))"
    using assms(1) steps(1) by (auto simp: handleJoin_def io split: option.split prod.split) (metis fst_conv)+
  show "broker_ok (fst (handleSync env req b))"
    using assms(1) steps(2) by (auto simp: handleSync_def io split: intArg_split prod.split sum.split) (metis fst_conv)+
  show "broker_ok (fst (handleHeartbeat env req b))"
    using assms(1) steps(3) by (auto simp: handleHeartbeat_def io split: intArg_split prod.split option.split) (metis fst_conv)+
  show "broker_ok (fst (handleLeave env req b))"
    using assms(1) steps(4) by (auto simp: handleLeave_def io split: intArg_split prod.split option.split) (metis fst_conv)+
qed

lemma handleCommit_ok:
  assumes "broker_ok b" "env_ok env" "room (cGroups (bCoordinator b))"
  shows "broker_ok (fst (handleCommit env req b))"
proof -
  have io: "stateIO env = good_file_io" using assms(2) file_io_ok_good by (auto simp: env_ok_def)
  have step: "broker_ok (setGroups gm b)"
    if "ValidateCommit good_file_io tm name topic c gen p (cGroups (bCoordinator b)) = (gm, r)" for tm name topic c gen p gm r
    using broker_ok_groups [OF assms(1) step_commit [OF assms(3)], of tm name topic c gen p] that by simp
  have "cOffsets (bCoordinator (setGroups gm b)) = cOffsets (bCoordinator b)" for gm by (simp add: setGroups_def)
  then have "broker_ok (setOffsets (Commit good_file_io g t p v (cOffsets (bCoordinator b))) (setGroups gm b))"
    if "broker_ok (setGroups gm b)" "int64_ok p" "int64_ok v" for gm g t p v
    using broker_ok_offsets [OF that] by simp
  then show ?thesis
    using assms(1) step
    by (auto simp: handleCommit_def Let_def io split: intArg_split prod.split option.split
        dest!: Atoi_int64_ok)
qed

lemma replication_handlers_ok:
  assumes "broker_ok b"
  shows "broker_ok (fst (handleReplicaFetch env req b))" "broker_ok (fst (handleBrokerReplicaAck env req b))"
    "handleBrokerFetch env req b = Some (b', resp) \<Longrightarrow> broker_ok b'"
proof -
  note m = manager_ok_result [OF broker_okD(3) [OF assms]]
  show "broker_ok (fst (handleReplicaFetch env req b))"
    using assms by (auto simp: handleReplicaFetch_def Let_def split: intArg_split prod.split option.split
        intro!: broker_ok_manager dest!: m(1) dest: manager_ok_result(5))
  show "broker_ok (fst (handleBrokerReplicaAck env req b))"
    using assms by (auto simp: handleBrokerReplicaAck_def Let_def split: intArg_split prod.split option.split
        intro!: broker_ok_manager dest!: m(1) dest: manager_ok_result(5))
  show "handleBrokerFetch env req b = Some (b', resp) \<Longrightarrow> broker_ok b'"
    using assms by (auto simp: handleBrokerFetch_def Let_def split: intArg_splits prod.splits option.splits if_splits
        intro!: broker_ok_manager dest!: m(4) dest: manager_ok_result(5))
qed

lemma admin_ok:
  "broker_ok b \<Longrightarrow> controller_run (bController b) (fst outcome) \<Longrightarrow> broker_ok (fst (admin outcome req payload b))"
  by (cases outcome; cases "snd outcome") (auto simp: admin_def broker_ok_controller)

lemma admin_handlers_ok:
  assumes "broker_ok b"
  shows "broker_ok (fst (handleAdminCreateTopic env req b))" "broker_ok (fst (handleAdminRegisterBroker env req b))"
    "broker_ok (fst (handleAdminBrokerHeartbeat env req b))"
    "broker_ok (fst (handleAdminReconcileBrokerHealth env req b))"
    "broker_ok (fst (handleAdminFenceBroker env req b))" "broker_ok (fst (handleAdminUnfenceBroker env req b))"
    "broker_ok (fst (handleAdminSetPartitionLeader env req b))"
    "broker_ok (fst (handleAdminElectTopicLeaders env req b))" "fst (handleAdminGetMetadata req b) = b"
proof -
  note admin = admin_ok [OF assms controller_run_fst(1)] admin_ok [OF assms controller_run_fst(2)]
    admin_ok [OF assms controller_run_fst(3)] admin_ok [OF assms controller_run_fst(4)]
    admin_ok [OF assms controller_run_fst(5)]
  have run: "ReconcileBrokerHealth (Apply tm) StoreSnapshot tm timeout (bController b) = (c, r) \<Longrightarrow>
      broker_ok (b\<lparr>bController := c\<rparr>)"
    "ElectTopicLeaders (Apply tm) StoreSnapshot topic (bController b) = (c, r) \<Longrightarrow>
      broker_ok (b\<lparr>bController := c\<rparr>)" for c r tm timeout topic
    using broker_ok_controller [OF assms controller_run_fst(6), of tm timeout]
      broker_ok_controller [OF assms controller_run_fst(7), of tm topic] by (metis fst_conv)+
  show "broker_ok (fst (handleAdminCreateTopic env req b))" "broker_ok (fst (handleAdminRegisterBroker env req b))"
    "broker_ok (fst (handleAdminBrokerHeartbeat env req b))" "broker_ok (fst (handleAdminFenceBroker env req b))"
    "broker_ok (fst (handleAdminUnfenceBroker env req b))" "broker_ok (fst (handleAdminSetPartitionLeader env req b))"
    using assms admin
    by (simp_all add: handleAdminCreateTopic_def handleAdminRegisterBroker_def handleAdminBrokerHeartbeat_def
        handleAdminFenceBroker_def handleAdminUnfenceBroker_def handleAdminSetPartitionLeader_def
        split: intArg_split option.split sum.split)
  show "broker_ok (fst (handleAdminReconcileBrokerHealth env req b))"
    using assms run by (auto simp: handleAdminReconcileBrokerHealth_def split: intArg_split prod.split option.split)
  show "broker_ok (fst (handleAdminElectTopicLeaders env req b))"
    using assms run by (auto simp: handleAdminElectTopicLeaders_def split: prod.split option.split)
  show "fst (handleAdminGetMetadata req b) = b" by (simp add: handleAdminGetMetadata_def Let_def)
qed

lemma handleSetPartitionRole_ok:
  assumes "broker_ok b"
  shows "broker_ok (fst (handleSetPartitionRole env req b))"
proof -
  have step: "broker_ok (b1\<lparr>bReplication := m, bController := c\<rparr>)"
    if "broker_ok b1" "manager_ok m" "SetPartitionLeader (Apply tm) topic p l isr (bController b1) = (c, r)"
    for b1 :: Broker and m tm topic p l isr c r
    using broker_ok_controller [OF broker_ok_manager [OF that(1,2)], of c] controller_run_fst(4) [of "bController b1" tm topic p l isr] that(3)
    by simp
  show ?thesis
    using assms
    by (auto simp: handleSetPartitionRole_def Let_def
        split: intArg_split prod.split option.split sum.split
        dest!: EnsureTopicMetadata_ok [OF assms] intro!: step broker_ok_manager
        dest: manager_ok_result(2) [OF broker_okD(3)] manager_ok_result(5))
qed

lemma getPartition_bounds: "0 < n \<Longrightarrow> \<exists>part. getPartition key n = Some part \<and> 0 \<le> part \<and> part < 2 ^ 32"
proof -
  assume "0 < n"
  have "uint (fnv32a key) < 2 ^ 32" using uint_lt2p [of "fnv32a key"] by simp
  moreover have "uint (fnv32a key) mod n \<le> uint (fnv32a key)" by (rule zmod_le_nonneg_dividend) simp
  ultimately show ?thesis using \<open>0 < n\<close> by (simp add: getPartition_def)
qed

text \<open>
  A \<open>PRODUCE\<close> is refused with an error, which leaves the log alone, or it reaches \<open>produceTo\<close> on a
  partition that this broker leads, according to both the metadata and the replication manager.
\<close>

lemma length_2: "length xs = 2 \<Longrightarrow> \<exists>x y. xs = [x, y]"
  by (cases xs; cases "tl xs") auto

definition ackModeOf :: "string list \<Rightarrow> string option" where
  "ackModeOf rest = (if rest = [] then Some ''1'' else optionArg ''acks'' [''0'', ''1'', ''all''] (hd rest))"

lemma handleProduce_route:
  assumes "Args req = topic # msg # rest" "length rest \<le> 1" "SplitN msg '':'' 2 = [key, v]"
    "EnsureTopicMetadata env topic b = (b1, Inr t)"
  shows "handleProduce env req b =
     (if tmPartitions t = [] then Some (b1, badRequest req ''topic has no partitions'')
      else case ackModeOf rest of
        None \<Rightarrow> Some (b1, badRequest req ''invalid ack mode; expected acks=0|1|all'')
      | Some mode \<Rightarrow>
         (case getPartition key (int (length (tmPartitions t))) of
           None \<Rightarrow> None
         | Some part \<Rightarrow>
           (case map_of (tmPartitions t) part of
             None \<Rightarrow> Some (b1, badRequest req ''partition metadata missing'')
           | Some pm \<Rightarrow>
               if pmLeaderID pm \<noteq> LocalBrokerID b1 then Some (b1, notLeader req)
               else let (m1, isLeader) = IsLeader topic part (bReplication b1);
                        b2 = b1\<lparr>bReplication := m1\<rparr>
                    in if \<not> isLeader then Some (b2, notLeader req)
                       else produceTo env req topic part v mode b2)))"
proof -
  have "(if length (Args req) = 3 then optionArg ''acks'' [''0'', ''1'', ''all''] (Args req ! 2) else Some ''1'')
      = ackModeOf rest"
    using assms(1,2) by (cases rest) (auto simp: ackModeOf_def)
  then show ?thesis
    using assms by (simp add: handleProduce_def Let_def PartitionForKeyWithCount_def not_less cong: option.case_cong)
qed

text \<open>The part of the handler after the topic is known: it refuses, or goes on to store the record.\<close>

lemma handleProduce_routed:
  assumes "handleProduce env req b = Some (b', resp)"
    and a: "Args req = topic # msg # rest" "length rest \<le> 1" and kv: "SplitN msg '':'' 2 = [key, v]"
    and r: "EnsureTopicMetadata env topic b = (b\<lparr>bController := c\<rparr>, Inr t)"
  obtains (refused) m code why where "m = bReplication b \<or> (\<exists>t p. m = fst (IsLeader t p (bReplication b)))"
      "b' = b\<lparr>bController := c, bReplication := m\<rparr>" "resp = errLine req code why"
  | (stored) mode part pm where "ackModeOf rest = Some mode" "getPartition key (int (length (tmPartitions t))) = Some part"
      "0 \<le> part" "part < 2 ^ 32" "map_of (tmPartitions t) part = Some pm" "pmLeaderID pm = LocalBrokerID b"
      "snd (IsLeader topic part (bReplication b))"
      "produceTo env req topic part v mode
         (b\<lparr>bController := c, bReplication := fst (IsLeader topic part (bReplication b))\<rparr>) = Some (b', resp)"
proof -
  note h' = assms(1) [unfolded handleProduce_route [OF a kv r]]
  have no: thesis if "b' = b\<lparr>bController := c\<rparr>" "resp = errLine req code why" for code why
    using refused [of "bReplication b"] that by simp
  show thesis
  proof (cases "tmPartitions t = [] \<or> ackModeOf rest = None")
    case True
    then show thesis using h' no by (auto simp: badRequest_def split: if_splits)
  next
    case False
    then obtain mode where md: "ackModeOf rest = Some mode" by auto
    obtain part where part: "getPartition key (int (length (tmPartitions t))) = Some part" "0 \<le> part" "part < 2 ^ 32"
      using False getPartition_bounds [of "int (length (tmPartitions t))" key] by auto
    obtain m1 l where l: "IsLeader topic part (bReplication b) = (m1, l)" by force
    show thesis
    proof (cases "map_of (tmPartitions t) part")
      case None
      then show thesis using h' no False md part by (auto simp: badRequest_def split: if_splits)
    next
      case (Some pm)
      have "\<exists>t p. m1 = fst (IsLeader t p (bReplication b))" by (metis l fst_conv)
      with Some show thesis
        using h' False md part l no refused [of m1] stored [OF md part Some]
        by (auto simp: notLeader_def Let_def split: if_splits)
    qed
  qed
qed

lemma handleProduce_cases:
  assumes "handleProduce env req b = Some (b', resp)"
  obtains (refused) c m code msg where "controller_run (bController b) c"
      "m = bReplication b \<or> (\<exists>t p. m = fst (IsLeader t p (bReplication b)))"
      "b' = b\<lparr>bController := c, bReplication := m\<rparr>" "resp = errLine req code msg"
  | (stored) topic msg rest key v mode c t part pm where "Args req = topic # msg # rest" "SplitN msg '':'' 2 = [key, v]"
      "ackModeOf rest = Some mode" "EnsureTopicMetadata env topic b = (b\<lparr>bController := c\<rparr>, Inr t)"
      "controller_run (bController b) c" "getPartition key (int (length (tmPartitions t))) = Some part"
      "0 \<le> part" "part < 2 ^ 32" "map_of (tmPartitions t) part = Some pm" "pmLeaderID pm = LocalBrokerID b"
      "snd (IsLeader topic part (bReplication b))"
      "produceTo env req topic part v mode
         (b\<lparr>bController := c, bReplication := fst (IsLeader topic part (bReplication b))\<rparr>) = Some (b', resp)"
proof (cases "2 \<le> length (Args req) \<and> length (Args req) \<le> 3")
  case False
  with assms have "b' = b" "resp = errLine req ''BAD_REQUEST'' ''PRODUCE requires: <topic> <key>:<value> [acks=0|1|all]''"
    by (auto simp: handleProduce_def badRequest_def split: if_splits)
  then show thesis using refused [of "bController b" "bReplication b"] by simp
next
  case True
  then obtain topic msg rest where a: "Args req = topic # msg # rest" "length rest \<le> 1"
    by (cases "Args req"; cases "tl (Args req)") auto
  show thesis
  proof (cases "length (SplitN msg '':'' 2) = 2")
    case False
    with assms a have "b' = b" "resp = errLine req ''BAD_REQUEST'' ''message must be key:value''"
      by (auto simp: handleProduce_def badRequest_def)
    then show thesis using refused [of "bController b" "bReplication b"] by simp
  next
    case True
    then obtain key v where kv: "SplitN msg '':'' 2 = [key, v]" using length_2 by blast
    obtain b1 r where r: "EnsureTopicMetadata env topic b = (b1, r)" by force
    then obtain c where c: "b1 = b\<lparr>bController := c\<rparr>" "controller_run (bController b) c"
      by (rule EnsureTopicMetadata_run)
    show thesis
    proof (cases r)
      case (Inl e)
      have "handleProduce env req b = Some (b1, badRequest req e)"
        using a r kv Inl by (auto simp: handleProduce_def Let_def)
      then show thesis using assms refused [OF c(2), of "bReplication b"] c(1) by (auto simp: badRequest_def)
    next
      case (Inr t)
      note r' = r [unfolded Inr c(1)]
      from assms a kv r' show thesis
      by (rule handleProduce_routed) (erule (2) refused [OF c(2)], erule (7) stored [OF a(1) kv _ r' c(2)])
    qed
  qed
qed

text \<open>What \<open>produceTo\<close> does, in an environment without faults.\<close>

definition produced :: "brokerIO \<Rightarrow> Request \<Rightarrow> string \<Rightarrow> int \<Rightarrow> string \<Rightarrow> string \<Rightarrow> Broker \<Rightarrow> Broker \<Rightarrow> string \<Rightarrow> bool" where
  "produced env req topic part v mode b b' resp \<longleftrightarrow>
     (let off = nextAt (bStorage b) topic part
      in grown topic part \<lparr>Offset = off, Value = v\<rparr> (bStorage b) (bStorage b')
       \<and> b' = b\<lparr>bStorage := bStorage b', bReplication := bReplication b'\<rparr>
       \<and> ((\<exists>e. mode = ''all'' \<and> resp = errLine req ''REPLICATION_TIMEOUT'' e)
          \<or> (\<exists>m hw. HighWatermark (tick env 3) topic part m = (bReplication b', hw)
               \<and> (mode = ''all'' \<longrightarrow> held_by_isr off (rcfg (bReplication b)) (currentPartition topic part m))
               \<and> resp = okLine req (''partition='' @ Itoa part @ '' offset='' @ Itoa off @ '' hw='' @ Itoa hw))))"

lemma wait_result:
  assumes "manager_ok m" "polls_ok pl"
    "(if mode = ''all'' then WaitForAckAll start t p target pl m else Some (m, None)) = Some (m', e)"
  shows "manager_ok m'" and "mode = ''all'' \<Longrightarrow> e = None \<Longrightarrow> held_by_isr target (rcfg m) (currentPartition t p m')"
    and "e \<noteq> None \<Longrightarrow> mode = ''all''"
  using assms waitLoop_sound [OF _ assms(1,2), of "start + cAckAllTimeout (rcfg m)" t p target 0 "(m', e)"]
    waitLoop_ok [OF _ assms(1,2), of "start + cAckAllTimeout (rcfg m)" t p target 0 "(m', e)"]
  by (auto simp: WaitForAckAll_def split: if_splits)

lemma produceTo_produced:
  assumes "manager_ok (bReplication b)" "durable (bStorage b)" "recoverable topic part"
    "append_pre (storeIO env) topic part v (bStorage b)" "polls_ok (polls env)"
    "produceTo env req topic part v mode b = Some (b', resp)"
  shows "produced env req topic part v mode b b' resp \<and> manager_ok (bReplication b') \<and> durable (bStorage b')"
proof -
  let ?off = "nextAt (bStorage b) topic part"
  let ?m1 = "OnLeaderAppend (tick env 1) topic part ?off (bReplication b)"
  obtain s1 part' off where s1: "ProduceToPartition (storeIO env) topic part v (bStorage b) = (s1, part', off)"
    by (metis prod_cases3)
  note d = produced_durable [OF assms(2,4,3) s1]
  have off: "off = ?off" "part' = part" and lt: "?off < 2 ^ 63 - 1" using d assms(4) by (auto simp: append_pre_def)
  have m1: "manager_ok ?m1" "rcfg ?m1 = rcfg (bReplication b)"
    using manager_step_ok [OF manager_step.append [OF lt] assms(1)] by auto
  define W where "W = (if mode = ''all'' then WaitForAckAll (tick env 2) topic part ?off (polls env) ?m1 else Some (?m1, None))"
  have eq: "produceTo env req topic part v mode b = (case W of
        None \<Rightarrow> None
      | Some (m2, Some e) \<Rightarrow> Some (b\<lparr>bStorage := s1, bReplication := m2\<rparr>, errLine req ''REPLICATION_TIMEOUT'' e)
      | Some (m2, None) \<Rightarrow>
          let (m3, hw) = HighWatermark (tick env 3) topic part m2
          in Some (b\<lparr>bStorage := s1, bReplication := m3\<rparr>,
               okLine req (''partition='' @ Itoa part @ '' offset='' @ Itoa ?off @ '' hw='' @ Itoa hw)))"
    using s1 off by (simp add: produceTo_def Let_def W_def)
  then obtain m2 e where w: "W = Some (m2, e)" using assms(6) by (cases W) auto
  note wr = wait_result [OF m1(1) assms(5) w [unfolded W_def]]
  obtain m3 hw where hw: "HighWatermark (tick env 3) topic part m2 = (m3, hw)" by force
  show ?thesis
  proof (cases e)
    case None
    then have "b' = b\<lparr>bStorage := s1, bReplication := m3\<rparr>"
      "resp = okLine req (''partition='' @ Itoa part @ '' offset='' @ Itoa ?off @ '' hw='' @ Itoa hw)"
      using assms(6) eq w hw by simp_all
    then show ?thesis
      using d off wr(2) None m1(2) hw manager_ok_result(3) [OF wr(1) hw] by (auto simp: produced_def Let_def)
  next
    case (Some x)
    then have "b' = b\<lparr>bStorage := s1, bReplication := m2\<rparr>" "resp = errLine req ''REPLICATION_TIMEOUT'' x"
      using assms(6) eq w by simp_all
    then show ?thesis using d off wr(1,3) Some by (auto simp: produced_def Let_def)
  qed
qed

lemma record_fits_pre:
  assumes "env_ok env" "broker_ok b" "record_fits req b" "Args req = topic # msg # rest"
    "SplitN msg '':'' 2 = [key, v]" "0 \<le> part" "part < 2 ^ 32"
  shows "append_pre (storeIO env) topic part v (bStorage b)" "recoverable topic part" "plain_topic topic"
  using assms by (auto simp: record_fits_def append_pre_def env_ok_def broker_ok_def durable_def
      recoverable_def int64_ok_def)

lemma handleProduce_ok:
  assumes "broker_ok b" "env_ok env" "record_fits req b" "handleProduce env req b = Some (b', resp)"
  shows "broker_ok b'"
  using assms(4)
proof (cases rule: handleProduce_cases)
  case (refused c m code msg)
  then have "manager_ok m" using broker_okD(3) [OF assms(1)] manager_ok_fst(4) by auto
  then show ?thesis
    using broker_ok_manager [OF broker_ok_controller [OF assms(1) refused(1)], of m] refused by simp
next
  case (stored topic msg rest key v mode c t part pm)
  note pre = record_fits_pre [OF assms(2,1,3) stored(1,2,7,8)]
  let ?b = "b\<lparr>bController := c, bReplication := fst (IsLeader topic part (bReplication b))\<rparr>"
  have "polls_ok (polls env)" using assms(2) by (simp add: env_ok_def)
  then have p: "produced env req topic part v mode ?b b' resp" "manager_ok (bReplication b')" "durable (bStorage b')"
    using produceTo_produced [OF _ _ pre(2) _ _ stored(12)] pre(1) manager_ok_fst(4) [OF broker_okD(3) [OF assms(1)]]
      broker_okD(5) [OF assms(1)] by auto
  moreover have "broker_ok ?b"
    using broker_ok_manager [OF broker_ok_controller [OF assms(1) stored(5)]] manager_ok_fst(4) [OF broker_okD(3) [OF assms(1)]]
    by simp
  ultimately have "broker_ok (?b\<lparr>bStorage := bStorage b', bReplication := bReplication b'\<rparr>)"
    by (auto simp: broker_ok_def)
  moreover have "b' = ?b\<lparr>bStorage := bStorage b', bReplication := bReplication b'\<rparr>"
    using p(1) by (simp add: produced_def Let_def)
  ultimately show ?thesis by simp
qed

lemma handleConsume_ok:
  assumes "broker_ok b" "handleConsume env req b = Some (b', resp)"
  shows "broker_ok b'"
  using assms(2) assms(1)
  by (auto simp: handleConsume_def Let_def split: intArg_splits prod.splits sum.splits option.splits if_splits
      intro!: broker_ok_manager dest!: EnsureTopicMetadata_ok [OF assms(1)]
      dest: manager_ok_result(3) [OF broker_okD(3)])

lemma handleOffset_same: "fst (handleOffset req b) = b"
  by (simp add: handleOffset_def split: intArg_split)

lemma dispatch_step:
  "(if c then Some x else y) = Some (b', r) \<Longrightarrow> P (fst x) \<Longrightarrow> (\<not> c \<Longrightarrow> y = Some (b', r) \<Longrightarrow> P b') \<Longrightarrow> P b'"
  by (auto split: if_splits)

lemma handleRequest_ok:
  assumes "broker_ok b" "env_ok env" "request_ok req b" "handleRequest env req b = Some (b', resp)"
  shows "broker_ok b'"
proof -
  have room: "room (cGroups (bCoordinator b))" using assms(3) by (simp add: request_ok_def)
  note groups = group_handlers_ok [OF assms(1,2) room] handleCommit_ok [OF assms(1,2) room]
  note repl = replication_handlers_ok [OF assms(1)] handleSetPartitionRole_ok [OF assms(1)]
  note admins = admin_handlers_ok [OF assms(1)]
  have same: "broker_ok (fst (handleOffset req b))" "broker_ok (fst (handleAdminGetMetadata req b))"
    using assms(1) by (simp_all add: handleOffset_same admins(9))
  show ?thesis
  proof (cases "Command req \<in> {''PRODUCE'', ''CONSUME'', ''BROKER_FETCH''}")
    case True
    then show ?thesis
      using assms handleProduce_ok [OF assms(1,2)] handleConsume_ok [OF assms(1)] repl(3)
      by (auto simp: handleRequest_def Let_def request_ok_def)
  next
    case False
    then have other: "Command req \<noteq> ''PRODUCE''" "Command req \<noteq> ''CONSUME''" "Command req \<noteq> ''BROKER_FETCH''" by auto
    show ?thesis
      using assms(4) assms(1) unfolding handleRequest_def Let_def other [THEN if_not_P]
      by - ((erule dispatch_step, rule groups repl(1,2,4) admins(1-8) same)+, simp)
  qed
qed

end
