(* ===== verification/Broker_Runs.thy ===== *)
theory Broker_Runs
  imports Handler_Props
begin

text \<open>
  The life of a broker as a step relation: requests of clients and other brokers, the background
  loop, restarts. Every reachable broker satisfies the invariant of all its components.
\<close>

section \<open>Background steps keep the invariant\<close>

lemma fold_keep: "(\<And>x s. P s \<Longrightarrow> P (f x s)) \<Longrightarrow> P s \<Longrightarrow> P (fold f xs s)"
  by (induction xs arbitrary: s) auto

lemma broker_ok_runtime: "broker_ok (b\<lparr>bRuntime := r\<rparr>) \<longleftrightarrow> broker_ok b"
  by (simp add: broker_ok_def)

lemma broker_ok_workers: "broker_ok (stopWorker t p b) \<longleftrightarrow> broker_ok b"
  "broker_ok (ensureWorker t p l addr off b) \<longleftrightarrow> broker_ok b"
  by (simp_all add: stopWorker_def ensureWorker_def Let_def broker_ok_runtime split: option.split sum.split)

lemma reconcilePartition_ok:
  assumes "broker_ok b" "offsets_sane b"
  shows "broker_ok (reconcilePartition env t i pm b)"
proof -
  have "manager_ok (BootstrapOffset tm t i (LastOffset t i (bStorage b)) (fst (SetRole tm' t i r (bReplication b))))" for tm tm' r
    using assms by (intro BootstrapOffset_ok manager_ok_fst broker_okD) (simp_all add: offsets_sane_def)
  then have "broker_ok (assumeRole env t i r (LastOffset t i (bStorage b)) b)" for r
    using assms(1) by (simp add: assumeRole_def broker_ok_manager)
  then show ?thesis
    using assms(1) by (simp add: reconcilePartition_def Let_def broker_ok_workers split: option.split)
qed

lemma HeartbeatSelf_ok: "broker_ok b \<Longrightarrow> broker_ok (HeartbeatSelf env b)"
  by (simp add: HeartbeatSelf_def broker_ok_controller controller_run_fst)

lemma reconcileRoles_ok:
  assumes "broker_ok b" "offsets_sane b"
  shows "broker_ok (reconcileRoles env b)"
proof -
  have "offsets_sane (HeartbeatSelf env b)" using assms(2) by (simp add: offsets_sane_def HeartbeatSelf_def)
  then have "broker_ok (fold (\<lambda>(t, i, pm). reconcilePartition env t i pm) xs (HeartbeatSelf env b))
      \<and> offsets_sane (fold (\<lambda>(t, i, pm). reconcilePartition env t i pm) xs (HeartbeatSelf env b))" for xs
  proof (induction xs rule: rev_induct)
    case (snoc x xs)
    obtain t i pm where "x = (t, i, pm)" by (cases x)
    with snoc show ?case by (simp add: reconcilePartition_ok) (simp add: offsets_sane_def)
  qed (use HeartbeatSelf_ok [OF assms(1)] in simp)
  then show ?thesis by (simp add: reconcileRoles_def Let_def)
qed

lemma bootstrapPeers_ok: "broker_ok b \<Longrightarrow> broker_ok (bootstrapPeers env b)"
  unfolding bootstrapPeers_def
  by (rule fold_keep [where P = broker_ok]) (auto simp: broker_ok_controller controller_run_fst split: option.split)

lemma failoverTopic_ok: "broker_ok b \<Longrightarrow> broker_ok (failoverTopic env topic t b)"
proof -
  assume b: "broker_ok b"
  obtain c k e where el: "ElectTopicLeaders (Apply (tick env 0)) StoreSnapshot topic (bController b) = (c, k, e)"
    by (metis prod_cases3)
  have c: "broker_ok (b\<lparr>bController := c\<rparr>)"
    using broker_ok_controller [OF b controller_run_fst(7), of "tick env 0" topic] el by simp
  have "broker_ok (fold (\<lambda>(i, pm) b. if pmLeaderID pm = LocalBrokerID b
      then b\<lparr>bReplication := fst (SetRole (tick env 1) topic i ''leader'' (bReplication b))\<rparr> else b) ps (b\<lparr>bController := c\<rparr>))"
    for ps :: "(int, PartitionMetadata) gomap"
  proof (rule fold_keep [where P = broker_ok, OF _ c])
    fix x :: "int \<times> PartitionMetadata" and b' :: Broker
    assume "broker_ok b'"
    then show "broker_ok ((case x of (i, pm) \<Rightarrow> \<lambda>b. if pmLeaderID pm = LocalBrokerID b
        then b\<lparr>bReplication := fst (SetRole (tick env 1) topic i ''leader'' (bReplication b))\<rparr> else b) b')"
      by (cases x) (simp add: broker_ok_manager manager_ok_fst broker_okD)
  qed
  with c el show ?thesis by (auto simp: failoverTopic_def split: option.split)
qed

lemma tryFailover_ok: "broker_ok b \<Longrightarrow> broker_ok (tryFailoverForWorker env l b)"
  unfolding tryFailoverForWorker_def Let_def
  by (rule fold_keep [where P = broker_ok]) (auto simp: failoverTopic_ok broker_ok_controller controller_run_fst)

section \<open>Replication keeps the storage durable\<close>

lemma applyRecords_durable:
  assumes "durable s" "io_ok env" "plain_topic (wTopic w)" "recoverable (wTopic w) (wPartition w)" "0 \<le> wPartition w"
    "\<forall>r \<in> set rs. value_ok (recValue r)" "nextAt s (wTopic w) (wPartition w) + int (length rs) \<le> 2 ^ 63 - 1"
    "applyRecords (AppendReplicated env) rs w s applied lst = (w', s', r)"
  shows "durable s'"
  using assms
proof (induction rs arbitrary: w s applied lst)
  case (Cons x rs)
  let ?t = "wTopic w" and ?p = "wPartition w"
  obtain s1 e where s1: "AppendReplicated env ?t ?p (recOffset x) (recValue x) s = (s1, e)" by force
  have "durable s1 \<and> nextAt s1 ?t ?p \<le> nextAt s ?t ?p + 1"
  proof (cases "recOffset x = nextAt s ?t ?p")
    case True
    have "append_pre env ?t ?p (recValue x) s"
      using Cons.prems by (simp add: append_pre_def durable_def)
    note replicated_durable [OF Cons.prems(1) this Cons.prems(4) s1 [unfolded True]]
    then have "durable s1" "nextAt s1 ?t ?p = nextAt s ?t ?p + 1" unfolding grown_def by blast+
    then show ?thesis by simp
  next
    case False
    from skipped_durable [OF Cons.prems(1) plain_placed [OF Cons.prems(3,5)] False s1] show ?thesis by simp
  qed
  then show ?case
    using Cons.prems s1 Cons.IH [of s1 "w\<lparr>wNextOffset := iadd (wNextOffset w) 1\<rparr>" "iadd applied 1" "recOffset x"]
    by (auto split: if_splits option.splits)
qed simp

text \<open>What the leader sends to a worker must fit the log: the records of the next fetch.\<close>

definition worker_fits :: "'n rpc \<Rightarrow> replicaWorkerState \<Rightarrow> 'n \<Rightarrow> Storage \<Rightarrow> bool" where
  "worker_fits rpc st net s \<longleftrightarrow>
     (let w = rwWorker st
      in plain_topic (wTopic w) \<and> recoverable (wTopic w) (wPartition w) \<and> 0 \<le> wPartition w
       \<and> (case snd (transportFetch rpc (wTopic w) (wPartition w) (wFollowerID w) (wNextOffset w) (wMaxBatch w)
                (rwTransport st, net)) of
            Inl _ \<Rightarrow> True
          | Inr res \<Rightarrow> (\<forall>r \<in> set (fetchRecords res). value_ok (recValue r))
              \<and> nextAt s (wTopic w) (wPartition w) + int (length (fetchRecords res)) \<le> 2 ^ 63 - 1))"

lemma StepOnce_durable:
  assumes "durable s" "io_ok env" "worker_fits rpc st net s"
    "StepOnce (transportFetch rpc) ack (AppendReplicated env) (rwWorker st) (rwTransport st, net) s = (w', n', s', r)"
  shows "durable s'"
proof -
  let ?w = "rwWorker st"
  obtain n1 f where f: "transportFetch rpc (wTopic ?w) (wPartition ?w) (wFollowerID ?w) (wNextOffset ?w)
      (wMaxBatch ?w) (rwTransport st, net) = (n1, f)" by (rule prod.exhaust)
  have pre: "plain_topic (wTopic ?w)" "recoverable (wTopic ?w) (wPartition ?w)" "0 \<le> wPartition ?w"
    using assms(3) by (auto simp: worker_fits_def Let_def)
  show ?thesis
  proof (cases f)
    case (Inr res)
    obtain w1 s1 q where a: "applyRecords (AppendReplicated env) (fetchRecords res) ?w s 0 (- 1) = (w1, s1, q)"
      by (metis prod_cases3)
    have "durable s1"
      using applyRecords_durable [OF assms(1,2) pre _ _ a] assms(3) f Inr by (auto simp: worker_fits_def Let_def)
    then show ?thesis
      using assms(1,4) f Inr a by (auto simp: StepOnce_def split: if_splits prod.splits option.splits)
  qed (use assms(1,4) f in \<open>simp add: StepOnce_def\<close>)
qed

lemma stepWorker_ok:
  assumes "broker_ok b" "env_ok env" "\<forall>st. map_of (workers (bRuntime b)) key = Some st \<longrightarrow> worker_fits rpc st net (bStorage b)"
  shows "broker_ok (fst (stepWorker env rpc key (b, net)))"
proof (cases "map_of (workers (bRuntime b)) key")
  case (Some st)
  obtain w t net' s' k e where s: "StepOnce (transportFetch rpc) (transportAck rpc) (AppendReplicated (storeIO env))
      (rwWorker st) (rwTransport st, net) (bStorage b) = (w, (t, net'), s', k, e)" by (metis prod_cases6 prod.collapse)
  have "durable s'"
    using StepOnce_durable [OF broker_okD(5) [OF assms(1)] _ _ s] assms(2,3) Some by (simp add: env_ok_def)
  then have b1: "broker_ok (b\<lparr>bStorage := s'\<rparr>)" using assms(1) by (simp add: broker_ok_def)
  then show ?thesis
    using Some s tryFailover_ok [OF b1]
    by (auto simp: stepWorker_def Let_def broker_ok_runtime split: option.split)
qed (use assms(1) in \<open>simp add: stepWorker_def\<close>)

section \<open>Start and restart\<close>

lemma NewBroker_simps [simp]:
  "bStorage (NewBroker env cfg fs g o') = NewStorage (storeIO env) cfg fs"
  "cGroups (bCoordinator (NewBroker env cfg fs g o')) = NewGroupManager (stateIO env) (nat (NumPartitions cfg)) g"
  "cOffsets (bCoordinator (NewBroker env cfg fs g o')) = NewOffsetManager (stateIO env) o'"
  by (simp_all add: NewBroker_def bootstrapControllerMetadata_def NewCoordinator_def Let_def)

lemma NewBroker_rest:
  "controller_run NewRaftMetadataStore (bController (NewBroker env cfg fs g o'))"
  "manager_ok (bReplication (NewBroker env cfg fs g o'))"
  by (simp_all add: NewBroker_def bootstrapControllerMetadata_def Let_def controller_run_fst NewManager_ok)

lemma NewBroker_fresh:
  assumes "env_ok env" "int64_ok (NumPartitions cfg)"
  shows "broker_ok (NewBroker env cfg [] Absent Absent)"
proof -
  have io: "stateIO env = good_file_io" "io_ok (storeIO env)"
    using assms(1) file_io_ok_good by (auto simp: env_ok_def)
  have "int64_ok (int (nat (NumPartitions cfg)))" using assms(2) by (auto simp: int64_ok_def)
  moreover have "durable (NewStorage (storeIO env) cfg [])"
    using NewStorage_durable(1) [OF io(2) durable_empty [of cfg]] by (simp add: newStorageRecord_def)
  ultimately show ?thesis
    using NewBroker_rest by (simp add: broker_ok_def io groups_inv_fresh offsets_synced_fresh)
qed

text \<open>A broker of the same data directory and partition count, on the files another one left behind.\<close>

definition restartBroker :: "brokerIO \<Rightarrow> Config \<Rightarrow> Broker \<Rightarrow> Broker" where
  "restartBroker env cfg b = NewBroker env cfg (disk (bStorage b)) (groupsFile (cGroups (bCoordinator b)))
     (offsetsFile (cOffsets (bCoordinator b)))"

lemma restartBroker_ok:
  assumes "broker_ok b" "env_ok env" "nat (NumPartitions cfg) = partitionCount (cGroups (bCoordinator b))"
    "DataDir cfg = dataDir (bStorage b)"
  shows "broker_ok (restartBroker env cfg b)"
proof -
  have io: "stateIO env = good_file_io" "io_ok (storeIO env)"
    using assms(2) file_io_ok_good by (auto simp: env_ok_def)
  have "groups_inv good_file_io (restartGroups good_file_io (cGroups (bCoordinator b)))"
    using restart_inv assms(1) by (simp add: broker_ok_def)
  moreover have "offsets_synced good_file_io (restartOffsets good_file_io (cOffsets (bCoordinator b)))"
    using committed.inv_restart assms(1) by (simp add: broker_ok_def)
  ultimately show ?thesis
    using NewBroker_rest NewStorage_durable(1) [OF io(2) broker_okD(5) [OF assms(1)] assms(4)] assms(3)
    by (simp add: broker_ok_def restartBroker_def io restartGroups_def restartOffsets_def)
qed

section \<open>Runs\<close>

text \<open>
  The state of a run is the broker and the network its workers talk to, which changes at will.
  \<open>step_request\<close> is one line of any connection, so every interleaving of connections is a run.
\<close>

inductive broker_step :: "Broker \<times> 'n \<Rightarrow> Broker \<times> 'n \<Rightarrow> bool" where
  step_network: "broker_step (b, net) (b, net')"
| step_request: "env_ok env \<Longrightarrow> (\<forall>req. ParseRequest line = Inr req \<longrightarrow> request_ok req b) \<Longrightarrow>
    handleLine env line b = Some (b', response) \<Longrightarrow> broker_step (b, net) (b', net)"
| step_roles: "offsets_sane b \<Longrightarrow> broker_step (b, net) (reconcileRoles env b, net)"
| step_peers: "broker_step (b, net) (bootstrapPeers env b, net)"
| step_worker: "env_ok env \<Longrightarrow>
    (\<forall>st. map_of (workers (bRuntime b)) key = Some st \<longrightarrow> worker_fits rpc st net (bStorage b)) \<Longrightarrow>
    broker_step (b, net) (stepWorker env rpc key (b, net))"
| step_restart_broker: "env_ok env \<Longrightarrow> nat (NumPartitions cfg) = partitionCount (cGroups (bCoordinator b)) \<Longrightarrow>
    DataDir cfg = dataDir (bStorage b) \<Longrightarrow> broker_step (b, net) (restartBroker env cfg b, net)"

lemma handleLine_ok:
  assumes "broker_ok b" "env_ok env" "\<forall>req. ParseRequest line = Inr req \<longrightarrow> request_ok req b"
    "handleLine env line b = Some (b', response)"
  shows "broker_ok b'"
  using assms handleRequest_ok by (auto simp: handleLine_def split: sum.splits)

lemma broker_step_ok: "broker_step x y \<Longrightarrow> broker_ok (fst x) \<Longrightarrow> broker_ok (fst y)"
  by (induction rule: broker_step.induct)
    (auto intro: handleLine_ok reconcileRoles_ok bootstrapPeers_ok stepWorker_ok restartBroker_ok)

section \<open>Properties\<close>

text \<open>
  C5. The invariant of the system. Start a broker on an empty data directory and let anything
  happen to it: lines from any number of connections in any order, well formed or not, passes of
  the background loop, replication from other brokers, failovers and restarts on the same data
  directory. As long as no system call fails, values fit a line of a segment file and the topics that
  are written have no slash in their names and can be read back from the names of their files, the invariants of all components hold together: the metadata is one the
  controller can reach, the replication manager is well formed, every group has an assignment that
  covers all partitions, the files of groups and positions agree with the memory, and every log in
  memory is exactly what its segment files hold.
\<close>

theorem broker_reachable_ok:
  assumes "broker_step\<^sup>*\<^sup>* (NewBroker env cfg [] Absent Absent, net) (b, net')"
    and "env_ok env" "int64_ok (NumPartitions cfg)"
  shows "broker_ok b"
proof -
  have "broker_ok (fst (NewBroker env cfg [] Absent Absent, net))" using NewBroker_fresh assms(2,3) by simp
  with assms(1) have "broker_ok (fst (b, net'))"
    by (rule rtranclp_induct [where P = "\<lambda>x. broker_ok (fst x)"]) (use broker_step_ok in auto)
  then show ?thesis by simp
qed

lemma sample_env_ok: "env_ok sample_env"
  by (simp add: env_ok_def sample_env_def quiet_io_ok polls_ok_def sample_polls_def int64_ok_def time_UnixMilli_def)

definition join_line :: string where
  "join_line = ''V1|7|JOIN|billing orders c1''"

theorem broker_reachable_ok_witness:
  "\<exists>b response. handleLine sample_env join_line (NewBroker sample_env sample_cfg [] Absent Absent) = Some (b, response)
     \<and> broker_ok b"
proof -
  let ?b = "NewBroker sample_env sample_cfg [] Absent Absent"
  have req: "ParseRequest join_line = Inr \<lparr>Version = ''V1'', CorrelationID = ''7'', Command = ''JOIN'',
      Args = [''billing'', ''orders'', ''c1'']\<rparr>"
    by code_simp
  have "room (cGroups (bCoordinator ?b))"
    by (simp add: room_def NewGroupManager_def loadGroups_def sample_env_def)
  then have "\<forall>req. ParseRequest join_line = Inr req \<longrightarrow> request_ok req ?b" by (simp add: req request_ok_def)
  moreover obtain b r where h: "handleLine sample_env join_line ?b = Some (b, r)"
    by (cases "handleJoin sample_env \<lparr>Version = ''V1'', CorrelationID = ''7'', Command = ''JOIN'',
        Args = [''billing'', ''orders'', ''c1'']\<rparr> ?b") (simp add: handleLine_def req handleRequest_def)
  ultimately have "broker_step (?b, ()) (b, ())" using sample_env_ok by (blast intro: step_request)
  then have run: "broker_step\<^sup>*\<^sup>* (?b, ()) (b, ())" by (rule r_into_rtranclp)
  have "NumPartitions sample_cfg = 2" by (simp add: sample_cfg_def)
  then have "broker_ok b" by (intro broker_reachable_ok [OF run sample_env_ok]) (simp add: int64_ok_def)
  with h show ?thesis by blast
qed

end
