(* ===== verification/Client_Guarantees.thy ===== *)
theory Client_Guarantees
  imports Broker_Runs
begin

text \<open>
  What a client may rely on: \<open>CONSUME\<close> shows committed records only, \<open>PRODUCE\<close> stores the record and
  with \<open>acks=all\<close> answers only when the replicas in sync have it, \<open>COMMIT\<close> moves a position only for
  the owner of the partition.
\<close>

section \<open>Sample brokers\<close>

lemma sample_broker_ok: "broker_ok sample_broker"
proof -
  have "groups_inv good_file_io (cGroups (bCoordinator sample_broker))"
    by (simp add: sample_broker_def NewCoordinator_def sample_cfg_def groups_inv_fresh int64_ok_def)
  moreover have "offsets_synced good_file_io (cOffsets (bCoordinator sample_broker))"
    by (simp add: sample_broker_def NewCoordinator_def sample_env_def offsets_synced_fresh)
  ultimately show ?thesis by (simp add: broker_ok_def small_cluster_run NewManager_ok sample_durable)
qed

text \<open>Broker 0, which leads the first partition; and the same broker with one record in that log.\<close>

definition leading_broker :: Broker where
  "leading_broker = sample_broker\<lparr>LocalBrokerID := 0\<rparr>"

definition stored_broker :: Broker where
  "stored_broker = leading_broker
     \<lparr>bStorage := fst (ProduceToPartition (quiet_io 0) ''orders'' 0 ''hello'' sample_storage),
      bReplication := OnLeaderAppend 1 ''orders'' 0 0 (NewManager sample_config False)\<rparr>"

lemma leading_broker_ok: "broker_ok leading_broker"
  using sample_broker_ok by (simp add: leading_broker_def broker_ok_def)

lemma stored_broker_ok: "broker_ok stored_broker"
proof -
  have "durable (fst (ProduceToPartition (quiet_io 0) ''orders'' 0 ''hello'' sample_storage))"
    using sample_produced by (metis fst_conv)
  moreover have "manager_ok (OnLeaderAppend 1 ''orders'' 0 0 (NewManager sample_config False))"
    by (rule OnLeaderAppend_ok [OF NewManager_ok]) simp
  ultimately show ?thesis using leading_broker_ok by (simp add: stored_broker_def broker_ok_def)
qed

abbreviation sample_request :: "string \<Rightarrow> string list \<Rightarrow> Request" where
  "sample_request cmd args \<equiv> \<lparr>Version = ''V1'', CorrelationID = ''7'', Command = cmd, Args = args\<rparr>"

section \<open>Reading up to the high watermark\<close>

lemma takeWhile_filter:
  "sorted_wrt (\<lambda>x y. Offset x \<le> Offset y) ms \<Longrightarrow>
   takeWhile (\<lambda>msg. \<not> Offset msg > hw) ms = filter (\<lambda>msg. Offset msg \<le> hw) ms"
proof (induction ms)
  case (Cons m ms)
  show ?case
  proof (cases "Offset m \<le> hw")
    case False
    then have "filter (\<lambda>msg. Offset msg \<le> hw) ms = []" using Cons.prems by (auto simp: filter_empty_conv)
    with False show ?thesis by simp
  qed (use Cons in auto)
qed simp

lemma consecutive_sorted: "consecutive n ms \<Longrightarrow> sorted_wrt (\<lambda>x y. Offset x \<le> Offset y) ms"
  by (auto simp: consecutive_def sorted_wrt_iff_nth_less)

lemma consecutive_bounds: "consecutive n ms \<Longrightarrow> m \<in> set ms \<Longrightarrow> 0 \<le> Offset m \<and> Offset m < n"
  by (auto simp: consecutive_def in_set_conv_nth)

text \<open>The records a consumer at \<open>off\<close> gets; retention has removed the first \<open>nextAt - length\<close> ones.\<close>

definition visible :: "Storage \<Rightarrow> string \<Rightarrow> int \<Rightarrow> int \<Rightarrow> int \<Rightarrow> Message list" where
  "visible s topic p off hw =
     filter (\<lambda>m. off + (nextAt s topic p - int (length (cachedMessages s topic p))) \<le> Offset m \<and> Offset m \<le> hw)
       (cachedMessages s topic p)"

lemma Consume_visible:
  assumes "part_ok s topic p" "0 \<le> off"
  shows "\<exists>ms. Consume topic p off s = Some ms \<and>
    takeWhile (\<lambda>msg. \<not> Offset msg > hw) ms = visible s topic p off hw"
proof -
  let ?ms = "cachedMessages s topic p"
  have c: "consecutive (nextAt s topic p) ?ms" using assms(1) by (rule part_ok_consecutive)
  have d: "drop (nat off) ?ms =
      filter (\<lambda>m. nextAt s topic p - int (length ?ms) + int (nat off) \<le> Offset m) ?ms"
    using c by (rule drop_consecutive)
  have "sorted_wrt (\<lambda>x y. Offset x \<le> Offset y) (drop (nat off) ?ms)"
    using consecutive_sorted [OF c] by (rule sorted_wrt_drop)
  then have "takeWhile (\<lambda>msg. \<not> Offset msg > hw) (drop (nat off) ?ms) =
      filter (\<lambda>msg. Offset msg \<le> hw) (drop (nat off) ?ms)"
    by (rule takeWhile_filter)
  also have "\<dots> = visible s topic p off hw"
    unfolding d visible_def filter_filter using assms(2) by (intro filter_cong) (auto simp: add.commute)
  finally show ?thesis using assms(2) by (simp add: Consume_drop)
qed

lemma visible_none:
  assumes "part_ok s topic p" "0 \<le> off" "hw < 0 \<or> off > hw"
  shows "visible s topic p off hw = []"
proof -
  note c = part_ok_consecutive [OF assms(1)]
  have "int (length (cachedMessages s topic p)) \<le> nextAt s topic p" using c by (simp add: consecutive_def)
  then show ?thesis using assms(2,3) consecutive_bounds [OF c] by (auto simp: visible_def filter_empty_conv)
qed

lemma HighWatermark_bound:
  assumes "manager_ok m" "HighWatermark tm t p m = (m', hw)"
  shows "- 1 \<le> hw" "hw \<le> leaderOffset (currentPartition t p m')"
proof -
  have m': "manager_ok m'" using manager_ok_result(3) [OF assms] .
  have "hw = highWatermark (currentPartition t p m')"
    using assms(2) by (auto simp: HighWatermark_def Let_def split: prod.splits)
  then show "- 1 \<le> hw" "hw \<le> leaderOffset (currentPartition t p m')"
    using currentPartition_ok [OF m', of t p] by (auto simp: partition_ok_def)
qed

lemma known_partition:
  assumes "broker_ok b" "map_of (Topics (metadata (bController b))) topic = Some t" "map_of (tmPartitions t) p = Some pm"
  shows "topic \<noteq> []" "0 \<le> p" "EnsureTopicMetadata env topic b = (b, Inr t)"
proof -
  have ok: "metadata_ok (metadata (bController b))" using broker_okD(2) [OF assms(1)] by (simp add: store_ok_def)
  then have t: "topic \<noteq> []" "partitions_ok (tmPartitions t)"
    using map_of_SomeD [OF assms(2)] by (auto simp: metadata_ok_def)
  then show "topic \<noteq> []" "0 \<le> p" using map_of_SomeD [OF assms(3)] by (auto simp: partitions_ok_def)
  show "EnsureTopicMetadata env topic b = (b, Inr t)"
    using t(1) assms(2) by (simp add: EnsureTopicMetadata_def StoreSnapshot_def)
qed

lemma handleConsume_visible:
  assumes "broker_ok b" "plain_topic topic"
    and "Args req = [topic, partArg, offArg]" "Atoi partArg = Some p" "Atoi offArg = Some off" "0 \<le> off"
    and "map_of (Topics (metadata (bController b))) topic = Some t" "map_of (tmPartitions t) p = Some pm"
  shows "\<exists>m hw. HighWatermark (tick env 1) topic p (bReplication b) = (m, hw)
     \<and> handleConsume env req b = Some (b\<lparr>bReplication := m\<rparr>,
          okLine req (''messages='' @ Join (map fetchItem (visible (bStorage b) topic p off hw)) '','' @ '' hw='' @ Itoa hw))
     \<and> (\<forall>r \<in> set (visible (bStorage b) topic p off hw). Offset r \<le> hw)
     \<and> hw \<le> leaderOffset (currentPartition topic p m)
     \<and> (nextAt (bStorage b) topic p = int (length (cachedMessages (bStorage b) topic p)) \<longrightarrow>
          visible (bStorage b) topic p off hw
            = filter (\<lambda>r. off \<le> Offset r \<and> Offset r \<le> hw) (cachedMessages (bStorage b) topic p))"
proof -
  note k = known_partition [OF assms(1,7,8)]
  obtain m hw where hw: "HighWatermark (tick env 1) topic p (bReplication b) = (m, hw)" by force
  have ok: "part_ok (bStorage b) topic p" using durable_part_ok [OF broker_okD(5) [OF assms(1)] assms(2) k(2)] .
  obtain ms where ms: "Consume topic p off (bStorage b) = Some ms"
    "takeWhile (\<lambda>msg. \<not> Offset msg > hw) ms = visible (bStorage b) topic p off hw"
    using Consume_visible [OF ok assms(6)] by blast
  have "handleConsume env req b = Some (b\<lparr>bReplication := m\<rparr>,
      okLine req (''messages='' @ Join (map fetchItem (visible (bStorage b) topic p off hw)) '','' @ '' hw='' @ Itoa hw))"
    using assms(3-5,8) k(3) [of env] hw ms visible_none [OF ok assms(6), of hw]
    by (auto simp: handleConsume_def intArg_def ParseInt_def Let_def)
  moreover have "hw \<le> leaderOffset (currentPartition topic p m)"
    using HighWatermark_bound(2) [OF broker_okD(3) [OF assms(1)] hw] .
  ultimately show ?thesis using hw by (auto simp: visible_def intro!: filter_cong)
qed



section \<open>Producing\<close>

lemma handleProduce_stored:
  assumes "broker_ok b" "env_ok env" "record_fits req b" "handleProduce env req b = Some (b', resp)"
  shows "(\<exists>code why. resp = errLine req code why \<and> (code \<noteq> ''REPLICATION_TIMEOUT'' \<longrightarrow> bStorage b' = bStorage b))
    \<or> (\<exists>topic msg rest key v p off m hw. Args req = topic # msg # rest \<and> SplitN msg '':'' 2 = [key, v]
         \<and> snd (IsLeader topic p (bReplication b))
         \<and> resp = okLine req (''partition='' @ Itoa p @ '' offset='' @ Itoa off @ '' hw='' @ Itoa hw)
         \<and> off = nextAt (bStorage b) topic p \<and> nextAt (bStorage b') topic p = off + 1
         \<and> cachedMessages (bStorage b') topic p \<noteq> []
         \<and> last (cachedMessages (bStorage b') topic p) = \<lparr>Offset = off, Value = v\<rparr>
         \<and> (ackModeOf rest = Some ''all'' \<longrightarrow> held_by_isr off (rcfg (bReplication b)) (currentPartition topic p m))
         \<and> HighWatermark (tick env 3) topic p m = (bReplication b', hw))"
  using assms(4)
proof (cases rule: handleProduce_cases)
  case (refused c m code msg)
  then have "bStorage b' = bStorage b" by simp
  with refused(4) show ?thesis by blast
next
  case (stored topic msg rest key v mode c t part pm)
  note pre = record_fits_pre [OF assms(2,1,3) stored(1,2,7,8)]
  let ?b = "b\<lparr>bController := c, bReplication := fst (IsLeader topic part (bReplication b))\<rparr>"
  have m: "manager_ok (bReplication b)" using assms(1) by (rule broker_okD)
  have cfg: "rcfg (bReplication ?b) = rcfg (bReplication b)"
    using manager_step_ok [OF manager_step.is_leader m] by simp
  have p: "produced env req topic part v mode ?b b' resp"
    using produceTo_produced [OF _ _ pre(2) _ _ stored(12)] pre(1) manager_ok_fst(4) [OF m]
      broker_okD(5) [OF assms(1)] assms(2) by (simp add: env_ok_def)
  let ?off = "nextAt (bStorage b) topic part"
  obtain k where k: "k \<le> length (cachedMessages (bStorage b) topic part)" "cachedMessages (bStorage b') topic part
      = drop k (cachedMessages (bStorage b) topic part @ [\<lparr>Offset = ?off, Value = v\<rparr>])"
    and n: "nextAt (bStorage b') topic part = ?off + 1"
    using p by (auto simp: produced_def Let_def grown_def)
  then have l: "cachedMessages (bStorage b') topic part \<noteq> []"
    "last (cachedMessages (bStorage b') topic part) = \<lparr>Offset = ?off, Value = v\<rparr>" by simp_all
  consider (timeout) e where "resp = errLine req ''REPLICATION_TIMEOUT'' e"
    | (answered) m hw where "HighWatermark (tick env 3) topic part m = (bReplication b', hw)"
        "mode = ''all'' \<longrightarrow> held_by_isr ?off (rcfg (bReplication b)) (currentPartition topic part m)"
        "resp = okLine req (''partition='' @ Itoa part @ '' offset='' @ Itoa ?off @ '' hw='' @ Itoa hw)"
    using p cfg by (auto simp: produced_def Let_def)
  then show ?thesis
  proof cases
    case timeout
    then show ?thesis by blast
  next
    case answered
    have "ackModeOf rest = Some ''all'' \<longrightarrow> held_by_isr ?off (rcfg (bReplication b)) (currentPartition topic part m)"
      using stored(3) answered(2) by auto
    then show ?thesis
      by (intro disjI2) (use stored(1,2,11) answered(1,3) n l in \<open>intro exI conjI; (assumption | simp)\<close>)
  qed
qed


text \<open>While the broker waits, follower 1 acknowledges the record.\<close>

definition ack_polls :: "nat \<Rightarrow> poll" where
  "ack_polls n = \<lparr>others = (\<lambda>m. fst (AckReplica (110 * Second) (110 * Second) ''orders'' 0 1 0 m)),
     pollNow = 110 * Second + 2 * Millisecond * int n, checkNow = 110 * Second + 2 * Millisecond * int n\<rparr>"

definition ack_env :: brokerIO where
  "ack_env = sample_env\<lparr>polls := ack_polls\<rparr>"

definition produce_request :: Request where
  "produce_request = sample_request ''PRODUCE'' [''orders'', ''k:hello'', ''acks=all'']"

lemma ack_env_ok: "env_ok ack_env"
  using sample_env_ok manager_step_ok [OF manager_step.ack]
  by (simp add: env_ok_def ack_env_def polls_ok_def ack_polls_def)

lemma produce_request_fits: "record_fits produce_request leading_broker"
proof -
  have "SplitN ''k:hello'' '':'' 2 = [''k'', ''hello'']" by code_simp
  moreover have "value_ok ''k''" by (simp add: value_ok_def newline_def carriage_return_def max_line_def)
  ultimately show ?thesis
    by (simp add: record_fits_def produce_request_def sample_recoverable sample_value_ok leading_broker_def sample_next)
qed

lemma produce_request_answered:
  "\<exists>b' payload. handleProduce ack_env produce_request leading_broker = Some (b', okLine produce_request payload)"
proof -
  obtain t pm where t: "map_of (Topics (metadata (bController leading_broker))) ''orders'' = Some t"
    "map_of (tmPartitions t) 0 = Some pm" "pmLeaderID pm = 0" "length (tmPartitions t) = 2"
    by (simp add: leading_broker_def small_cluster_eval)
  have "EnsureTopicMetadata ack_env ''orders'' leading_broker = (leading_broker, Inr t)"
    using known_partition(3) [OF leading_broker_ok t(1,2)] .
  moreover have "SplitN ''k:hello'' '':'' 2 = [''k'', ''hello'']" "ackModeOf [''acks=all''] = Some ''all''"
    "getPartition ''k'' 2 = Some 0" "snd (IsLeader ''orders'' 0 (NewManager sample_config False))"
    by code_simp+
  moreover have "LocalBrokerID leading_broker = 0" "bReplication leading_broker = NewManager sample_config False"
    by (simp_all add: leading_broker_def)
  moreover have "tmPartitions t \<noteq> []" using t(4) by auto
  ultimately have r: "handleProduce ack_env produce_request leading_broker =
      produceTo ack_env produce_request ''orders'' 0 ''hello'' ''all''
        (leading_broker\<lparr>bReplication := fst (IsLeader ''orders'' 0 (NewManager sample_config False))\<rparr>)"
    using handleProduce_route [of produce_request "''orders''" "''k:hello''" "[''acks=all'']" "''k''" "''hello''"
        ack_env leading_broker leading_broker t] t
    by (simp add: produce_request_def split: prod.splits)
  have "map_option snd (WaitForAckAll (110 * Second) ''orders'' 0 0 ack_polls (OnLeaderAppend (110 * Second) ''orders'' 0 0
      (fst (IsLeader ''orders'' 0 (NewManager sample_config False))))) = Some None"
    by code_simp
  then obtain m2 where w: "WaitForAckAll (110 * Second) ''orders'' 0 0 ack_polls (OnLeaderAppend (110 * Second) ''orders'' 0 0
      (fst (IsLeader ''orders'' 0 (NewManager sample_config False)))) = Some (m2, None)" by auto
  obtain s1 where s1: "ProduceToPartition (quiet_io 0) ''orders'' 0 ''hello'' sample_storage = (s1, 0, 0)"
    by (rule sample_produced)
  show ?thesis
    unfolding r produceTo_def using s1 w
    by (auto simp: ack_env_def sample_env_def leading_broker_def split: prod.splits)
qed



section \<open>Committing positions\<close>



end
