(* ===== verification/Cluster.thy ===== *)
theory Cluster
  imports Broker_Runs
begin

text \<open>
  Two brokers together: a follower's replication worker talks to the request handlers of the
  leader. The network of the follower is the leader's broker and what each of its coming connections
  will see of its surroundings; \<open>serveLine\<close> opens a connection to it, sends one line and reads the
  answer.
\<close>

section \<open>One request to another broker\<close>

type_synonym server = "Broker \<times> (nat \<Rightarrow> brokerIO)"

fun serveLine :: "server rpc" where
  "serveLine addr line (L, envs) =
     (case HandleConnection (\<lambda>_. envs 0) line L of
        Some (L', response # _) \<Rightarrow> ((L', envs \<circ> Suc), Inr response)
      | Some (L', []) \<Rightarrow> ((L', envs \<circ> Suc), Inl (ConnFailed ''EOF''))
      | None \<Rightarrow> ((L, envs \<circ> Suc), Inl (ConnFailed ''EOF'')))"

lemma word_ok_Itoa: "word_ok (Itoa i)"
proof -
  have "Itoa i \<noteq> []" by (simp add: Itoa_def)
  moreover have "\<not> is_space c" if "c \<in> set (Itoa i)" for c
    using Itoa_chars [OF that] by (auto simp: is_digit_def is_space_def)
  ultimately show ?thesis by (simp add: word_ok_def)
qed

lemma token_Itoa: "token (Itoa i)"
  using word_ok_Itoa [of i] Itoa_no [of "CHR ''|''" i] by (auto simp: token_def word_ok_def)

lemma length_Itoa_uint: "length (Itoa (uint (x :: 64 word))) \<le> 20"
proof -
  have "uint x < 2 ^ 64" using uint_lt2p [of x] by simp
  then have "uint x < int (10 ^ 20)" by simp
  then have "nat (uint x) < 10 ^ 20" by (simp only: nat_less_iff uint_ge_0)
  then show ?thesis using length_digits_base [of 10 20 "nat (uint x)"] by (simp add: Itoa_def)
qed

lemma request_line_no_space:
  assumes "token cid" "token cmd" "\<forall>a \<in> set args. word_ok a" "args \<noteq> []"
  shows "newline \<notin> set (request_line cid cmd args)" "dropCR (request_line cid cmd args) = request_line cid cmd args"
proof -
  have nl: "is_space newline" "is_space carriage_return" by (simp_all add: is_space_def newline_def carriage_return_def)
  have "newline \<notin> set (Join args '' '')"
  proof
    assume "newline \<in> set (Join args '' '')"
    from set_Join [OF this] assms(3) nl show False by (auto simp: word_ok_def newline_def)
  qed
  then show "newline \<notin> set (request_line cid cmd args)"
    using assms(1,2) nl by (auto simp: request_line_def token_def newline_def)
  have "\<not> is_space (last (Join args '' ''))" "Join args '' '' \<noteq> []"
    using last_Join_word [OF assms(4,3)] by auto
  then have "last (request_line cid cmd args) \<noteq> carriage_return" using nl by (auto simp: request_line_def)
  then show "dropCR (request_line cid cmd args) = request_line cid cmd args" by (simp add: dropCR_def)
qed

lemma serve_line:
  assumes "token cid" "token cmd" "\<forall>a \<in> set args. word_ok a" "args \<noteq> []"
    "length (request_line cid cmd args) \<le> max_line"
  shows "serveLine addr (request_line cid cmd args @ [newline]) (L, envs) =
    (case handleRequest (envs 0) \<lparr>Version = ''V1'', CorrelationID = cid, Command = ToUpper cmd, Args = args\<rparr> L of
       None \<Rightarrow> ((L, envs \<circ> Suc), Inl (ConnFailed ''EOF''))
     | Some (L', resp) \<Rightarrow> ((L', envs \<circ> Suc), Inr resp))"
proof -
  note l = request_line_no_space [OF assms(1-4)]
  have "scan_lines (request_line cid cmd args @ [newline]) = [request_line cid cmd args]"
    using scan_lines_snoc [of "[]", OF _ l(1) assms(5)] l(2) by (simp add: lines_fit_def whole_lines_def scan_lines_def)
  then show ?thesis
    using ParseRequest_line [OF assms(1-3)] by (simp add: HandleConnection_def handleLine_def split: option.split)
qed

lemma serve_request:
  assumes "token cid" "token cmd" "\<forall>a \<in> set args. word_ok a" "args \<noteq> []"
    "length (request_line cid cmd args) \<le> max_line"
    "handleRequest (envs 0) \<lparr>Version = ''V1'', CorrelationID = cid, Command = ToUpper cmd, Args = args\<rparr> L = Some (L', resp)"
  shows "serveLine addr (request_line cid cmd args @ [newline]) (L, envs) = ((L', envs \<circ> Suc), Inr resp)"
  using serve_line [OF assms(1-5), of addr L envs] assms(6) by simp

section \<open>The leader's side\<close>

text \<open>
  A leader whose replication manager has seen every record of its log, whose log is complete (no
  record removed by retention) and can be sent as text.
\<close>

definition leads :: "string \<Rightarrow> int \<Rightarrow> Broker \<Rightarrow> bool" where
  "leads t p L \<longleftrightarrow> broker_ok L \<and> role (currentPartition t p (bReplication L)) = ''leader''
     \<and> leaderOffset (currentPartition t p (bReplication L)) = nextAt (bStorage L) t p - 1
     \<and> nextAt (bStorage L) t p = int (length (cachedMessages (bStorage L) t p))
     \<and> (\<forall>m \<in> set (cachedMessages (bStorage L) t p). wire_value (Value m) \<and> value_ok (Value m))"

definition ackedBy :: "int \<Rightarrow> string \<Rightarrow> int \<Rightarrow> Manager \<Rightarrow> int option" where
  "ackedBy f t p m = map_option rOffset (map_of (followers (currentPartition t p m)) f)"

text \<open>Topics and partitions whose requests the text protocol can carry.\<close>

definition channel_ok :: "string \<Rightarrow> int \<Rightarrow> bool" where
  "channel_ok t p \<longleftrightarrow> plain_topic t \<and> recoverable t p \<and> 0 \<le> p \<and> wire_topic t \<and> word_ok t \<and> length t \<le> 65000"

lemma current_IsLeader:
  assumes "manager_ok m"
  shows "currentPartition t p (fst (IsLeader t p m)) = currentPartition t p m"
    "snd (IsLeader t p m) \<longleftrightarrow> role (currentPartition t p m) = ''leader''"
proof -
  obtain m1 ps where e: "ensurePartition t p m = (m1, ps)" by force
  note k = ensure_ok [OF assms e]
  have "currentPartition t p m1 = ps" using k(4) by (simp add: currentPartition_def ensurePartition_def)
  then show "currentPartition t p (fst (IsLeader t p m)) = currentPartition t p m"
    using k(7) e by (simp add: IsLeader_def)
  show "snd (IsLeader t p m) \<longleftrightarrow> role (currentPartition t p m) = ''leader''"
    using k(7) e by (simp add: IsLeader_def)
qed

lemma Status_leaderOffset:
  "ManagerStatus tm t p m = (m', st) \<Longrightarrow> sLeaderOffset st = leaderOffset (currentPartition t p m')"
  by (auto simp: ManagerStatus_def statusLocked_def Let_def split: prod.splits)

lemma rOffset_markReplica: "rOffset (markReplica c l tm r) = rOffset r"
  by (simp add: markReplica_def Let_def)

lemma acked_recompute:
  "map_option rOffset (map_of (followers (recompute c tm ps)) f) = map_option rOffset (map_of (followers ps) f)"
  by (simp add: recompute_followers map_of_map rOffset_markReplica option.map_comp comp_def)

lemma Status_keeps:
  assumes "manager_ok m" "ManagerStatus tm t p m = (m', st)"
  shows "manager_ok m'" "rcfg m' = rcfg m" "role (currentPartition t p m') = role (currentPartition t p m)"
    "leaderOffset (currentPartition t p m') = leaderOffset (currentPartition t p m)" "ackedBy f t p m' = ackedBy f t p m"
  using ManagerStatus_current [OF assms] by (simp_all add: ackedBy_def acked_recompute)

lemma leads_manager:
  assumes "leads t p L" "manager_ok m" "role (currentPartition t p m) = ''leader''"
    "leaderOffset (currentPartition t p m) = leaderOffset (currentPartition t p (bReplication L))"
  shows "leads t p (L\<lparr>bReplication := m\<rparr>)"
  using assms broker_ok_manager by (auto simp: leads_def)

lemma handleBrokerFetch_leads:
  assumes "leads t p L" "channel_ok t p" "int64_ok f" "0 \<le> off" "off \<le> nextAt (bStorage L) t p"
    "int64_ok off" "Args req = [t, Itoa p, Itoa f, Itoa off, Itoa 256]"
  obtains m hw where "handleBrokerFetch env req L = Some (L\<lparr>bReplication := m\<rparr>, okLine req (fetchPayload t p f hw
        (take 256 (drop (nat off) (cachedMessages (bStorage L) t p)))))"
    "leads t p (L\<lparr>bReplication := m\<rparr>)" "rcfg m = rcfg (bReplication L)" "int64_ok hw"
    "ackedBy f t p m = ackedBy f t p (bReplication L)"
proof -
  have m0: "manager_ok (bReplication L)" using assms(1) by (auto simp: leads_def broker_ok_def)
  obtain m1 l where l: "IsLeader t p (bReplication L) = (m1, l)" by force
  have lead: "l" and cur: "currentPartition t p m1 = currentPartition t p (bReplication L)"
    using current_IsLeader [OF m0, of t p] assms(1) l by (auto simp: leads_def)
  have m1: "manager_ok m1" "rcfg m1 = rcfg (bReplication L)"
    using manager_step_ok [OF manager_step.is_leader m0, of t p] l by auto
  obtain m2 st where st: "ManagerStatus (tick env 0) t p m1 = (m2, st)" by force
  note k = Status_keeps [OF m1(1) st]
  have lo: "sLeaderOffset st = nextAt (bStorage L) t p - 1"
    using Status_leaderOffset [OF st] k(4) cur assms(1) by (simp add: leads_def)
  let ?ms = "take 256 (drop (nat off) (cachedMessages (bStorage L) t p))"
  have len: "nextAt (bStorage L) t p = int (length (cachedMessages (bStorage L) t p))"
    using assms(1) by (simp add: leads_def)
  have "?ms = []" if "sLeaderOffset st < 0 \<or> off > sLeaderOffset st" using that assms(4,5) lo len by auto
  moreover have "Consume t p off (bStorage L) = Some (drop (nat off) (cachedMessages (bStorage L) t p))"
    using assms(4) by (rule Consume_drop)
  moreover have "int64_ok p" "int64_ok 256" using assms(2) by (auto simp: channel_ok_def recoverable_def int64_ok_def)
  ultimately have h: "handleBrokerFetch env req L =
      Some (L\<lparr>bReplication := m2\<rparr>, okLine req (fetchPayload t p f (sHighWatermark st) ?ms))"
    using assms(3,6,7) l lead st
    by (auto simp: handleBrokerFetch_def intArg_def ParseInt_def Let_def makeStrings_ok_def)
  have "partition_ok (cReplicationFactor (rcfg m2)) (currentPartition t p m2)" using currentPartition_ok [OF k(1)] .
  then have "int64_ok (sHighWatermark st)"
    using ManagerStatus_current(4) [OF m1(1) st] by (auto simp: partition_ok_def int64_ok_def)
  moreover have "leads t p (L\<lparr>bReplication := m2\<rparr>)"
    using leads_manager [OF assms(1) k(1)] k(3,4) cur assms(1) by (simp add: leads_def)
  ultimately show thesis using that [OF h] k(2,5) m1(2) cur by (simp add: ackedBy_def)
qed

lemma AckReplica_role:
  "AckReplica seen tm t p i off m = (m', None) \<Longrightarrow> role (currentPartition t p m') = ''leader''"
  by (auto simp: AckReplica_def Let_def current_recomputeLocked split: prod.splits if_splits option.splits)

lemma follower_known:
  assumes "manager_ok m" "0 < f" "f < cReplicationFactor (rcfg m)"
  shows "\<exists>r. map_of (followers (currentPartition t p m)) f = Some r"
proof -
  have "map fst (followers (currentPartition t p m)) = [1..cReplicationFactor (rcfg m) - 1]"
    using currentPartition_ok [OF assms(1)] by (simp add: partition_ok_def)
  then have "f \<in> set (map fst (followers (currentPartition t p m)))" using assms(2,3) by simp
  then show ?thesis by (simp add: map_of_eq_None_iff flip: not_None_eq)
qed

lemma handleAck_leads:
  assumes "leads t p L" "channel_ok t p" "0 < f" "f < cReplicationFactor (rcfg (bReplication L))" "int64_ok f" "int64_ok a"
    "a < nextAt (bStorage L) t p" "Args req = [t, Itoa p, Itoa f, Itoa a]"
  obtains m payload y where "handleBrokerReplicaAck env req L = (L\<lparr>bReplication := m\<rparr>, okLine req payload)"
    "payload \<noteq> []" "\<not> is_space (last payload)" "leads t p (L\<lparr>bReplication := m\<rparr>)"
    "rcfg m = rcfg (bReplication L)"
    "ackedBy f t p (bReplication L) = Some y" "ackedBy f t p m = Some (max y a)"
proof -
  let ?m = "bReplication L"
  have m0: "manager_ok ?m" and role: "role (currentPartition t p ?m) = ''leader''"
    and lo: "leaderOffset (currentPartition t p ?m) = nextAt (bStorage L) t p - 1"
    using assms(1) by (auto simp: leads_def broker_ok_def)
  obtain m1 e where m1: "AckReplica (tick env 0) (tick env 1) t p f a ?m = (m1, e)" by force
  have ok1: "manager_ok m1" "rcfg m1 = rcfg ?m"
    using manager_step_ok [OF manager_step.ack m0, of "tick env 0" "tick env 1" t p f a] m1 by auto
  note eff = AckReplica_effect [where seen = "tick env 0" and now = "tick env 1" and t = t and p = p and i = f and offset = a,
      OF m0, unfolded m1 prod.case]
  have e: "e = None" using eff assms(3,4) role by simp
  obtain r r' where r: "map_of (followers (currentPartition t p ?m)) f = Some r"
    "map_of (followers (currentPartition t p m1)) f = Some r'"
    using follower_known [OF m0 assms(3,4), of t p] follower_known [OF ok1(1) assms(3), of t p] ok1(2) assms(4) by auto
  have acked: "rOffset r' = max (rOffset r) a"
    using eff [THEN conjunct2, THEN conjunct2, rule_format, OF r] e lo assms(7) by simp
  obtain m2 st where st: "ManagerStatus (tick env 2) t p m1 = (m2, st)" by force
  note k = Status_keeps [OF ok1(1) st]
  let ?payload = "''topic='' @ t @ '' partition='' @ Itoa p @ '' follower='' @ Itoa f @ '' acked_offset='' @ Itoa a @ ackStatus st"
  have "int64_ok p" using assms(2) by (simp add: channel_ok_def recoverable_def)
  then have "handleBrokerReplicaAck env req L = (L\<lparr>bReplication := m2\<rparr>, okLine req ?payload)"
    using assms(5,6,8) m1 e st by (simp add: handleBrokerReplicaAck_def intArg_def ParseInt_def)
  moreover have "\<not> is_space (last ?payload)" by (simp add: ackStatus_def fmt_bool_def is_space_def)
  moreover have "leads t p (L\<lparr>bReplication := m2\<rparr>)"
    using leads_manager [OF assms(1) k(1)] k(3,4) AckReplica_role m1 e eff by simp
  moreover have "ackedBy f t p m2 = Some (max (rOffset r) a)" "ackedBy f t p ?m = Some (rOffset r)"
    using k(5) r acked by (simp_all add: ackedBy_def)
  ultimately show thesis using that k(2) ok1(2) by simp
qed

section \<open>Fetching and acknowledging over the wire\<close>

lemma request_line_length:
  assumes "length t \<le> 65000" "length cid \<le> 20" "length cmd \<le> 20" "int64_ok a" "int64_ok b" "int64_ok c" "int64_ok d"
  shows "length (request_line cid cmd [t, Itoa a, Itoa b, Itoa c, Itoa d]) \<le> max_line"
    "length (request_line cid cmd [t, Itoa a, Itoa b, Itoa c]) \<le> max_line"
  using assms(1-3) length_Itoa [OF assms(4)] length_Itoa [OF assms(5)] length_Itoa [OF assms(6)] length_Itoa [OF assms(7)]
  by (simp_all add: request_line_def max_line_def)

lemma Fetch_leads:
  assumes "leads t p L" "channel_ok t p" "int64_ok f" "0 \<le> off" "off \<le> nextAt (bStorage L) t p" "int64_ok off"
    "LeaderAddr tr \<noteq> []"
  obtains m hw where "transportFetch serveLine t p f off 256 (tr, L, envs) = ((tr\<lparr>seq := seq tr + 1\<rparr>, L\<lparr>bReplication := m\<rparr>, envs \<circ> Suc),
      Inr \<lparr>fetchHighWatermark = hw, fetchRecords = map record_of (take 256 (drop (nat off) (cachedMessages (bStorage L) t p)))\<rparr>)"
    "leads t p (L\<lparr>bReplication := m\<rparr>)" "rcfg m = rcfg (bReplication L)"
    "ackedBy f t p m = ackedBy f t p (bReplication L)"
proof -
  let ?cid = "Itoa (uint (seq tr + 1))" and ?args = "[t, Itoa p, Itoa f, Itoa off, Itoa 256]"
  let ?req = "\<lparr>Version = ''V1'', CorrelationID = ?cid, Command = ''BROKER_FETCH'', Args = ?args\<rparr>"
  let ?ms = "take 256 (drop (nat off) (cachedMessages (bStorage L) t p))"
  have p: "int64_ok p" "int64_ok 256" "word_ok t" "length t \<le> 65000" "wire_topic t"
    using assms(2) by (auto simp: channel_ok_def recoverable_def int64_ok_def)
  have part: "part_ok (bStorage L) t p"
    using assms(1,2) by (intro durable_part_ok) (auto simp: leads_def broker_ok_def channel_ok_def)
  obtain m hw where h: "handleBrokerFetch (envs 0) ?req L = Some (L\<lparr>bReplication := m\<rparr>, okLine ?req (fetchPayload t p f hw ?ms))"
    "leads t p (L\<lparr>bReplication := m\<rparr>)" "rcfg m = rcfg (bReplication L)" "int64_ok hw"
    "ackedBy f t p m = ackedBy f t p (bReplication L)"
    using handleBrokerFetch_leads [OF assms(1-6), of ?req] by auto
  have up: "ToUpper ''BROKER_FETCH'' = ''BROKER_FETCH''" by code_simp
  have tok: "token ''BROKER_FETCH''" by code_simp
  have "serveLine (LeaderAddr tr) (request_line ?cid ''BROKER_FETCH'' ?args @ [newline]) (L, envs)
      = ((L\<lparr>bReplication := m\<rparr>, envs \<circ> Suc), Inr (Ok ?cid (fetchPayload t p f hw ?ms)))"
    using h(1) p request_line_length(1) [OF p(4) length_Itoa_uint [of "seq tr + 1"] _ p(1) assms(3,6) p(2), of "''BROKER_FETCH''"]
    by (intro serve_request [OF token_Itoa tok]) (simp_all add: word_ok_Itoa up handleRequest_def okLine_def)
  moreover have "\<forall>m \<in> set ?ms. wire_value (Value m) \<and> int64_ok (Offset m)"
  proof
    fix x assume "x \<in> set ?ms"
    then have x: "x \<in> set (cachedMessages (bStorage L) t p)" by (meson in_set_dropD in_set_takeD)
    then have "0 \<le> Offset x \<and> Offset x < nextAt (bStorage L) t p"
      using part_ok_consecutive [OF part] by (auto simp: consecutive_def in_set_conv_nth)
    moreover have "nextAt (bStorage L) t p < 2 ^ 63"
      using part by (auto simp: part_ok_def nextAt_def log_ok_def int64_ok_def split: option.splits)
    ultimately show "wire_value (Value x) \<and> int64_ok (Offset x)" using assms(1) x by (auto simp: leads_def int64_ok_def)
  qed
  moreover have "CHR ''|'' \<notin> set ?cid" by (rule Itoa_no) simp_all
  ultimately have "Fetch serveLine t p f off 256 tr (L, envs) = (tr\<lparr>seq := seq tr + 1\<rparr>, (L\<lparr>bReplication := m\<rparr>, envs \<circ> Suc),
      Inr \<lparr>fetchHighWatermark = hw, fetchRecords = map record_of ?ms\<rparr>)"
    using assms(7) p(5) h(4) by (intro Fetch_payload) simp_all
  then show thesis using that h(2,3,5) by (simp add: transportFetch_def)
qed

lemma Ack_leads:
  assumes "leads t p L" "channel_ok t p" "0 < f" "f < cReplicationFactor (rcfg (bReplication L))" "int64_ok f" "int64_ok a"
    "a < nextAt (bStorage L) t p" "LeaderAddr tr \<noteq> []"
  obtains m y where "transportAck serveLine t p f a (tr, L, envs) = ((tr\<lparr>seq := seq tr + 1\<rparr>, L\<lparr>bReplication := m\<rparr>, envs \<circ> Suc), None)"
    "leads t p (L\<lparr>bReplication := m\<rparr>)" "rcfg m = rcfg (bReplication L)"
    "ackedBy f t p (bReplication L) = Some y" "ackedBy f t p m = Some (max y a)"
proof -
  let ?cid = "Itoa (uint (seq tr + 1))" and ?args = "[t, Itoa p, Itoa f, Itoa a]"
  let ?req = "\<lparr>Version = ''V1'', CorrelationID = ?cid, Command = ''BROKER_REPLICA_ACK'', Args = ?args\<rparr>"
  have p: "int64_ok p" "word_ok t" "length t \<le> 65000" using assms(2) by (auto simp: channel_ok_def recoverable_def)
  obtain m payload y where h: "handleBrokerReplicaAck (envs 0) ?req L = (L\<lparr>bReplication := m\<rparr>, okLine ?req payload)"
    "payload \<noteq> []" "\<not> is_space (last payload)" "leads t p (L\<lparr>bReplication := m\<rparr>)"
    "rcfg m = rcfg (bReplication L)"
    "ackedBy f t p (bReplication L) = Some y" "ackedBy f t p m = Some (max y a)"
    by (rule handleAck_leads [OF assms(1-7), where req = ?req and env = "envs 0"]) simp
  have up: "ToUpper ''BROKER_REPLICA_ACK'' = ''BROKER_REPLICA_ACK''" and tok: "token ''BROKER_REPLICA_ACK''" by code_simp+
  have "serveLine (LeaderAddr tr) (request_line ?cid ''BROKER_REPLICA_ACK'' ?args @ [newline]) (L, envs)
      = ((L\<lparr>bReplication := m\<rparr>, envs \<circ> Suc), Inr (Ok ?cid payload))"
    using h(1) p request_line_length(2) [OF p(3) length_Itoa_uint [of "seq tr + 1"] _ p(1) assms(5,6) assms(6), of "''BROKER_REPLICA_ACK''"]
    by (intro serve_request [OF token_Itoa tok]) (simp_all add: word_ok_Itoa up handleRequest_def okLine_def)
  moreover have "CHR ''|'' \<notin> set ?cid" by (rule Itoa_no) simp_all
  ultimately have "Ack serveLine t p f a tr (L, envs) = (tr\<lparr>seq := seq tr + 1\<rparr>, (L\<lparr>bReplication := m\<rparr>, envs \<circ> Suc), None)"
    using assms(8) h(2,3) by (intro Ack_accepted) simp_all
  then show thesis using that h(4-7) by (simp add: transportAck_def)
qed

section \<open>The follower's side\<close>

text \<open>The worker's store as the one of \<open>appendWorld\<close> in a constant environment.\<close>

lemma applyRecords_world:
  "applyRecords appendWorld rs w (s, \<lambda>_. io) a l =
     (case applyRecords (AppendReplicated io) rs w s a l of (w', s', r) \<Rightarrow> (w', (s', \<lambda>_. io), r))"
  by (induction rs arbitrary: w s a l) (auto simp: appendWorld_def split: prod.split option.split)

lemma StepOnce_world:
  "StepOnce fetch ack appendWorld w net (s, \<lambda>_. io) =
     (case StepOnce fetch ack (AppendReplicated io) w net s of (w', net', s', r) \<Rightarrow> (w', net', (s', \<lambda>_. io), r))"
  by (auto simp: StepOnce_def applyRecords_world split: prod.split sum.split option.split)

lemma record_of_simps [simp]: "recOffset (record_of m) = Offset m" "recValue (record_of m) = Value m"
  by (simp_all add: record_of_def)

lemma goodPrefix_all:
  "(\<And>i. i < length ms \<Longrightarrow> Offset (ms ! i) = off + int i) \<Longrightarrow> goodPrefix off (map record_of ms) = map record_of ms"
proof (induction ms arbitrary: off)
  case (Cons m ms)
  have "Offset m = off" using Cons.prems [of 0] by simp
  moreover have "goodPrefix (off + 1) (map record_of ms) = map record_of ms"
    using Cons.prems [of "Suc i" for i] by (intro Cons.IH) force
  ultimately show ?case by simp
qed simp

lemma stamped_values:
  "(\<And>i. i < length ms \<Longrightarrow> Offset (ms ! i) = off + int i) \<Longrightarrow> stamped off (map Value ms) = ms"
  by (rule nth_equalityI) auto

text \<open>A cycle in which the fetched records continue the follower's log.\<close>

lemma StepOnce_full_batch:
  assumes F: "durable s" "io_ok io" "plain_topic t" "recoverable t p" "0 \<le> p" "n = nextAt s t p" "0 \<le> n"
    and w: "w = \<lparr>wFollowerID = f, wTopic = t, wPartition = p, wNextOffset = n, wMaxBatch = 256\<rparr>"
    and fetch: "fetch t p f n 256 net = (net1, Inr \<lparr>fetchHighWatermark = hw, fetchRecords = map record_of ms\<rparr>)"
    and ms: "\<And>i. i < length ms \<Longrightarrow> Offset (ms ! i) = n + int i" "\<forall>m \<in> set ms. value_ok (Value m)"
      "n + int (length ms) \<le> 2 ^ 63 - 1"
    and step: "StepOnce fetch ack (AppendReplicated io) w net s = (w', net', s', ap, e)"
  shows "durable s'" "w' = w\<lparr>wNextOffset := n + int (length ms)\<rparr>" "ap = int (length ms)"
    "nextAt s' t p = n + int (length ms)" "\<exists>k. cachedMessages s' t p = drop k (cachedMessages s t p @ ms)"
    "if ms = [] then net' = net1 \<and> e = None
     else (net', e) = map_prod id (map_option AckFailed) (ack t p f (n + int (length ms) - 1) net1)"
proof -
  have st: "StepOnce fetch ack (\<lambda>_ _. appendWorld t p) w net (s, \<lambda>_. io) = (w', net', (s', \<lambda>_. io), ap, e)"
    using StepOnce_topic [of fetch ack appendWorld w net "(s, \<lambda>_. io)"] step w by (simp add: StepOnce_world)
  have inv: "world_ok t p (s, \<lambda>_. io)" using F by (simp add: world_ok_def)
  have good: "goodPrefix (wNextOffset w) (map record_of ms) = map record_of ms"
    unfolding w using goodPrefix_all [OF ms(1)] by simp
  have f': "fetch (wTopic w) (wPartition w) (wFollowerID w) (wNextOffset w) (wMaxBatch w) net
      = (net1, Inr \<lparr>fetchHighWatermark = hw, fetchRecords = map record_of ms\<rparr>)" using fetch w by simp
  have "0 \<le> wNextOffset w" "wNextOffset w \<le> nextAt (fst (s, \<lambda>_ :: nat. io)) t p" "(2 ^ 63 - 1 :: int) < 2 ^ 63"
    "\<forall>r \<in> set (fetchRecords \<lparr>fetchHighWatermark = hw, fetchRecords = map record_of ms\<rparr>). value_ok (recValue r)"
    "nextAt (fst (s, \<lambda>_ :: nat. io)) t p + int (length (fetchRecords \<lparr>fetchHighWatermark = hw, fetchRecords = map record_of ms\<rparr>))
       \<le> 2 ^ 63 - 1"
    using w F(6,7) ms(2,3) by simp_all
  note eff = replica.StepOnce_effect [OF inv this(1-3) f' this(4,5) st, unfolded FetchResult.simps good]
  have val: "stamped n (map Value ms) = ms" using ms(1) by (rule stamped_values)
  show "durable s'" "w' = w\<lparr>wNextOffset := n + int (length ms)\<rparr>" "ap = int (length ms)"
    "nextAt s' t p = n + int (length ms)" "\<exists>k. cachedMessages s' t p = drop k (cachedMessages s t p @ ms)"
    "if ms = [] then net' = net1 \<and> e = None
     else (net', e) = map_prod id (map_option AckFailed) (ack t p f (n + int (length ms) - 1) net1)"
    using eff w F(6) val by (simp_all add: world_ok_def comp_def batchError_def split: if_splits)
qed

text \<open>One cycle of a follower at offset \<open>n\<close> against the leader's broker.\<close>

text \<open>The next batch of a log that starts at offset 0, and what a follower holds after it.\<close>

lemma batch_of_log:
  assumes c: "consecutive N ms" "N = int (length ms)" and n: "0 \<le> n" "n \<le> N"
  defines "batch \<equiv> take 256 (drop (nat n) ms)" and "n' \<equiv> min (n + 256) N"
  shows "i < length batch \<Longrightarrow> Offset (batch ! i) = n + int i" and "int (length batch) = n' - n"
    and "cache = drop k (drop j (take (nat n) ms) @ batch) \<Longrightarrow> \<exists>j'. cache = drop j' (take (nat n') ms)"
proof -
  show "i < length batch \<Longrightarrow> Offset (batch ! i) = n + int i"
    using c n(1) by (auto simp: batch_def consecutive_def)
  show "int (length batch) = n' - n" using c(2) n by (auto simp: batch_def n'_def)
  have "take (nat n) ms @ batch = take (nat n') ms"
    using c(2) n by (simp add: batch_def n'_def min_def nat_add_distrib flip: take_add)
  then show "cache = drop k (drop j (take (nat n) ms) @ batch) \<Longrightarrow> \<exists>j'. cache = drop j' (take (nat n') ms)"
    by (metis drop_drop_append)
qed

lemma StepOnce_leads:
  assumes L: "leads t p L" "channel_ok t p" "0 < f" "f < cReplicationFactor (rcfg (bReplication L))" "int64_ok f"
    and F: "durable s" "io_ok io" "n = nextAt s t p" "n \<le> nextAt (bStorage L) t p" "LeaderAddr tr \<noteq> []"
    and log: "cachedMessages s t p = drop j (take (nat n) (cachedMessages (bStorage L) t p))"
    and w: "w = \<lparr>wFollowerID = f, wTopic = t, wPartition = p, wNextOffset = n, wMaxBatch = 256\<rparr>"
  defines "n' \<equiv> min (n + 256) (nextAt (bStorage L) t p)"
  obtains tr' m envs' s' where "StepOnce (transportFetch serveLine) (transportAck serveLine) (AppendReplicated io) w (tr, L, envs) s
      = (w\<lparr>wNextOffset := n'\<rparr>, (tr', L\<lparr>bReplication := m\<rparr>, envs'), s', n' - n, None)"
    "durable s'" "nextAt s' t p = n'" "leads t p (L\<lparr>bReplication := m\<rparr>)" "rcfg m = rcfg (bReplication L)" "LeaderAddr tr' \<noteq> []"
    "\<exists>j'. cachedMessages s' t p = drop j' (take (nat n') (cachedMessages (bStorage L) t p))"
    "if n < nextAt (bStorage L) t p
     then \<exists>y. ackedBy f t p (bReplication L) = Some y \<and> ackedBy f t p m = Some (max y (n' - 1))
     else ackedBy f t p m = ackedBy f t p (bReplication L)"
proof -
  let ?LL = "cachedMessages (bStorage L) t p" and ?N = "nextAt (bStorage L) t p"
  define ms where "ms = take 256 (drop (nat n) ?LL)"
  have pl: "plain_topic t" "recoverable t p" "0 \<le> p" using L(2) by (auto simp: channel_ok_def)
  have partL: "part_ok (bStorage L) t p" and partF: "part_ok s t p"
    using L(1) F(1) pl by (auto intro: durable_part_ok simp: leads_def broker_ok_def)
  have N: "?N = int (length ?LL)" using L(1) by (simp add: leads_def)
  have n0: "0 \<le> n" using part_ok_consecutive [OF partF] F(3) by (simp add: consecutive_def)
  have N63: "?N < 2 ^ 63" using partL by (auto simp: part_ok_def nextAt_def log_ok_def int64_ok_def split: option.splits)
  have i64: "int64_ok n" using n0 F(4) N63 by (simp add: int64_ok_def)
  note batch = batch_of_log [OF part_ok_consecutive [OF partL] N n0 F(4), folded ms_def n'_def]
  note off = batch(1) and len = batch(2)
  obtain m1 hw where fetch: "transportFetch serveLine t p f n 256 (tr, L, envs) = ((tr\<lparr>seq := seq tr + 1\<rparr>, L\<lparr>bReplication := m1\<rparr>, envs \<circ> Suc),
      Inr \<lparr>fetchHighWatermark = hw, fetchRecords = map record_of ms\<rparr>)"
    and L1: "leads t p (L\<lparr>bReplication := m1\<rparr>)" "rcfg m1 = rcfg (bReplication L)"
      "ackedBy f t p m1 = ackedBy f t p (bReplication L)"
    unfolding ms_def by (rule Fetch_leads [OF L(1,2,5) n0 F(4) i64 F(5)]) blast
  obtain w' tr' L' s' ap e where st: "StepOnce (transportFetch serveLine) (transportAck serveLine)
      (AppendReplicated io) w (tr, L, envs) s = (w', (tr', L'), s', ap, e)"
    by (metis prod.collapse)
  have n': "n + int (length ms) = n'" using len by simp
  have "\<forall>m \<in> set ms. value_ok (Value m)" "n + int (length ms) \<le> 2 ^ 63 - 1"
    using L(1) N63 F(4) len by (auto simp: ms_def n'_def leads_def dest!: in_set_takeD in_set_dropD)
  note r = StepOnce_full_batch [OF F(1,2) pl F(3) n0 w fetch off this st, unfolded n']
  have log': "\<exists>j'. cachedMessages s' t p = drop j' (take (nat n') ?LL)"
    using r(5) log batch(3) by auto
  show thesis
  proof (cases "ms = []")
    case True
    then have "n' = n" "\<not> n < ?N" using len by (auto simp: n'_def)
    then show thesis
      using True st r(1-4,6) log' L1 F(5) by (intro that [of "tr\<lparr>seq := seq tr + 1\<rparr>" m1 "envs \<circ> Suc" s']) simp_all
  next
    case False
    then have "0 < int (length ms)" by simp
    then have lt: "n < ?N" using len by (simp add: n'_def)
    have a: "n' - 1 < nextAt (bStorage (L\<lparr>bReplication := m1\<rparr>)) t p" "int64_ok (n' - 1)" 
      using n0 N63 F(4) by (auto simp: n'_def int64_ok_def)
    let ?tr = "tr\<lparr>seq := seq tr + 1\<rparr>" and ?L1 = "L\<lparr>bReplication := m1\<rparr>"
    have "f < cReplicationFactor (rcfg (bReplication ?L1))" "LeaderAddr ?tr \<noteq> []" using L(4) L1(2) F(5) by simp_all
    then obtain m y where ack: "transportAck serveLine t p f (n' - 1) (?tr, ?L1, envs \<circ> Suc)
        = ((?tr\<lparr>seq := seq ?tr + 1\<rparr>, ?L1\<lparr>bReplication := m\<rparr>, envs \<circ> Suc \<circ> Suc), None)"
      and m: "leads t p (?L1\<lparr>bReplication := m\<rparr>)" "rcfg m = rcfg (bReplication ?L1)"
        "ackedBy f t p (bReplication ?L1) = Some y" "ackedBy f t p m = Some (max y (n' - 1))"
      by (rule Ack_leads [OF L1(1) L(2,3) _ L(5) a(2,1)]) blast
    show thesis
    proof (rule that)
      show "StepOnce (transportFetch serveLine) (transportAck serveLine) (AppendReplicated io) w (tr, L, envs) s
          = (w\<lparr>wNextOffset := n'\<rparr>, (?tr\<lparr>seq := seq ?tr + 1\<rparr>, L\<lparr>bReplication := m\<rparr>, envs \<circ> Suc \<circ> Suc), s', n' - n, None)"
        using st r(2,3,6) False ack len by simp
    qed (use r(1,4) log' m L1(2,3) F(5) lt in auto)
  qed
qed

section \<open>A follower behind its leader\<close>

text \<open>
  The store of \<open>F\<close> holds a prefix of the leader's log (less what its retention removed), and its only
  worker continues at the end of it. The leader counts on no record that the follower does not have.
\<close>

definition follows :: "string \<Rightarrow> int \<Rightarrow> int \<Rightarrow> Broker \<Rightarrow> Broker \<Rightarrow> bool" where
  "follows t p f F L \<longleftrightarrow> leads t p L \<and> channel_ok t p
     \<and> 0 < f \<and> f < cReplicationFactor (rcfg (bReplication L)) \<and> int64_ok f
     \<and> broker_ok F \<and> nextAt (bStorage F) t p \<le> nextAt (bStorage L) t p
     \<and> (\<exists>j. cachedMessages (bStorage F) t p
           = drop j (take (nat (nextAt (bStorage F) t p)) (cachedMessages (bStorage L) t p)))
     \<and> (\<forall>x. ackedBy f t p (bReplication L) = Some x \<longrightarrow> x < nextAt (bStorage F) t p)
     \<and> (\<exists>key st. workers (bRuntime F) = [(key, st)] \<and> LeaderAddr (rwTransport st) \<noteq> []
           \<and> rwWorker st = \<lparr>wFollowerID = f, wTopic = t, wPartition = p,
                            wNextOffset = nextAt (bStorage F) t p, wMaxBatch = 256\<rparr>)"

text \<open>The leader knows that the follower has what it has.\<close>

definition acked_up :: "string \<Rightarrow> int \<Rightarrow> int \<Rightarrow> Broker \<Rightarrow> Broker \<Rightarrow> bool" where
  "acked_up t p f F L \<longleftrightarrow> ackedBy f t p (bReplication L) = Some (nextAt (bStorage F) t p - 1)"

lemma stepWorkers_follows:
  assumes "follows t p f F L" "env_ok env"
  obtains F' m envs' where "stepWorkers env serveLine (F, L, envs) = (F', L\<lparr>bReplication := m\<rparr>, envs')"
    "follows t p f F' (L\<lparr>bReplication := m\<rparr>)"
    "nextAt (bStorage F') t p = min (nextAt (bStorage F) t p + 256) (nextAt (bStorage L) t p)"
    "nextAt (bStorage F) t p < nextAt (bStorage L) t p \<or> acked_up t p f F L \<longrightarrow> acked_up t p f F' (L\<lparr>bReplication := m\<rparr>)"
proof -
  let ?n = "nextAt (bStorage F) t p" and ?N = "nextAt (bStorage L) t p"
  have L: "leads t p L" "channel_ok t p" "0 < f" "f < cReplicationFactor (rcfg (bReplication L))" "int64_ok f"
    "?n \<le> ?N" "broker_ok F" "\<And>x. ackedBy f t p (bReplication L) = Some x \<Longrightarrow> x < ?n"
    using assms(1) by (simp_all add: follows_def)
  obtain j where log: "cachedMessages (bStorage F) t p = drop j (take (nat ?n) (cachedMessages (bStorage L) t p))"
    using assms(1) by (auto simp: follows_def)
  obtain key st where st: "workers (bRuntime F) = [(key, st)]" "LeaderAddr (rwTransport st) \<noteq> []"
    "rwWorker st = \<lparr>wFollowerID = f, wTopic = t, wPartition = p, wNextOffset = ?n, wMaxBatch = 256\<rparr>"
    using assms(1) by (auto simp: follows_def)
  have io: "io_ok (storeIO env)" using assms(2) by (simp add: env_ok_def)
  obtain tr' m envs' s' where so: "StepOnce (transportFetch serveLine) (transportAck serveLine) (AppendReplicated (storeIO env))
      (rwWorker st) (rwTransport st, L, envs) (bStorage F)
      = ((rwWorker st)\<lparr>wNextOffset := min (?n + 256) ?N\<rparr>, (tr', L\<lparr>bReplication := m\<rparr>, envs'), s', min (?n + 256) ?N - ?n, None)"
    and r: "durable s'" "nextAt s' t p = min (?n + 256) ?N" "leads t p (L\<lparr>bReplication := m\<rparr>)" "rcfg m = rcfg (bReplication L)"
      "LeaderAddr tr' \<noteq> []" "\<exists>j'. cachedMessages s' t p = drop j' (take (nat (min (?n + 256) ?N)) (cachedMessages (bStorage L) t p))"
      "if ?n < ?N then \<exists>y. ackedBy f t p (bReplication L) = Some y \<and> ackedBy f t p m = Some (max y (min (?n + 256) ?N - 1)) else ackedBy f t p m = ackedBy f t p (bReplication L)"
    by (rule StepOnce_leads [OF L(1-5) broker_okD(5) [OF L(7)] io refl L(6) st(2) log st(3)]) blast
  obtain F' where F': "stepWorkers env serveLine (F, L, envs) = (F', L\<lparr>bReplication := m\<rparr>, envs')" "bStorage F' = s'"
    "broker_ok F'" "\<exists>st'. workers (bRuntime F') = [(key, st')] \<and> LeaderAddr (rwTransport st') \<noteq> []
       \<and> rwWorker st' = \<lparr>wFollowerID = f, wTopic = t, wPartition = p, wNextOffset = min (?n + 256) ?N, wMaxBatch = 256\<rparr>"
    using so st r(1,5) L(7)
    by (cases "min (?n + 256) ?N - ?n > 0") (simp_all add: stepWorkers_def stepWorker_def Let_def broker_ok_def)
  have acked: "ackedBy f t p m = (if ?n < ?N then Some (min (?n + 256) ?N - 1) else ackedBy f t p (bReplication L))"
    using r(7) L(8) by (fastforce split: if_splits)
  show thesis
  proof (rule that [OF F'(1)])
    show "follows t p f F' (L\<lparr>bReplication := m\<rparr>)"
      using F' r L acked unfolding follows_def by auto
  qed (use F'(2) r(2) acked L(6) in \<open>auto simp: acked_up_def split: if_splits\<close>)
qed

lemma ticks_follow:
  assumes "follows t p f F L" "\<forall>env \<in> set es. env_ok env"
  obtains F' m envs' where "runtimeRun serveLine (map ReplicationTick es) (F, L, envs) = (F', L\<lparr>bReplication := m\<rparr>, envs')"
    "follows t p f F' (L\<lparr>bReplication := m\<rparr>)"
    "nextAt (bStorage F') t p = min (nextAt (bStorage F) t p + 256 * int (length es)) (nextAt (bStorage L) t p)"
    "nextAt (bStorage F) t p < nextAt (bStorage L) t p \<and> es \<noteq> [] \<or> acked_up t p f F L
       \<longrightarrow> acked_up t p f F' (L\<lparr>bReplication := m\<rparr>)"
  using assms
proof (induction es arbitrary: F L envs thesis)
  case Nil
  have "nextAt (bStorage F) t p \<le> nextAt (bStorage L) t p" using Nil.prems(2) by (simp add: follows_def)
  then show ?case using Nil.prems(2) by (intro Nil.prems(1) [of F "bReplication L" envs]) simp_all
next
  case (Cons env es)
  have env: "env_ok env" "\<forall>env \<in> set es. env_ok env" using Cons.prems(3) by simp_all
  obtain F1 m1 envs1 where a: "stepWorkers env serveLine (F, L, envs) = (F1, L\<lparr>bReplication := m1\<rparr>, envs1)"
    "follows t p f F1 (L\<lparr>bReplication := m1\<rparr>)"
    "nextAt (bStorage F1) t p = min (nextAt (bStorage F) t p + 256) (nextAt (bStorage L) t p)"
    "nextAt (bStorage F) t p < nextAt (bStorage L) t p \<or> acked_up t p f F L \<longrightarrow> acked_up t p f F1 (L\<lparr>bReplication := m1\<rparr>)"
    by (rule stepWorkers_follows [OF Cons.prems(2) env(1)]) blast
  show ?case
  proof (rule Cons.IH [OF _ a(2) env(2), of envs1])
    fix F' m envs'
    assume "runtimeRun serveLine (map ReplicationTick es) (F1, L\<lparr>bReplication := m1\<rparr>, envs1)
        = (F', L\<lparr>bReplication := m1\<rparr>\<lparr>bReplication := m\<rparr>, envs')"
      "follows t p f F' (L\<lparr>bReplication := m1\<rparr>\<lparr>bReplication := m\<rparr>)"
      "nextAt (bStorage F') t p = min (nextAt (bStorage F1) t p + 256 * int (length es)) (nextAt (bStorage (L\<lparr>bReplication := m1\<rparr>)) t p)"
      "nextAt (bStorage F1) t p < nextAt (bStorage (L\<lparr>bReplication := m1\<rparr>)) t p \<and> es \<noteq> []
         \<or> acked_up t p f F1 (L\<lparr>bReplication := m1\<rparr>)
       \<longrightarrow> acked_up t p f F' (L\<lparr>bReplication := m1\<rparr>\<lparr>bReplication := m\<rparr>)"
    with a(1,3,4) show ?thesis
      by (intro Cons.prems(1) [of F' m envs']) auto
  qed
qed

section \<open>The high watermark across brokers\<close>

lemma watermark_acked:
  assumes "manager_ok m" "HighWatermark tm t p m = (m', hw)" "f \<in> fst ` set (inSync (currentPartition t p m'))"
  obtains x where "ackedBy f t p m = Some x" "hw \<le> x"
proof -
  have m': "currentPartition t p m' = recompute (rcfg m) tm (currentPartition t p m)"
    using assms(2) ensure_ok(3,7) [OF assms(1)]
    by (auto simp: HighWatermark_def Let_def current_recomputeLocked split: prod.splits)
  note ok = currentPartition_ok [OF assms(1), of t p]
  obtain r where r: "(f, r) \<in> set (inSync (recompute (rcfg m) tm (currentPartition t p m)))" using assms(3) m' by auto
  then have fr: "(f, r) \<in> set (followers (recompute (rcfg m) tm (currentPartition t p m)))" by (simp add: inSync_def)
  have "distinct (map fst (followers (recompute (rcfg m) tm (currentPartition t p m))))"
    using recompute_ok [OF ok] by (simp add: partition_ok_def)
  then have "map_of (followers (recompute (rcfg m) tm (currentPartition t p m))) f = Some r"
    using fr by (rule map_of_is_SomeI)
  then have "ackedBy f t p m = Some (rOffset r)" using acked_recompute [of "rcfg m" tm "currentPartition t p m" f]
    by (simp add: ackedBy_def)
  moreover have "hw \<le> rOffset r"
    using HighWatermark_value [OF assms(1), of tm t p] assms(2) recompute_hw [OF ok, of "rcfg m" tm] r
    by (auto intro!: Min_le rev_image_eqI)
  ultimately show thesis by (rule that)
qed

lemma held_below:
  assumes "consecutive (int (length ms)) ms" "r \<in> set ms" "Offset r < n"
  shows "r \<in> set (drop j (take (nat n) ms)) \<or> Offset r < int j"
proof -
  obtain i where i: "i < length ms" "r = ms ! i" using assms(2) by (auto simp: in_set_conv_nth)
  then have off: "Offset r = int i" using assms(1) by (simp add: consecutive_def)
  show ?thesis
  proof (cases "i < j")
    case False
    have "drop j (take (nat n) ms) ! (i - j) = r" "i - j < length (drop j (take (nat n) ms))"
      using False i off assms(3) by simp_all
    then show ?thesis by (metis nth_mem)
  qed (simp add: off)
qed

end
