(* ===== verification/Python_Session.thy ===== *)
theory Python_Session
  imports Python_Runtime Client_Guarantees Cluster
begin

text \<open>
  The Python client connected to a broker. Each request line goes through the broker's connection
  handler, and the client parses the line that comes back.
\<close>

section \<open>A request and its answer\<close>

definition brokerExchange :: "server exchange" where
  "brokerExchange line srv =
     (case serveLine [] line srv of
        (srv', Inl e) \<Rightarrow> (srv', Inr [])
      | (srv', Inr response) \<Rightarrow> (srv', Inr response))"

definition okResponse :: "string \<Rightarrow> string \<Rightarrow> FLUXResponse" where
  "okResponse cid payload = \<lparr>rsVersion = ''V1'', rsCorrelationId = cid, rsStatus = ''OK'', rsPayload = Some payload,
     rsCode = None, rsMessage = None, rsRaw = ''V1|'' @ cid @ ''|OK|'' @ payload\<rparr>"

definition errResponse :: "string \<Rightarrow> string \<Rightarrow> string \<Rightarrow> FLUXResponse" where
  "errResponse cid code msg = \<lparr>rsVersion = ''V1'', rsCorrelationId = cid, rsStatus = ''ERR'', rsPayload = None,
     rsCode = Some code, rsMessage = Some msg, rsRaw = ''V1|'' @ cid @ ''|ERR|'' @ code @ ''|'' @ msg\<rparr>"

lemma answer_Ok:
  assumes "CHR ''|'' \<notin> set cid" "payload \<noteq> []" "\<not> py_space (last payload)"
  shows "answer cid (Ok cid payload) = Inr (okResponse cid payload)"
proof -
  let ?line = "''V1|'' @ cid @ ''|OK|'' @ payload"
  have "py_strip (?line @ [newline]) = ?line" using assms(2,3) by (intro py_strip_snoc) auto
  then show ?thesis
    using assms(2) parse_response_OK [OF assms(1), of payload]
    by (simp add: answer_def Ok_def protocol_Version_def okResponse_def)
qed

lemma answer_Err:
  assumes "CHR ''|'' \<notin> set cid" "cid \<noteq> []" "CHR ''|'' \<notin> set code" "code \<noteq> []" "msg \<noteq> []" "\<not> py_space (last msg)"
  shows "answer cid (Err cid code msg) = Inl (FLUXProtocolError msg code (errResponse cid code msg))"
proof -
  let ?line = "''V1|'' @ cid @ ''|ERR|'' @ code @ ''|'' @ msg"
  have "py_strip (?line @ [newline]) = ?line" using assms(5,6) by (intro py_strip_snoc) auto
  then show ?thesis
    using assms(2,4,5) parse_response_ERR [OF assms(1,3), of msg]
    by (simp add: answer_def Err_def protocol_Version_def errResponse_def or_default_def)
qed

definition sent :: "FLUXClient \<Rightarrow> string \<Rightarrow> string list \<Rightarrow> Request" where
  "sent c cmd args = \<lparr>Version = ''V1'', CorrelationID = Itoa (clSeq c), Command = cmd, Args = args\<rparr>"

definition line_ok :: "FLUXClient \<Rightarrow> string \<Rightarrow> string list \<Rightarrow> bool" where
  "line_ok c cmd args \<longleftrightarrow> clOpen c \<and> token cmd \<and> ToUpper cmd = cmd \<and> args \<noteq> [] \<and> (\<forall>a \<in> set args. word_ok a)
     \<and> length (request_line (Itoa (clSeq c)) cmd args) \<le> max_line"

lemma send_command_served:
  assumes "line_ok c cmd args" "handleRequest (envs 0) (sent c cmd args) L = Some (L', response)" "response \<noteq> []"
  shows "send_command brokerExchange cmd (Join args '' '') (c, L, envs)
    = ((served c, L', envs \<circ> Suc), answer (Itoa (clSeq c)) response)"
proof -
  have "serveLine [] (request_line (Itoa (clSeq c)) cmd args @ [newline]) (L, envs) = ((L', envs \<circ> Suc), Inr response)"
    using assms(1,2) by (intro serve_request [OF token_Itoa]) (simp_all add: line_ok_def sent_def)
  then show ?thesis using assms(1) by (simp add: send_command_def brokerExchange_def line_ok_def request_line_def Let_def)
qed

lemma send_command_panic:
  assumes "line_ok c cmd args" "handleRequest (envs 0) (sent c cmd args) L = None"
  shows "send_command brokerExchange cmd (Join args '' '') (c, L, envs)
    = ((served c, L, envs \<circ> Suc), Inl (ConnectionError ''FLUX connection closed by server''))"
proof -
  have "serveLine [] (request_line (Itoa (clSeq c)) cmd args @ [newline]) (L, envs) = ((L, envs \<circ> Suc), Inl (ConnFailed ''EOF''))"
    using assms serve_line [OF token_Itoa, of cmd args "clSeq c" "[]" L envs] by (simp add: line_ok_def sent_def)
  then show ?thesis
    using assms(1) by (simp add: send_command_def brokerExchange_def line_ok_def request_line_def Let_def answer_def)
qed

lemma request_answered:
  assumes "line_ok c cmd args" "handleRequest (envs 0) (sent c cmd args) L = Some (L', okLine (sent c cmd args) payload)"
    "payload \<noteq> []" "\<not> py_space (last payload)"
  shows "request brokerExchange cmd (Join args '' '') fallback parse (c, L, envs)
    = ((served c, L', envs \<circ> Suc), parse (okResponse (Itoa (clSeq c)) payload) payload)"
proof -
  have "CHR ''|'' \<notin> set (Itoa (clSeq c))" by (rule Itoa_no) simp_all
  then have "answer (Itoa (clSeq c)) (okLine (sent c cmd args) payload) = Inr (okResponse (Itoa (clSeq c)) payload)"
    using answer_Ok assms(3,4) by (simp add: okLine_def sent_def)
  moreover have "okLine (sent c cmd args) payload \<noteq> []" by (simp add: okLine_def Ok_def)
  ultimately show ?thesis
    using send_command_served [where envs = envs, OF assms(1,2)] by (simp add: request_def must_payload_def okResponse_def)
qed

lemma request_refused:
  assumes "line_ok c cmd args" "handleRequest (envs 0) (sent c cmd args) L = Some (L', errLine (sent c cmd args) code msg)"
    "CHR ''|'' \<notin> set code" "code \<noteq> []" "msg \<noteq> []" "\<not> py_space (last msg)"
  shows "request brokerExchange cmd (Join args '' '') fallback parse (c, L, envs)
    = ((served c, L', envs \<circ> Suc), Inl (FLUXProtocolError msg code (errResponse (Itoa (clSeq c)) code msg)))"
proof -
  have "CHR ''|'' \<notin> set (Itoa (clSeq c))" by (rule Itoa_no) simp_all
  then have "answer (Itoa (clSeq c)) (errLine (sent c cmd args) code msg)
      = Inl (FLUXProtocolError msg code (errResponse (Itoa (clSeq c)) code msg))"
    using answer_Err assms(3-6) by (simp add: errLine_def sent_def)
  moreover have "errLine (sent c cmd args) code msg \<noteq> []" by (simp add: errLine_def Err_def Let_def)
  ultimately show ?thesis using send_command_served [where envs = envs, OF assms(1,2)] by (simp add: request_def)
qed

section \<open>Consuming\<close>

text \<open>Values that survive the list of records in the answer to \<open>CONSUME\<close>.\<close>

definition sdk_value :: "string \<Rightarrow> bool" where
  "sdk_value v \<longleftrightarrow> CHR '','' \<notin> set v \<and> (\<forall>c \<in> set v. \<not> py_space c)"

definition received :: "Message \<Rightarrow> ConsumedMessage" where
  "received m = \<lparr>cmOffset = Offset m, cmValue = Value m\<rparr>"

lemma consumed_items_fetchItem: "consumed_items (map fetchItem ms) = Inr (map received ms)"
proof (induction ms)
  case (Cons m ms)
  obtain P where P: "P \<noteq> []" "Split (fetchItem m) '':'' = Itoa (Offset m) # P" "Join P '':'' = Value m"
    using Split_item by blast
  have "fetchItem m \<noteq> []" by (simp add: fetchItem_def)
  then show ?case using Cons P by (cases P) (simp_all add: received_def)
qed simp

lemma fetchItem_plain:
  assumes "sdk_value (Value m)" "c \<in> set (fetchItem m)"
  shows "\<not> py_space c \<and> c \<noteq> CHR '',''"
proof -
  consider "c \<in> set (Itoa (Offset m))" | "c = CHR '':''" | "c \<in> set (Value m)" using assms(2) by (auto simp: fetchItem_def)
  then show ?thesis
  proof cases
    case 1
    then show ?thesis using Itoa_no [of "CHR '',''" "Offset m"] py_space_Itoa by auto
  next
    case 2
    then show ?thesis by (simp add: py_space_def is_space_def)
  qed (use assms(1) in \<open>auto simp: sdk_value_def\<close>)
qed

lemma items_plain:
  assumes "\<forall>m \<in> set ms. sdk_value (Value m)"
  shows "\<forall>c \<in> set (Join (map fetchItem ms) '',''). \<not> py_space c"
proof
  fix c assume "c \<in> set (Join (map fetchItem ms) '','')"
  then have "c = CHR '','' \<or> (\<exists>m \<in> set ms. c \<in> set (fetchItem m))" using set_Join by fastforce
  moreover have "\<not> py_space (CHR '','')" by (simp add: py_space_def is_space_def)
  ultimately show "\<not> py_space c" using assms fetchItem_plain by blast
qed

lemma consumed_messages_read_back:
  assumes "\<forall>m \<in> set ms. sdk_value (Value m)"
  shows "consumed_messages (''messages='' @ Join (map fetchItem ms) '','' @ '' hw='' @ Itoa hw) = Inr (map received ms)"
proof -
  let ?items = "Join (map fetchItem ms) '',''"
  have pl: "\<forall>c \<in> set ?items. \<not> py_space c" using items_plain [OF assms] .
  then have "CHR '' '' \<notin> set ?items" by auto
  then have h: "SplitN (?items @ '' hw='' @ Itoa hw) '' hw='' 2 ! 0 = ?items"
    using Index_hw [of ?items "Itoa hw"] by (simp add: numeral_2_eq_2)
  have m: "SplitN (''messages='' @ ?items @ '' hw='' @ Itoa hw) ''messages='' 2 = [[], ?items @ '' hw='' @ Itoa hw]"
    by (simp add: numeral_2_eq_2)
  have s: "py_strip ?items = ?items" using pl by (rule py_strip_no_space)
  show ?thesis
  proof (cases "ms = []")
    case True
    then show ?thesis using m h s by (simp add: consumed_messages_def)
  next
    case False
    then have ne: "?items \<noteq> []" by (cases ms rule: remdups_adj.cases) (auto simp: fetchItem_def)
    have "Split ?items '','' = map fetchItem ms"
      using False assms fetchItem_plain by (intro Split_Join) fastforce+
    then show ?thesis using m h s ne by (simp add: consumed_messages_def consumed_items_fetchItem)
  qed
qed

lemma last_Itoa: "\<not> py_space (last (Itoa i))"
  using py_space_Itoa by (metis Itoa_nonempty last_in_set)

lemma py_consume_visible:
  assumes "broker_ok L" "plain_topic t" "line_ok c ''CONSUME'' [t, Itoa p, Itoa off]" "int64_ok p" "int64_ok off" "0 \<le> off"
    "map_of (Topics (metadata (bController L))) t = Some tm" "map_of (tmPartitions tm) p = Some pm"
    "HighWatermark (tick (envs 0) 1) t p (bReplication L) = (m, hw)"
    "\<forall>r \<in> set (visible (bStorage L) t p off hw). sdk_value (Value r)"
  shows "py_consume brokerExchange t p off (c, L, envs)
    = ((served c, L\<lparr>bReplication := m\<rparr>, envs \<circ> Suc), Inr (map received (visible (bStorage L) t p off hw)))"
proof -
  let ?req = "sent c ''CONSUME'' [t, Itoa p, Itoa off]" and ?ms = "visible (bStorage L) t p off hw"
  let ?payload = "''messages='' @ Join (map fetchItem ?ms) '','' @ '' hw='' @ Itoa hw"
  have "handleConsume (envs 0) ?req L = Some (L\<lparr>bReplication := m\<rparr>, okLine ?req ?payload)"
    using handleConsume_visible [OF assms(1,2), of ?req "Itoa p" "Itoa off" p off tm pm "envs 0"] assms(4-9)
    by (auto simp: sent_def)
  then have "handleRequest (envs 0) ?req L = Some (L\<lparr>bReplication := m\<rparr>, okLine ?req ?payload)"
    by (simp add: handleRequest_def sent_def)
  from request_answered [where envs = envs and parse = "\<lambda>_. consumed_messages", OF assms(3) this] show ?thesis
    using consumed_messages_read_back [OF assms(10), of hw] last_Itoa [of hw] by (simp add: py_consume_def)
qed

section \<open>Producing\<close>

lemma py_strip_keeps:
  assumes "s \<noteq> []" "\<not> py_space (hd s)" "\<not> py_space (last s)"
  shows "\<exists>r'. py_strip (s @ r) = s @ r'"
proof -
  have d: "dropWhile py_space (s @ r) = s @ r" using assms(1,2) by (cases s) auto
  have "\<exists>u. dropWhile py_space (x @ rev s) = u @ rev s" for x
  proof (induction x)
    case Nil
    have "dropWhile py_space (rev s) = rev s" using assms(1,3) by (simp add: dropWhile_eq_self_iff hd_rev)
    then show ?case by auto
  qed auto
  from this [of "rev r"] obtain u where "dropWhile py_space (rev (s @ r)) = u @ rev s" by auto
  then have "py_strip (s @ r) = s @ rev u" by (simp add: py_strip_def d)
  then show ?thesis by blast
qed

lemma answer_Err_any:
  assumes "CHR ''|'' \<notin> set cid" "cid \<noteq> []"
  shows "\<exists>msg' code' resp. answer cid (Err cid code msg) = Inl (FLUXProtocolError msg' code' resp)"
proof -
  let ?s = "''V1|'' @ cid @ ''|ERR|''"
  have e: "Err cid code msg = ?s @ code @ ''|'' @ msg @ [newline]" using assms(2) by (simp add: Err_def protocol_Version_def)
  obtain r where r: "py_strip (Err cid code msg) = ?s @ r"
    using py_strip_keeps [of ?s "code @ ''|'' @ msg @ [newline]"] unfolding e by (auto simp: py_space_def is_space_def)
  obtain P where P: "P \<noteq> []" "r = Join P ''|''" "\<forall>x \<in> set P. CHR ''|'' \<notin> set x"
    using pieces [of r "CHR ''|''"] by blast
  then obtain x xs where x: "P = x # xs" by (cases P) auto
  have line: "?s @ r = Join (''V1'' # cid # ''ERR'' # x # xs) ''|''" using P x by simp
  have "Split (?s @ r) ''|'' = ''V1'' # cid # ''ERR'' # x # xs"
    unfolding line using P assms x by (intro Split_Join) auto
  then show ?thesis unfolding answer_def r by (simp add: e parse_response_def Let_def)
qed

lemma produce_result_read_back:
  "produce_result resp (''partition='' @ Itoa p @ '' offset='' @ Itoa off @ '' hw='' @ Itoa hw)
   = Inr \<lparr>prPartition = p, prOffset = off, prHighWatermark = Some hw, prRaw = resp\<rparr>"
proof -
  let ?e = "CHR ''=''"
  let ?payload = "''partition='' @ Itoa p @ '' offset='' @ Itoa off @ '' hw='' @ Itoa hw"
  have n: "?e \<notin> set (Itoa i)" for i by (rule Itoa_no) simp_all
  have s: "\<not> HasSuffix (x @ '' offset'') ''hw''" for x by (auto simp: HasSuffix_def)
  have pay: "?payload = ''partition'' @ ?e # (Itoa p @ '' offset'') @ ?e # (Itoa off @ '' '') @ ''hw'' @ ?e # Itoa hw" by simp
  have "Index (''partition'' @ ?e # z) (''hw'' @ [?e]) = map_option (\<lambda>i. length ''partition'' + 1 + i) (Index z (''hw'' @ [?e]))" for z
    by (rule Index_key) (simp_all add: HasSuffix_def)
  moreover have "Index ((Itoa p @ '' offset'') @ ?e # z) (''hw'' @ [?e])
      = map_option (\<lambda>i. length (Itoa p @ '' offset'') + 1 + i) (Index z (''hw'' @ [?e]))" for z
    by (rule Index_key) (use n s in simp_all)
  moreover have "Index ((Itoa off @ '' '') @ ''hw'' @ ?e # Itoa hw) (''hw'' @ [?e]) = Some (length (Itoa off @ '' ''))"
    by (rule Index_key_here) (use n in simp_all)
  ultimately have hw: "Index ?payload (''hw'' @ ''='') = Some (length (''partition='' @ Itoa p @ '' offset='' @ Itoa off @ '' ''))"
    unfolding pay by simp
  have "Index (''partition'' @ ?e # z) (''offset'' @ [?e]) = map_option (\<lambda>i. length ''partition'' + 1 + i) (Index z (''offset'' @ [?e]))" for z
    by (rule Index_key) (simp_all add: HasSuffix_def)
  moreover have "Index ((Itoa p @ '' '') @ ''offset'' @ ?e # z) (''offset'' @ [?e]) = Some (length (Itoa p @ '' ''))" for z
    by (rule Index_key_here) (use n in simp_all)
  ultimately have off: "Index ?payload (''offset'' @ ''='') = Some (length (''partition='' @ Itoa p @ '' ''))"
    unfolding pay by simp
  have part: "Index ?payload (''partition'' @ ''='') = Some (length [])" by (simp add: HasPrefix_def)
  have "extract_int_field ?payload ''hw'' = Inr hw"
    by (rule extract_int_field_here [OF hw, where rest = "[]"]) simp_all
  moreover have "extract_int_field ?payload ''offset'' = Inr off"
    by (rule extract_int_field_here [OF off, where rest = "'' hw='' @ Itoa hw"]) simp_all
  moreover have "extract_int_field ?payload ''partition'' = Inr p"
    by (rule extract_int_field_here [OF part, where rest = "'' offset='' @ Itoa off @ '' hw='' @ Itoa hw"]) simp_all
  ultimately show ?thesis by (simp add: produce_result_def)
qed

lemma acks_all: "ackModeOf [''acks=all''] = Some ''all''"
  by code_simp

text \<open>The answer to a \<open>PRODUCE\<close> that was carried out.\<close>

abbreviation produced_at :: "int \<Rightarrow> int \<Rightarrow> int \<Rightarrow> string" where
  "produced_at p off hw \<equiv> ''partition='' @ Itoa p @ '' offset='' @ Itoa off @ '' hw='' @ Itoa hw"

abbreviation produce_args :: "string \<Rightarrow> string \<Rightarrow> string \<Rightarrow> string \<Rightarrow> string list" where
  "produce_args t k v a \<equiv> [t, k @ '':'' @ v, ''acks='' @ a]"

lemma py_produce_request:
  assumes "a \<in> set [''0'', ''1'', ''all'']"
  shows "py_produce ex t k v a cn =
    request ex ''PRODUCE'' (Join (produce_args t k v a) '' '') ''produce response payload missing'' produce_result cn"
  using assms by (auto simp: py_produce_def)

lemma handle_sent_produce: "handleRequest env (sent c ''PRODUCE'' args) L = handleProduce env (sent c ''PRODUCE'' args) L"
  by (simp add: handleRequest_def sent_def)

lemma py_produce_answered:
  assumes "line_ok c ''PRODUCE'' (produce_args t k v a)" "a \<in> set [''0'', ''1'', ''all'']"
    "handleProduce (envs 0) (sent c ''PRODUCE'' (produce_args t k v a)) L
      = Some (L', okLine (sent c ''PRODUCE'' (produce_args t k v a)) (produced_at p off hw))"
  shows "\<exists>raw. py_produce brokerExchange t k v a (c, L, envs) = ((served c, L', envs \<circ> Suc),
    Inr \<lparr>prPartition = p, prOffset = off, prHighWatermark = Some hw, prRaw = raw\<rparr>)"
proof -
  define pay where "pay = produced_at p off hw"
  have pay: "pay \<noteq> []" "\<not> py_space (last pay)" using last_Itoa [of hw] by (simp_all add: pay_def)
  have "produce_result r pay = Inr \<lparr>prPartition = p, prOffset = off, prHighWatermark = Some hw, prRaw = r\<rparr>" for r
    unfolding pay_def by (rule produce_result_read_back)
  moreover have "handleRequest (envs 0) (sent c ''PRODUCE'' (produce_args t k v a)) L
      = Some (L', okLine (sent c ''PRODUCE'' (produce_args t k v a)) pay)"
    using assms(3) unfolding handle_sent_produce pay_def .
  ultimately have "py_produce brokerExchange t k v a (c, L, envs) = ((served c, L', envs \<circ> Suc),
      Inr \<lparr>prPartition = p, prOffset = off, prHighWatermark = Some hw, prRaw = okResponse (Itoa (clSeq c)) pay\<rparr>)"
    unfolding py_produce_request [OF assms(2)]
    by (subst request_answered [where envs = envs, OF assms(1) _ pay]) simp_all
  then show ?thesis by blast
qed

lemma py_produce_refused:
  assumes "line_ok c ''PRODUCE'' (produce_args t k v a)" "a \<in> set [''0'', ''1'', ''all'']"
    "\<forall>L' resp. handleProduce (envs 0) (sent c ''PRODUCE'' (produce_args t k v a)) L = Some (L', resp)
       \<longrightarrow> (\<exists>code why. resp = errLine (sent c ''PRODUCE'' (produce_args t k v a)) code why)"
  shows "\<exists>cn e. py_produce brokerExchange t k v a (c, L, envs) = (cn, Inl e)"
proof (cases "handleProduce (envs 0) (sent c ''PRODUCE'' (produce_args t k v a)) L")
  case None
  note p = send_command_panic [where envs = envs, OF assms(1) None [folded handle_sent_produce]]
  show ?thesis unfolding py_produce_request [OF assms(2)] request_def p by simp
next
  case (Some x)
  let ?req = "sent c ''PRODUCE'' (produce_args t k v a)" and ?cid = "Itoa (clSeq c)"
  obtain L' resp where h: "handleProduce (envs 0) ?req L = Some (L', resp)" using Some by (cases x) auto
  obtain code why where e: "resp = errLine ?req code why" using assms(3) h by blast
  have "CHR ''|'' \<notin> set ?cid" by (rule Itoa_no) simp_all
  then obtain msg' code' r where "answer ?cid resp = Inl (FLUXProtocolError msg' code' r)"
    using answer_Err_any [of ?cid code why] e by (auto simp: errLine_def sent_def)
  moreover have "resp \<noteq> []" by (simp add: e errLine_def Err_def Let_def)
  moreover note send_command_served [where envs = envs, OF assms(1) h [folded handle_sent_produce]]
  ultimately show ?thesis unfolding py_produce_request [OF assms(2)] request_def by simp
qed

lemma py_produce_stored:
  assumes "broker_ok L" "env_ok (envs 0)" "record_fits (sent c ''PRODUCE'' (produce_args t k v a)) L"
    "line_ok c ''PRODUCE'' (produce_args t k v a)" "a \<in> set [''0'', ''1'', ''all'']" "CHR '':'' \<notin> set k"
    "py_produce brokerExchange t k v a (c, L, envs) = ((c', L', envs'), Inr res)"
  shows "prOffset res = nextAt (bStorage L) t (prPartition res)
    \<and> nextAt (bStorage L') t (prPartition res) = prOffset res + 1
    \<and> cachedMessages (bStorage L') t (prPartition res) \<noteq> []
    \<and> last (cachedMessages (bStorage L') t (prPartition res)) = \<lparr>Offset = prOffset res, Value = v\<rparr>
    \<and> (a = ''all'' \<longrightarrow> (\<exists>m. held_by_isr (prOffset res) (rcfg (bReplication L)) (currentPartition t (prPartition res) m)))"
proof -
  let ?req = "sent c ''PRODUCE'' (produce_args t k v a)"
  obtain L1 resp where h: "handleProduce (envs 0) ?req L = Some (L1, resp)" "\<And>code why. resp \<noteq> errLine ?req code why"
    using py_produce_refused [where envs = envs, OF assms(4,5)] assms(7) by fastforce
  obtain topic msg rest key u p off m hw where a: "Args ?req = topic # msg # rest" "SplitN msg '':'' 2 = [key, u]"
    "resp = okLine ?req (produced_at p off hw)"
    "off = nextAt (bStorage L) topic p" "nextAt (bStorage L1) topic p = off + 1" "cachedMessages (bStorage L1) topic p \<noteq> []"
    "last (cachedMessages (bStorage L1) topic p) = \<lparr>Offset = off, Value = u\<rparr>"
    "ackModeOf rest = Some ''all'' \<longrightarrow> held_by_isr off (rcfg (bReplication L)) (currentPartition topic p m)"
    using handleProduce_stored [OF assms(1-3) h(1)] h(2) by blast
  have split: "SplitN (k @ '':'' @ v) '':'' 2 = [k, v]" using assms(6) by simp
  have t: "topic = t" "u = v" "rest = [''acks='' @ a]" using a(1,2) split by (auto simp: sent_def)
  have "a = ''all'' \<longrightarrow> ackModeOf rest = Some ''all''" unfolding t(3) by (auto intro: acks_all)
  moreover have "prPartition res = p" "prOffset res = off" "L' = L1"
    using py_produce_answered [where envs = envs, OF assms(4,5) h(1) [unfolded a(3)]] assms(7) by auto
  ultimately show ?thesis using a(4-8) unfolding t by fastforce
qed

section \<open>A group member connected to a broker\<close>

text \<open>
  The broker knows the partition, and the consumer as its owner in the current generation; at all
  coming instants all members of the group are live. Retention has not removed records, the values
  can be sent, and the group's position is within the log.
\<close>

definition member_ok :: "string \<Rightarrow> string \<Rightarrow> string \<Rightarrow> int \<Rightarrow> int \<Rightarrow> server \<Rightarrow> bool" where
  "member_ok grp t member gen p srv \<longleftrightarrow>
     (\<exists>g. map_of (groups (cGroups (bCoordinator (fst srv)))) grp = Some g \<and> gTopic g = t \<and> generation g = gen
        \<and> member \<in> set (memberOrder g) \<and> p \<in> set (owned (assignments g) member)
        \<and> (\<forall>i. list_all (fresh (sessionTimeout (cGroups (bCoordinator (fst srv)))) (tick (snd srv i) 0) g) (memberOrder g)))"

definition positionOf :: "string \<Rightarrow> string \<Rightarrow> int \<Rightarrow> server \<Rightarrow> int" where
  "positionOf grp t p srv = GetOffset grp t p (cOffsets (bCoordinator (fst srv)))"

definition recordsOf :: "string \<Rightarrow> int \<Rightarrow> server \<Rightarrow> ConsumedMessage list" where
  "recordsOf t p srv = map received (cachedMessages (bStorage (fst srv)) t p)"

definition session_ok :: "string \<Rightarrow> string \<Rightarrow> string \<Rightarrow> int \<Rightarrow> int \<Rightarrow> server \<Rightarrow> bool" where
  "session_ok grp t member gen p srv \<longleftrightarrow> broker_ok (fst srv) \<and> (\<forall>i. env_ok (snd srv i))
     \<and> room (cGroups (bCoordinator (fst srv))) \<and> plain_topic t \<and> word_ok t \<and> word_ok grp \<and> word_ok member
     \<and> length t + length grp + length member \<le> 60000 \<and> int64_ok gen \<and> int64_ok p
     \<and> (\<exists>tm pm. map_of (Topics (metadata (bController (fst srv)))) t = Some tm \<and> map_of (tmPartitions tm) p = Some pm)
     \<and> member_ok grp t member gen p srv
     \<and> nextAt (bStorage (fst srv)) t p = int (length (cachedMessages (bStorage (fst srv)) t p))
     \<and> (\<forall>m \<in> set (cachedMessages (bStorage (fst srv)) t p). sdk_value (Value m))
     \<and> 0 \<le> positionOf grp t p srv \<and> positionOf grp t p srv \<le> nextAt (bStorage (fst srv)) t p"

text \<open>What else may happen to the broker: anything that leaves the session as it is and only adds records.\<close>

definition session_grows :: "string \<Rightarrow> string \<Rightarrow> string \<Rightarrow> int \<Rightarrow> int \<Rightarrow> server \<Rightarrow> server \<Rightarrow> bool" where
  "session_grows grp t member gen p srv srv' \<longleftrightarrow> session_ok grp t member gen p srv'
     \<and> positionOf grp t p srv' = positionOf grp t p srv
     \<and> prefix (cachedMessages (bStorage (fst srv)) t p) (cachedMessages (bStorage (fst srv')) t p)"

lemma length_Itoa_seq: "client_ok c \<Longrightarrow> length (Itoa (clSeq c)) \<le> 20"
  by (rule length_Itoa) (simp add: client_ok_def int64_ok_def)

lemma session_lines:
  assumes "session_ok grp t member gen p srv" "client_ok c" "int64_ok off"
  shows "line_ok c ''OFFSET'' [grp, t, Itoa p]" "line_ok c ''CONSUME'' [t, Itoa p, Itoa off]"
    "line_ok c ''COMMIT'' [grp, t, member, Itoa gen, Itoa p, Itoa off]"
proof -
  have u: "ToUpper ''OFFSET'' = ''OFFSET''" "ToUpper ''CONSUME'' = ''CONSUME''" "ToUpper ''COMMIT'' = ''COMMIT''"
    and k: "token ''OFFSET''" "token ''CONSUME''" "token ''COMMIT''" by code_simp+
  have w: "word_ok t" "word_ok grp" "word_ok member" "length t + length grp + length member \<le> 60000"
    and n: "length (Itoa gen) \<le> 20" "length (Itoa p) \<le> 20" "length (Itoa off) \<le> 20" "length (Itoa (clSeq c)) \<le> 20"
    using assms length_Itoa length_Itoa_seq by (auto simp: session_ok_def)
  show "line_ok c ''OFFSET'' [grp, t, Itoa p]" "line_ok c ''CONSUME'' [t, Itoa p, Itoa off]"
    "line_ok c ''COMMIT'' [grp, t, member, Itoa gen, Itoa p, Itoa off]"
    using assms(2) u k w n by (simp_all add: line_ok_def client_ok_def word_ok_Itoa request_line_def max_line_def)
qed

lemma session_get:
  assumes "session_ok grp t member gen p (L, envs)" "client_ok c"
  shows "py_offset brokerExchange grp t p (c, L, envs)
    = ((served c, L, envs \<circ> Suc), Inr (positionOf grp t p (L, envs)))"
proof -
  let ?pos = "positionOf grp t p (L, envs)"
  define pay where "pay = ''offset='' @ Itoa ?pos"
  have p: "int64_ok p" using assms(1) by (simp add: session_ok_def)
  have "handleRequest (envs 0) (sent c ''OFFSET'' [grp, t, Itoa p]) L
      = Some (L, okLine (sent c ''OFFSET'' [grp, t, Itoa p]) pay)"
    using p by (simp add: handleRequest_def sent_def handleOffset_def intArg_def ParseInt_def positionOf_def pay_def)
  moreover have "pay \<noteq> []" "\<not> py_space (last pay)" using last_Itoa by (simp_all add: pay_def)
  moreover have "extract_int_field pay ''offset'' = Inr ?pos"
    unfolding pay_def by (rule extract_int_field_here [where pre = "[]" and rest = "[]"]) (simp_all add: HasPrefix_def)
  ultimately show ?thesis
    using request_answered [where envs = envs and parse = "\<lambda>_ payload. extract_int_field payload ''offset''",
        OF session_lines(1) [OF assms, of 0]]
    by (simp add: py_offset_def int64_ok_def)
qed

lemma visible_take:
  assumes "part_ok s t p" "0 \<le> off"
  shows "\<exists>k. visible s t p off hw = take k (drop (nat off) (cachedMessages s t p))"
proof -
  obtain ms where "Consume t p off s = Some ms" "takeWhile (\<lambda>msg. \<not> Offset msg > hw) ms = visible s t p off hw"
    using Consume_visible [OF assms] by blast
  moreover have "ms = drop (nat off) (cachedMessages s t p)" using calculation(1) Consume_drop [OF assms(2), of t p s] by simp
  ultimately show ?thesis by (metis takeWhile_eq_take)
qed

lemma session_read:
  assumes "session_ok grp t member gen p (L, envs)" "client_ok c"
  obtains m k where "py_consume brokerExchange t p (positionOf grp t p (L, envs)) (c, L, envs)
      = ((served c, L\<lparr>bReplication := m\<rparr>, envs \<circ> Suc),
         Inr (take k (drop (nat (positionOf grp t p (L, envs))) (recordsOf t p (L, envs)))))"
    "manager_ok m"
proof -
  let ?pos = "positionOf grp t p (L, envs)"
  have L: "broker_ok L" "plain_topic t" "int64_ok p" "0 \<le> ?pos" "?pos \<le> nextAt (bStorage L) t p"
    "\<forall>m \<in> set (cachedMessages (bStorage L) t p). sdk_value (Value m)"
    using assms(1) by (simp_all add: session_ok_def)
  obtain tm pm where tm: "map_of (Topics (metadata (bController L))) t = Some tm" "map_of (tmPartitions tm) p = Some pm"
    using assms(1) by (auto simp: session_ok_def)
  have part: "part_ok (bStorage L) t p" using durable_part_ok [OF broker_okD(5) [OF L(1)] L(2)] known_partition [OF L(1) tm] by blast
  have "nextAt (bStorage L) t p < 2 ^ 63"
    using part by (auto simp: part_ok_def nextAt_def log_ok_def int64_ok_def split: option.splits)
  then have i: "int64_ok ?pos" using L(4,5) by (simp add: int64_ok_def)
  obtain m hw where hw: "HighWatermark (tick (envs 0) 1) t p (bReplication L) = (m, hw)" by force
  have m: "manager_ok m" using manager_ok_result(3) [OF broker_okD(3) [OF L(1)] hw] .
  obtain k where k: "visible (bStorage L) t p ?pos hw = take k (drop (nat ?pos) (cachedMessages (bStorage L) t p))"
    using visible_take [OF part L(4)] by blast
  have "\<forall>r \<in> set (visible (bStorage L) t p ?pos hw). sdk_value (Value r)" using L(6) by (auto simp: visible_def)
  from py_consume_visible [where envs = envs, OF L(1,2) session_lines(2) [OF assms i] L(3) i L(4) tm hw this]
  show thesis using m k by (intro that) (simp_all add: recordsOf_def take_map drop_map)
qed

lemma ValidateCommit_live:
  assumes "session_ok grp t member gen p (L, envs)"
  shows "ValidateCommit io (tick (envs i) 0) grp t member gen p (cGroups (bCoordinator L)) = (cGroups (bCoordinator L), None)"
proof -
  let ?gm = "cGroups (bCoordinator L)"
  obtain g where g: "map_of (groups ?gm) grp = Some g" "gTopic g = t" "generation g = gen"
    "member \<in> set (memberOrder g)" "p \<in> set (owned (assignments g) member)"
    "list_all (fresh (sessionTimeout ?gm) (tick (envs i) 0) g) (memberOrder g)"
    using assms by (auto simp: session_ok_def member_ok_def)
  have "groups_ok ?gm" using assms by (auto simp: session_ok_def broker_ok_def groups_inv_def)
  from groups_okD [OF this g(1)] have ok: "group_ok (partitionCount ?gm) g" by blast
  then have "map_of (members g) member \<noteq> None" using group_ok_member g(4) by auto
  moreover have "findGroup grp t ?gm = Some g" using g(1,2) by (simp add: findGroup_def)
  ultimately show ?thesis
    using g cleanupExpired_cleaned [OF ok g(1) refl, of io "tick (envs i) 0"]
    by (simp add: ValidateCommit_def Let_def)
qed

lemma session_commit:
  assumes "session_ok grp t member gen p (L, envs)" "client_ok c" "0 \<le> off" "off \<le> nextAt (bStorage L) t p"
  shows "py_commit brokerExchange grp t member gen p off (c, L, envs) = ((served c,
      setOffsets (Commit (stateIO (envs 0)) grp t p off (cOffsets (bCoordinator L))) L, envs \<circ> Suc), Inr True)"
    "broker_ok (setOffsets (Commit (stateIO (envs 0)) grp t p off (cOffsets (bCoordinator L))) L)"
proof -
  let ?args = "[grp, t, member, Itoa gen, Itoa p, Itoa off]"
  let ?L = "setOffsets (Commit (stateIO (envs 0)) grp t p off (cOffsets (bCoordinator L))) L"
  have L: "broker_ok L" "int64_ok p" "int64_ok gen" "env_ok (envs 0)" "room (cGroups (bCoordinator L))" "plain_topic t"
    using assms(1) by (simp_all add: session_ok_def)
  obtain tm pm where tm: "map_of (Topics (metadata (bController L))) t = Some tm" "map_of (tmPartitions tm) p = Some pm"
    using assms(1) by (auto simp: session_ok_def)
  have part: "part_ok (bStorage L) t p" using durable_part_ok [OF broker_okD(5) [OF L(1)] L(6)] known_partition [OF L(1) tm] by blast
  have "nextAt (bStorage L) t p < 2 ^ 63"
    using part by (auto simp: part_ok_def nextAt_def log_ok_def int64_ok_def split: option.splits)
  then have i: "int64_ok off" using assms(3,4) by (simp add: int64_ok_def)
  have same: "setGroups (cGroups (bCoordinator L)) L = L" by (simp add: setGroups_def)
  have h: "handleCommit (envs 0) (sent c ''COMMIT'' ?args) L = (?L, okLine (sent c ''COMMIT'' ?args) ''committed=true'')"
    using ValidateCommit_live [OF assms(1), of _ 0] L(2,3) i same
    by (simp add: handleCommit_def sent_def intArg_def ParseInt_def)
  then show "broker_ok ?L" using handleCommit_ok [OF L(1,4,5), of "sent c ''COMMIT'' ?args"] by simp
  have "handleRequest (envs 0) (sent c ''COMMIT'' ?args) L = Some (?L, okLine (sent c ''COMMIT'' ?args) ''committed=true'')"
    using h by (simp add: handleRequest_def sent_def)
  from request_answered [where envs = envs and parse = "\<lambda>_ payload. Inr (Contains payload ''committed=true'')",
      OF session_lines(3) [OF assms(1,2) i] this]
  show "py_commit brokerExchange grp t member gen p off (c, L, envs) = ((served c, ?L, envs \<circ> Suc), Inr True)"
    by (simp add: py_commit_def member_args_def Contains_def py_space_def is_space_def HasPrefix_def)
qed

lemma session_numbered:
  assumes "session_ok grp t member gen p srv" "i < length (recordsOf t p srv)"
  shows "cmOffset (recordsOf t p srv ! i) = int i"
proof -
  obtain tm pm where tm: "map_of (Topics (metadata (bController (fst srv)))) t = Some tm" "map_of (tmPartitions tm) p = Some pm"
    using assms(1) by (auto simp: session_ok_def)
  have L: "broker_ok (fst srv)" "plain_topic t" using assms(1) by (simp_all add: session_ok_def)
  have "part_ok (bStorage (fst srv)) t p"
    using durable_part_ok [OF broker_okD(5) [OF L(1)] L(2)] known_partition [OF L(1) tm] by blast
  from part_ok_consecutive [OF this] show ?thesis
    using assms by (auto simp: consecutive_def recordsOf_def received_def session_ok_def)
qed

interpretation broker_log: growing_log brokerExchange grp t member gen p
    "session_ok grp t member gen p" "positionOf grp t p" "recordsOf t p" "session_grows grp t member gen p"
  for grp t member gen p
proof
  fix n :: server
  assume ok: "session_ok grp t member gen p n"
  obtain L envs where n: "n = (L, envs)" by force
  show "0 \<le> positionOf grp t p n \<and> positionOf grp t p n \<le> int (length (recordsOf t p n))"
    using ok by (simp add: session_ok_def recordsOf_def)
  show "cmOffset (recordsOf t p n ! i) = int i" if "i < length (recordsOf t p n)" for i
    using session_numbered [OF ok that] .
  show "\<exists>n'. py_offset brokerExchange grp t p (c, n) = ((served c, n'), Inr (positionOf grp t p n))
      \<and> session_ok grp t member gen p n' \<and> positionOf grp t p n' = positionOf grp t p n \<and> recordsOf t p n' = recordsOf t p n"
    if "client_ok c" for c
    using session_get [OF ok [unfolded n] that] ok
    by (auto simp: n session_ok_def positionOf_def recordsOf_def member_ok_def)
  show "\<exists>n' k. py_consume brokerExchange t p (positionOf grp t p n) (c, n)
        = ((served c, n'), Inr (take k (drop (nat (positionOf grp t p n)) (recordsOf t p n))))
      \<and> session_ok grp t member gen p n' \<and> positionOf grp t p n' = positionOf grp t p n \<and> recordsOf t p n' = recordsOf t p n"
    if cl: "client_ok c" for c
  proof -
    obtain m k where m: "py_consume brokerExchange t p (positionOf grp t p (L, envs)) (c, L, envs)
        = ((served c, L\<lparr>bReplication := m\<rparr>, envs \<circ> Suc),
           Inr (take k (drop (nat (positionOf grp t p (L, envs))) (recordsOf t p (L, envs)))))" "manager_ok m"
      by (rule session_read [OF ok [unfolded n] cl]) blast
    then show ?thesis
      using ok broker_ok_manager [of L m] unfolding n
      by (intro exI [of _ "(L\<lparr>bReplication := m\<rparr>, envs \<circ> Suc)"] exI [of _ k])
        (auto simp: session_ok_def positionOf_def recordsOf_def member_ok_def)
  qed
  show "\<exists>n'. py_commit brokerExchange grp t member gen p off (c, n) = ((served c, n'), Inr True)
      \<and> session_ok grp t member gen p n' \<and> positionOf grp t p n' = off \<and> recordsOf t p n' = recordsOf t p n"
    if "client_ok c" "0 \<le> off" "off \<le> int (length (recordsOf t p n))" for c off
  proof -
    have "off \<le> nextAt (bStorage L) t p" using ok that(3) by (simp add: n session_ok_def recordsOf_def)
    note r = session_commit [OF ok [unfolded n] that(1,2) this]
    have "cGroups (bCoordinator (setOffsets om L)) = cGroups (bCoordinator L)" "bStorage (setOffsets om L) = bStorage L"
      "bController (setOffsets om L) = bController L" "cOffsets (bCoordinator (setOffsets om L)) = om" for om
      by (simp_all add: setOffsets_def)
    then show ?thesis
      using r ok that(2,3) unfolding n
      by (intro exI [of _ "(setOffsets (Commit (stateIO (envs 0)) grp t p off (cOffsets (bCoordinator L))) L, envs \<circ> Suc)"])
        (auto simp: session_ok_def positionOf_def recordsOf_def member_ok_def GetOffset_Commit)
  qed
  show "session_ok grp t member gen p n' \<and> positionOf grp t p n' = positionOf grp t p n
      \<and> prefix (recordsOf t p n) (recordsOf t p n')" if "session_grows grp t member gen p n n'" for n'
    using that by (auto simp: session_grows_def recordsOf_def prefix_def)
qed

section \<open>A sample session\<close>

definition joined_groups :: GroupManager where
  "joined_groups = fst (JoinGroup good_file_io (110 * Second) ''billing'' ''orders'' ''c1'' [] (NewGroupManager good_file_io 2 Absent))"

text \<open>The broker with one record, after \<open>c1\<close> has joined the group \<open>billing\<close> on \<open>orders\<close>.\<close>

definition joined_broker :: Broker where
  "joined_broker = stored_broker\<lparr>bCoordinator :=
     bCoordinator (fst (handleJoin sample_env (sample_request ''JOIN'' [''billing'', ''orders'', ''c1'']) sample_broker))\<rparr>"

definition sample_server :: server where
  "sample_server = (joined_broker, \<lambda>_. sample_env)"

definition sample_client :: FLUXClient where
  "sample_client = (py_client ''10.0.0.1'' 9092)\<lparr>clOpen := True\<rparr>"

definition sample_session :: "(server, ConsumedMessage list) session" where
  "sample_session = \<lparr>seConsumer = (consumer_of ''billing'' ''c1'' ''round_robin'' True True 3)
       \<lparr>coTopic := ''orders'', coGeneration := 2, coAssigned := [0, 1], coRunning := True\<rparr>,
     seClient = (sample_client, sample_server), seUser = []\<rparr>"

lemma joined_coordinator:
  "cGroups (bCoordinator joined_broker) = joined_groups"
  "cOffsets (bCoordinator joined_broker) = cOffsets (bCoordinator sample_broker)"
  by (simp_all add: joined_broker_def joined_groups_def handleJoin_def setGroups_def sample_env_def sample_broker_def
      NewCoordinator_def sample_cfg_def split: prod.split)

lemma joined_broker_ok: "broker_ok joined_broker"
proof -
  have "room (cGroups (bCoordinator sample_broker))"
    by (simp add: room_def NewGroupManager_def loadGroups_def sample_broker_def NewCoordinator_def sample_env_def)
  from group_handlers_ok(1) [OF sample_broker_ok sample_env_ok this]
  have "broker_ok (fst (handleJoin sample_env (sample_request ''JOIN'' [''billing'', ''orders'', ''c1'']) sample_broker))" .
  then show ?thesis using stored_broker_ok by (simp add: broker_ok_def joined_broker_def)
qed

lemma joined_member: "member_ok ''billing'' ''orders'' ''c1'' 2 0 sample_server"
proof -
  have "case map_of (groups joined_groups) ''billing'' of None \<Rightarrow> False
      | Some g \<Rightarrow> gTopic g = ''orders'' \<and> generation g = 2 \<and> ''c1'' \<in> set (memberOrder g) \<and> 0 \<in> set (owned (assignments g) ''c1'')
          \<and> list_all (fresh (sessionTimeout joined_groups) (110 * Second) g) (memberOrder g)"
    by code_simp
  moreover have "tick sample_env 0 = 110 * Second" by (simp add: sample_env_def)
  ultimately show ?thesis
    by (auto simp: member_ok_def sample_server_def joined_coordinator split: option.splits)
qed

lemma sample_session_ok: "session_ok ''billing'' ''orders'' ''c1'' 2 0 sample_server"
proof -
  have "room joined_groups" by code_simp
  moreover obtain tm pm where "map_of (Topics (metadata (bController joined_broker))) ''orders'' = Some tm" "map_of (tmPartitions tm) 0 = Some pm"
    by (simp add: joined_broker_def stored_broker_def leading_broker_def small_cluster_eval)
  moreover have "cachedMessages (bStorage joined_broker) ''orders'' 0 = [\<lparr>Offset = 0, Value = ''hello''\<rparr>]"
    "nextAt (bStorage joined_broker) ''orders'' 0 = 1"
    by (rule sample_produced, simp add: joined_broker_def stored_broker_def)+
  moreover have "GetOffset ''billing'' ''orders'' 0 (cOffsets (bCoordinator sample_broker)) = 0"
    by (simp add: sample_broker_def NewCoordinator_def sample_env_def NewOffsetManager_def GetOffset_def loadOffsets_def)
  moreover have "word_ok ''orders''" "word_ok ''billing''" "word_ok ''c1''" "sdk_value ''hello''"
    by (simp_all add: word_ok_def is_space_def sdk_value_def py_space_def)
  ultimately show ?thesis
    using joined_broker_ok joined_member sample_env_ok sample_recoverable
    by (auto simp: session_ok_def sample_server_def joined_coordinator positionOf_def int64_ok_def)
qed

lemma sample_in_session: "in_session ''billing'' ''orders'' ''c1'' 2 (session_ok ''billing'' ''orders'' ''c1'' 2 0) sample_session"
  using sample_session_ok by (simp add: in_session_def sample_session_def consumer_of_def sample_client_def py_client_def)

section \<open>Properties\<close>



text \<open>
  C10. What the Python client's \<open>consume\<close> returns is what the broker shows: the request goes through
  the connection handler of a reachable broker, and the messages parsed from the answer are the
  visible records from the requested position on, with their offsets and values, for values without
  commas and white space.
\<close>

theorem sdk_consume_visible:
  assumes "broker_ok L" "plain_topic t" "line_ok c ''CONSUME'' [t, Itoa p, Itoa off]" "int64_ok p" "int64_ok off" "0 \<le> off"
    "map_of (Topics (metadata (bController L))) t = Some tm" "map_of (tmPartitions tm) p = Some pm"
    "HighWatermark (tick (envs 0) 1) t p (bReplication L) = (m, hw)"
    "\<forall>r \<in> set (visible (bStorage L) t p off hw). sdk_value (Value r)"
  shows "py_consume brokerExchange t p off (c, L, envs)
    = ((served c, L\<lparr>bReplication := m\<rparr>, envs \<circ> Suc), Inr (map received (visible (bStorage L) t p off hw)))"
  using assms by (rule py_consume_visible)

theorem sdk_consume_visible_witness:
  "snd (py_consume brokerExchange ''orders'' 0 0 (sample_client, stored_broker, \<lambda>_. sample_env))
     = Inr [\<lparr>cmOffset = 0, cmValue = ''hello''\<rparr>]"
proof -
  obtain tm pm where t: "map_of (Topics (metadata (bController stored_broker))) ''orders'' = Some tm" "map_of (tmPartitions tm) 0 = Some pm"
    by (simp add: stored_broker_def leading_broker_def small_cluster_eval)
  obtain m hw where h: "HighWatermark (tick sample_env 1) ''orders'' 0 (bReplication stored_broker) = (m, hw)" by force
  have "snd (HighWatermark (110 * Second) ''orders'' 0 (OnLeaderAppend 1 ''orders'' 0 0 (NewManager sample_config False))) = 0"
    by code_simp
  then have hw: "hw = 0" using h by (simp add: stored_broker_def sample_env_def)
  have "cachedMessages (bStorage stored_broker) ''orders'' 0 = [\<lparr>Offset = 0, Value = ''hello''\<rparr>]"
    "nextAt (bStorage stored_broker) ''orders'' 0 = 1"
    by (rule sample_produced, simp add: stored_broker_def)+
  then have v: "visible (bStorage stored_broker) ''orders'' 0 0 0 = [\<lparr>Offset = 0, Value = ''hello''\<rparr>]" by (simp add: visible_def)
  have "sdk_value ''hello''" by (simp add: is_space_def sdk_value_def py_space_def)
  moreover have "client_ok sample_client" by (simp add: client_ok_def sample_client_def py_client_def)
  moreover have "int64_ok 0" by (simp add: int64_ok_def)
  ultimately show ?thesis
    using sdk_consume_visible [OF stored_broker_ok sample_recoverable(1) session_lines(2) [OF sample_session_ok, of sample_client 0]
        _ _ _ t, of "\<lambda>_. sample_env" m hw] h hw v
    by (simp add: received_def)
qed



text \<open>
  Records are separated by commas, so a value that contains one is read as several records: the
  single record 0 with the value \<open>a,1:b\<close> reaches a consumer of the Python library, and a follower, as
  the two records 0 and 1.
\<close>

lemma comma_forges_records:
  "consumed_messages (''messages='' @ Join (map fetchItem [\<lparr>Offset = 0, Value = ''a,1:b''\<rparr>]) '','' @ '' hw='' @ Itoa 0)
     = Inr [\<lparr>cmOffset = 0, cmValue = ''a''\<rparr>, \<lparr>cmOffset = 1, cmValue = ''b''\<rparr>]
   \<and> parseFetchPayload (fetchPayload ''orders'' 0 1 0 [\<lparr>Offset = 0, Value = ''a,1:b''\<rparr>])
     = Inr \<lparr>fetchHighWatermark = 0, fetchRecords = [\<lparr>recOffset = 0, recValue = ''a''\<rparr>, \<lparr>recOffset = 1, recValue = ''b''\<rparr>]\<rparr>"
  by code_simp

end
