(* ===== verification/TypeScript_Client.thy ===== *)
theory TypeScript_Client
  imports Protocol
begin

text \<open>
  \<open>packages/sdk/typescript/src\<close>: the wire format of \<open>protocol.ts\<close> and the connection of \<open>client.ts\<close>,
  a client that has many requests under way on one socket. A call of \<open>sendCommand\<close> makes a promise, here
  a number; answers come in chunks of any size and settle the promise whose correlation id they carry, and
  timers, write errors and the end of the connection reject what is still open.

  The event loop runs one callback at a time, so the callbacks are functions on the state, and a run of the
  program is any sequence of them (\<open>ts_reachable\<close>). Callbacks of a socket do not look at which
  socket the client has now, so those of an earlier socket are among them. Texts are ASCII.

  Shown here: every request is settled exactly once or still open with its timer running, never with the
  answer to another request; how the stream is cut into chunks makes no difference; the broker's
  answers reach their callers in whatever order they come; and a line cut off by a lost connection spoils
  the first answer of the next one.
\<close>

section \<open>Responses\<close>

datatype ts_status = StatusOK | StatusERR

record ts_response =
  tsVersion :: string
  tsCorrelationId :: string
  tsStatus :: ts_status
  tsPayload :: "string option"
  tsCode :: "string option"
  tsMessage :: "string option"
  tsRaw :: string

datatype ts_error =
    TsError string
  | TsProtocolError string string ts_response

fun errorMessage :: "ts_error \<Rightarrow> string" where
  "errorMessage (TsError m) = m"
| "errorMessage (TsProtocolError m code resp) = m"

definition PROTOCOL_VERSION :: string where
  "PROTOCOL_VERSION = ''V1''"

definition parseResponse :: "string \<Rightarrow> ts_error + ts_response" where
  "parseResponse line =
     (let parts = Split line ''|''
      in if length parts < 3 then Inl (TsError (''Invalid FLUX response: '' @ line))
         else
           let version = parts ! 0; correlationId = parts ! 1; status = parts ! 2
           in if version \<noteq> PROTOCOL_VERSION
              then Inl (TsError (''Unsupported FLUX response version: '' @ version))
              else if status = ''OK''
              then Inr \<lparr>tsVersion = version, tsCorrelationId = correlationId, tsStatus = StatusOK,
                        tsPayload = Some (Join (drop 3 parts) ''|''), tsCode = None, tsMessage = None, tsRaw = line\<rparr>
              else if status = ''ERR''
              then Inr \<lparr>tsVersion = version, tsCorrelationId = correlationId, tsStatus = StatusERR,
                        tsPayload = None,
                        tsCode = Some (if 3 < length parts then parts ! 3 else ''UNKNOWN_ERROR''),
                        tsMessage = Some (let m = Join (drop 4 parts) ''|'' in if m = [] then ''unknown error'' else m),
                        tsRaw = line\<rparr>
              else Inl (TsError (''Unknown FLUX response status: '' @ status)))"

definition buildCommandLine :: "string \<Rightarrow> string \<Rightarrow> string \<Rightarrow> string" where
  "buildCommandLine correlationId command args =
     PROTOCOL_VERSION @ ''|'' @ correlationId @ ''|'' @ command @ ''|'' @ args"

section \<open>The client\<close>

text \<open>
  \<open>resolve\<close> and \<open>reject\<close> of a pending request are those of the promise \<open>pqPromise\<close>; \<open>pqTimeout\<close> is the
  handle of its timer.
\<close>

record PendingRequest =
  pqPromise :: nat
  pqTimeout :: nat

datatype ts_outcome = ResolvedWith ts_response | RejectedWith ts_error

text \<open>
  The fields up to \<open>tsPending\<close> are those of the class. The others belong to the event loop: the promises made so
  far, the calls of \<open>resolve\<close> and \<open>reject\<close> in their order, the running timers and the write callbacks
  still to come, each with the correlation id it closes over, and what was written to which socket.
\<close>

record ts_client =
  tsHost :: string
  tsPort :: int
  tsTimeoutMs :: int
  tsSocket :: "nat option"
  tsConnected :: bool
  tsRecvBuffer :: string
  tsCorrelationSeq :: int
  tsPending :: "(string, PendingRequest) gomap"
  tsIssued :: nat
  tsSettled :: "(nat \<times> ts_outcome) list"
  tsTimers :: "(nat \<times> string) list"
  tsCallbacks :: "(nat \<times> string) list"
  tsWritten :: "(nat \<times> string) list"

definition newFLUXClient :: "string option \<Rightarrow> int option \<Rightarrow> int option \<Rightarrow> ts_client" where
  "newFLUXClient host port timeoutMs =
     \<lparr>tsHost = (case host of None \<Rightarrow> ''127.0.0.1'' | Some h \<Rightarrow> h),
      tsPort = (case port of None \<Rightarrow> 9092 | Some p \<Rightarrow> p),
      tsTimeoutMs = (case timeoutMs of None \<Rightarrow> 5000 | Some t \<Rightarrow> t),
      tsSocket = None, tsConnected = False, tsRecvBuffer = [], tsCorrelationSeq = 1, tsPending = [],
      tsIssued = 0, tsSettled = [], tsTimers = [], tsCallbacks = [], tsWritten = []\<rparr>"

definition settle :: "nat \<Rightarrow> ts_outcome \<Rightarrow> ts_client \<Rightarrow> ts_client" where
  "settle p r c = c\<lparr>tsSettled := tsSettled c @ [(p, r)]\<rparr>"

definition clearTimeout :: "nat \<Rightarrow> ts_client \<Rightarrow> ts_client" where
  "clearTimeout h c = c\<lparr>tsTimers := filter (\<lambda>(t, cid). t \<noteq> h) (tsTimers c)\<rparr>"

definition deletePending :: "string \<Rightarrow> ts_client \<Rightarrow> ts_client" where
  "deletePending cid c = c\<lparr>tsPending := mdel cid (tsPending c)\<rparr>"

text \<open>Numbers are doubles: from \<open>2^53\<close> on, adding one gives the same number again.\<close>

definition js_increment :: "int \<Rightarrow> int" where
  "js_increment n = (if n < 2 ^ 53 then n + 1 else n)"

text \<open>The promise of \<open>sendCommand\<close>, or the error it throws; and the two callbacks it leaves behind.\<close>

definition sendCommand :: "string \<Rightarrow> string \<Rightarrow> ts_client \<Rightarrow> ts_client \<times> (ts_error + nat)" where
  "sendCommand command args c =
     (case tsSocket c of
        None \<Rightarrow> (c, Inl (TsError ''FLUX client is not connected. Call connect() first.''))
      | Some socket \<Rightarrow>
          if \<not> tsConnected c then (c, Inl (TsError ''FLUX client is not connected. Call connect() first.''))
          else
            let correlationId = Itoa (tsCorrelationSeq c);
                line = buildCommandLine correlationId command args;
                p = tsIssued c
            in (c\<lparr>tsCorrelationSeq := js_increment (tsCorrelationSeq c), tsIssued := Suc p,
                  tsTimers := tsTimers c @ [(p, correlationId)],
                  tsPending := mput correlationId \<lparr>pqPromise = p, pqTimeout = p\<rparr> (tsPending c),
                  tsCallbacks := tsCallbacks c @ [(p, correlationId)],
                  tsWritten := tsWritten c @ [(socket, line @ [newline])]\<rparr>, Inr p))"

definition timeoutFired :: "nat \<Rightarrow> string \<Rightarrow> ts_client \<Rightarrow> ts_client" where
  "timeoutFired p correlationId c =
     settle p (RejectedWith (TsError (''Request timed out for correlation_id='' @ correlationId)))
       (deletePending correlationId (clearTimeout p c))"

definition writeDone :: "nat \<Rightarrow> string \<Rightarrow> ts_error option \<Rightarrow> ts_client \<Rightarrow> ts_client" where
  "writeDone p correlationId err c0 =
     (let c = c0\<lparr>tsCallbacks := remove1 (p, correlationId) (tsCallbacks c0)\<rparr>
      in case err of
           None \<Rightarrow> c
         | Some e \<Rightarrow>
             (case map_of (tsPending c) correlationId of
                None \<Rightarrow> c
              | Some q \<Rightarrow> settle p (RejectedWith e) (deletePending correlationId (clearTimeout (pqTimeout q) c))))"

text \<open>A line that cannot be parsed throws out of the callback; the second component is what it throws.\<close>

definition handleResponseLine :: "string \<Rightarrow> ts_client \<Rightarrow> ts_client \<times> ts_error option" where
  "handleResponseLine line c =
     (case parseResponse line of
        Inl e \<Rightarrow> (c, Some e)
      | Inr response \<Rightarrow>
          (case map_of (tsPending c) (tsCorrelationId response) of
            None \<Rightarrow> (c, None)
          | Some q \<Rightarrow>
              let c1 = deletePending (tsCorrelationId response) (clearTimeout (pqTimeout q) c)
              in if tsStatus response = StatusERR
                 then (settle (pqPromise q)
                         (RejectedWith (TsProtocolError
                            (case tsMessage response of None \<Rightarrow> ''FLUX protocol error'' | Some m \<Rightarrow> m)
                            (case tsCode response of None \<Rightarrow> ''UNKNOWN_ERROR'' | Some k \<Rightarrow> k) response)) c1, None)
                 else (settle (pqPromise q) (ResolvedWith response) c1, None)))"

lemma handleResponseLine_buffer:
  "tsRecvBuffer (fst (handleResponseLine line c)) = tsRecvBuffer c"
  by (auto simp: handleResponseLine_def settle_def deletePending_def clearTimeout_def Let_def
      split: sum.splits option.splits)

function handleBuffer :: "ts_client \<Rightarrow> ts_client \<times> ts_error option" where
  "handleBuffer c =
     (case Index (tsRecvBuffer c) [newline] of
        None \<Rightarrow> (c, None)
      | Some newlineIdx \<Rightarrow>
          let line = TrimSpace (take newlineIdx (tsRecvBuffer c));
              c1 = c\<lparr>tsRecvBuffer := drop (newlineIdx + 1) (tsRecvBuffer c)\<rparr>
          in if line = [] then handleBuffer c1
             else (case handleResponseLine line c1 of
                     (c2, e) \<Rightarrow> if e = None then handleBuffer c2 else (c2, e)))"
  by pat_completeness auto
termination
proof (relation "measure (\<lambda>c. length (tsRecvBuffer c))", goal_cases)
  case (2 c i line c1)
  then show ?case using Index_le [OF 2(1)] by simp
next
  case (3 c i line c1 c2 e)
  then have "tsRecvBuffer c2 = tsRecvBuffer c1" by (metis fst_conv handleResponseLine_buffer)
  with 3 show ?case using Index_le [OF 3(1)] by simp
qed simp

declare handleBuffer.simps [simp del]

definition handleData :: "string \<Rightarrow> ts_client \<Rightarrow> ts_client \<times> ts_error option" where
  "handleData chunk c = handleBuffer (c\<lparr>tsRecvBuffer := tsRecvBuffer c @ chunk\<rparr>)"

definition rejectAllPending :: "ts_error \<Rightarrow> ts_client \<Rightarrow> ts_client" where
  "rejectAllPending err c =
     (let c1 = fold (\<lambda>(correlationId, q) c.
                  settle (pqPromise q) (RejectedWith (TsError (errorMessage err @ ''; correlation_id='' @ correlationId)))
                    (clearTimeout (pqTimeout q) c)) (tsPending c) c
      in c1\<lparr>tsPending := []\<rparr>)"

text \<open>
  \<open>connect\<close> returns at once on an open connection (\<open>connectNeeded\<close>); otherwise it goes on when the new
  socket is connected. \<open>close\<close> goes on when the socket is closed, after the socket's own callback.
\<close>

definition connectNeeded :: "ts_client \<Rightarrow> bool" where
  "connectNeeded c \<longleftrightarrow> \<not> (tsConnected c \<and> tsSocket c \<noteq> None)"

definition connectDone :: "nat \<Rightarrow> ts_client \<Rightarrow> ts_client" where
  "connectDone socket c = c\<lparr>tsSocket := Some socket, tsConnected := True\<rparr>"

definition onSocketClose :: "ts_client \<Rightarrow> ts_client" where
  "onSocketClose c =
     rejectAllPending (TsError ''FLUX connection closed'') (c\<lparr>tsConnected := False, tsSocket := None\<rparr>)"

definition closeBegin :: "ts_client \<Rightarrow> ts_client" where
  "closeBegin c = (case tsSocket c of None \<Rightarrow> c | Some socket \<Rightarrow> c\<lparr>tsSocket := None, tsConnected := False\<rparr>)"

definition closeEnd :: "ts_client \<Rightarrow> ts_client" where
  "closeEnd c = rejectAllPending (TsError ''FLUX client closed'') c"

inductive ts_reachable :: "ts_client \<Rightarrow> bool" where
  reach_new: "ts_reachable (newFLUXClient host port timeoutMs)"
| reach_connect: "ts_reachable c \<Longrightarrow> ts_reachable (connectDone socket c)"
| reach_send: "ts_reachable c \<Longrightarrow> ts_reachable (fst (sendCommand command args c))"
| reach_written: "ts_reachable c \<Longrightarrow> (p, cid) \<in> set (tsCallbacks c) \<Longrightarrow> ts_reachable (writeDone p cid err c)"
| reach_data: "ts_reachable c \<Longrightarrow> ts_reachable (fst (handleData chunk c))"
| reach_timer: "ts_reachable c \<Longrightarrow> (p, cid) \<in> set (tsTimers c) \<Longrightarrow> ts_reachable (timeoutFired p cid c)"
| reach_error: "ts_reachable c \<Longrightarrow> ts_reachable (rejectAllPending err c)"
| reach_closed: "ts_reachable c \<Longrightarrow> ts_reachable (onSocketClose c)"
| reach_close: "ts_reachable c \<Longrightarrow> ts_reachable (closeBegin c)"
| reach_close_end: "ts_reachable c \<Longrightarrow> ts_reachable (closeEnd c)"

text \<open>A client with two requests under way.\<close>

definition ts_sample :: ts_client where
  "ts_sample = fst (sendCommand ''OFFSET'' ''billing orders 0''
     (fst (sendCommand ''CONSUME'' ''orders 0 0'' (connectDone 0 (newFLUXClient None None None)))))"

lemma ts_sample_reachable: "ts_reachable ts_sample"
  unfolding ts_sample_def by (intro ts_reachable.intros)

lemma ts_sample_simps:
  "tsIssued ts_sample = 2" "tsRecvBuffer ts_sample = []" "tsSettled ts_sample = []" "tsSocket ts_sample = Some 0"
  "tsTimers ts_sample = [(0, ''1''), (1, ''2'')]"
  "tsPending ts_sample = [(''1'', \<lparr>pqPromise = 0, pqTimeout = 0\<rparr>), (''2'', \<lparr>pqPromise = 1, pqTimeout = 1\<rparr>)]"
  "tsWritten ts_sample = [(0, ''V1|1|CONSUME|orders 0 0'' @ [newline]), (0, ''V1|2|OFFSET|billing orders 0'' @ [newline])]"
  by code_simp+

section \<open>Cutting the stream into chunks\<close>

lemma handleResponseLine_update:
  "handleResponseLine line (c\<lparr>tsRecvBuffer := x\<rparr>) = map_prod (\<lambda>c. c\<lparr>tsRecvBuffer := x\<rparr>) id (handleResponseLine line c)"
  by (auto simp: handleResponseLine_def settle_def deletePending_def clearTimeout_def Let_def
      split: sum.splits option.splits)

lemma Index_newline_append: "Index s [newline] = Some i \<Longrightarrow> Index (s @ t) [newline] = Some i"
  by (induction s arbitrary: i) (auto simp: HasPrefix_def split: if_splits)

lemma handleBuffer_append:
  "handleBuffer (c\<lparr>tsRecvBuffer := tsRecvBuffer c @ b\<rparr>) =
     (case handleBuffer c of (c', e) \<Rightarrow>
        if e = None then handleBuffer (c'\<lparr>tsRecvBuffer := tsRecvBuffer c' @ b\<rparr>)
        else (c'\<lparr>tsRecvBuffer := tsRecvBuffer c' @ b\<rparr>, e))"
proof (induction c rule: handleBuffer.induct)
  case (1 c)
  show ?case
  proof (cases "Index (tsRecvBuffer c) [newline]")
    case None
    then show ?thesis by (simp add: handleBuffer.simps [of c])
  next
    case (Some i)
    let ?line = "TrimSpace (take i (tsRecvBuffer c))" and ?c1 = "c\<lparr>tsRecvBuffer := drop (i + 1) (tsRecvBuffer c)\<rparr>"
    have i: "i + 1 \<le> length (tsRecvBuffer c)" using Index_le [OF Some] by simp
    then have cut: "i - length (tsRecvBuffer c) = 0" "Suc i - length (tsRecvBuffer c) = 0" by simp_all
    obtain c2 e where r: "handleResponseLine ?line ?c1 = (c2, e)" by force
    have buf: "tsRecvBuffer c2 = drop (i + 1) (tsRecvBuffer c)"
      using handleResponseLine_buffer [of ?line ?c1] r by simp
    have r': "handleResponseLine ?line (c\<lparr>tsRecvBuffer := drop (i + 1) (tsRecvBuffer c) @ b\<rparr>)
        = (c2\<lparr>tsRecvBuffer := tsRecvBuffer c2 @ b\<rparr>, e)"
      using handleResponseLine_update [where c = ?c1 and line = ?line and x = "drop (i + 1) (tsRecvBuffer c) @ b"] r buf by simp
    note unfold = handleBuffer.simps [of c] handleBuffer.simps [of "c\<lparr>tsRecvBuffer := tsRecvBuffer c @ b\<rparr>"]
    show ?thesis
      using 1(1) [OF Some refl refl] 1(2) [OF Some refl refl _ r [symmetric]] r r' Index_newline_append [OF Some, of b]
      by (simp add: unfold Some cut Let_def)
  qed
qed

lemma handleData_append:
  "handleData (a @ b) c =
     (case handleData a c of (c', e) \<Rightarrow>
        if e = None then handleData b c' else (c'\<lparr>tsRecvBuffer := tsRecvBuffer c' @ b\<rparr>, e))"
  using handleBuffer_append [of "c\<lparr>tsRecvBuffer := tsRecvBuffer c @ a\<rparr>" b]
  by (simp add: handleData_def split: prod.splits)

text \<open>Chunk after chunk, until one throws.\<close>

fun feed :: "string list \<Rightarrow> ts_client \<Rightarrow> ts_client \<times> ts_error option" where
  "feed [] c = (c, None)"
| "feed (chunk # chunks) c =
     (case handleData chunk c of (c', e) \<Rightarrow> if e = None then feed chunks c' else (c', e))"

lemma handleBuffer_rest: "handleBuffer c = (c', None) \<Longrightarrow> Index (tsRecvBuffer c') [newline] = None"
proof (induction c rule: handleBuffer.induct)
  case (1 c)
  show ?case
  proof (cases "Index (tsRecvBuffer c) [newline]")
    case None
    with 1(3) show ?thesis by (simp add: handleBuffer.simps [of c])
  next
    case (Some i)
    obtain c2 e where r: "handleResponseLine (TrimSpace (take i (tsRecvBuffer c)))
        (c\<lparr>tsRecvBuffer := drop (i + 1) (tsRecvBuffer c)\<rparr>) = (c2, e)" by force
    show ?thesis
      using 1(1) [OF Some refl refl] 1(2) [OF Some refl refl _ r [symmetric]] 1(3) r
      by (auto simp: handleBuffer.simps [of c] Some Let_def split: if_splits)
  qed
qed

lemma feed_concat:
  assumes "Index (tsRecvBuffer c) [newline] = None"
  shows "case handleData (concat chunks) c of (c', e) \<Rightarrow>
     (\<exists>rest. feed chunks c = (c'\<lparr>tsRecvBuffer := rest\<rparr>, e)) \<and> (e = None \<longrightarrow> feed chunks c = (c', None))"
  using assms
proof (induction chunks arbitrary: c)
  case Nil
  then have "handleData [] c = (c, None)" by (simp add: handleData_def handleBuffer.simps [of c])
  then show ?case by (auto intro: exI [of _ "tsRecvBuffer c"])
next
  case (Cons a chunks)
  obtain c1 e1 where a: "handleData a c = (c1, e1)" by force
  show ?case
  proof (cases e1)
    case None
    then have "Index (tsRecvBuffer c1) [newline] = None" using a handleBuffer_rest by (simp add: handleData_def)
    from Cons.IH [OF this] show ?thesis using a None by (simp add: handleData_append)
  next
    case (Some x)
    then show ?thesis using a by (auto simp: handleData_append intro: exI [of _ "tsRecvBuffer c1"])
  qed
qed

text \<open>
  C40. How the stream is cut into chunks makes no difference. When no line in it is malformed, any chunks that
  make up the same text leave the client in the same state as the text in one piece; and if the text in
  one piece throws, feeding the chunks throws the same error.
\<close>

theorem chunks_do_not_matter:
  assumes "Index (tsRecvBuffer c) [newline] = None"
  shows "case handleData (concat chunks) c of (c', e) \<Rightarrow>
     (\<exists>rest. feed chunks c = (c'\<lparr>tsRecvBuffer := rest\<rparr>, e)) \<and> (e = None \<longrightarrow> feed chunks c = (c', None))"
  using assms by (rule feed_concat)

theorem chunks_do_not_matter_witness:
  "feed [''V1|2|O'', ''K|offset=5'' @ [newline] @ ''V1|'', ''1|OK''] ts_sample
     = handleData (''V1|2|OK|offset=5'' @ [newline] @ ''V1|1|OK'') ts_sample"
proof -
  let ?chunks = "[''V1|2|O'', ''K|offset=5'' @ [newline] @ ''V1|'', ''1|OK'']"
  have all: "concat ?chunks = ''V1|2|OK|offset=5'' @ [newline] @ ''V1|1|OK''" by simp
  have "snd (handleData (''V1|2|OK|offset=5'' @ [newline] @ ''V1|1|OK'') ts_sample) = None" by code_simp
  then show ?thesis
    using chunks_do_not_matter [of ts_sample ?chunks] unfolding all
    by (cases "handleData (''V1|2|OK|offset=5'' @ [newline] @ ''V1|1|OK'') ts_sample") (simp add: ts_sample_simps)
qed

section \<open>Requests and their answers\<close>

abbreviation idOf :: "nat \<Rightarrow> string" where
  "idOf p \<equiv> Itoa (int p + 1)"

text \<open>The promises \<open>ps\<close> are open: pending under their ids with their timers running, the others settled once.\<close>

definition ts_ok :: "nat list \<Rightarrow> ts_client \<Rightarrow> bool" where
  "ts_ok ps c \<longleftrightarrow>
     tsPending c = map (\<lambda>p. (idOf p, \<lparr>pqPromise = p, pqTimeout = p\<rparr>)) ps \<and> tsTimers c = map (\<lambda>p. (p, idOf p)) ps \<and>
     distinct (ps @ map fst (tsSettled c)) \<and> set ps \<union> fst ` set (tsSettled c) = {..<tsIssued c} \<and>
     tsIssued c \<le> 2 ^ 53 \<and> tsCorrelationSeq c = min (int (tsIssued c) + 1) (2 ^ 53) \<and>
     (\<forall>(p, cid) \<in> set (tsCallbacks c). p < tsIssued c \<and> cid = idOf p) \<and>
     (\<forall>(p, r) \<in> set (tsSettled c). \<forall>resp. r = ResolvedWith resp \<longrightarrow> tsCorrelationId resp = idOf p)"

lemma idOf_inj: "p < 2 ^ 53 \<Longrightarrow> q < 2 ^ 53 \<Longrightarrow> idOf p = idOf q \<longleftrightarrow> p = q"
  by (subst Itoa_inj) (auto simp: int64_ok_def)

lemma mdel_open:
  assumes "\<forall>q \<in> set ps. q < 2 ^ 53" "p < 2 ^ 53"
  shows "mdel (idOf p) (map (\<lambda>p. (idOf p, f p)) ps) = map (\<lambda>p. (idOf p, f p)) (removeAll p ps)"
  using assms by (induction ps) (auto simp: idOf_inj)

lemma map_of_open:
  assumes "\<forall>q \<in> set ps. q < 2 ^ 53" "p < 2 ^ 53"
  shows "map_of (map (\<lambda>p. (idOf p, f p)) ps) (idOf p) = (if p \<in> set ps then Some (f p) else None)"
  using assms by (induction ps) (auto simp: idOf_inj)

lemma ts_ok_bound: "ts_ok ps c \<Longrightarrow> p \<in> set ps \<Longrightarrow> p < tsIssued c \<and> p < 2 ^ 53"
  unfolding ts_ok_def by (metis UnI1 lessThan_iff order_less_le_trans)

lemma ts_ok_pending:
  assumes "ts_ok ps c" "map_of (tsPending c) cid = Some q"
  obtains p where "p \<in> set ps" "cid = idOf p" "q = \<lparr>pqPromise = p, pqTimeout = p\<rparr>"
  using assms by (auto simp: ts_ok_def dest!: map_of_SomeD)

lemma ts_ok_lookup:
  assumes "ts_ok ps c" "p < tsIssued c"
  shows "map_of (tsPending c) (idOf p) = (if p \<in> set ps then Some \<lparr>pqPromise = p, pqTimeout = p\<rparr> else None)"
proof -
  have "\<forall>q \<in> set ps. q < 2 ^ 53" "p < 2 ^ 53" "tsPending c = map (\<lambda>p. (idOf p, \<lparr>pqPromise = p, pqTimeout = p\<rparr>)) ps"
    using ts_ok_bound [OF assms(1)] assms by (auto simp: ts_ok_def)
  then show ?thesis by (simp only: map_of_open)
qed

text \<open>Every way to settle a request takes its timer and its entry along.\<close>

lemma settle_ok:
  assumes ok: "ts_ok ps c" and p: "p \<in> set ps" and r: "\<forall>resp. r = ResolvedWith resp \<longrightarrow> tsCorrelationId resp = idOf p"
  shows "ts_ok (removeAll p ps) (settle p r (deletePending (idOf p) (clearTimeout p c)))"
proof -
  have "\<forall>q \<in> set ps. q < 2 ^ 53" "p < 2 ^ 53" using ts_ok_bound [OF ok] p by auto
  moreover have "filter (\<lambda>(t, cid). t \<noteq> p) (map (\<lambda>p. (p, idOf p)) ps) = map (\<lambda>p. (p, idOf p)) (removeAll p ps)"
    by (induction ps) auto
  moreover have "distinct (removeAll p ps @ map fst (tsSettled c @ [(p, r)]))"
    using ok p by (auto simp: ts_ok_def distinct_removeAll)
  moreover have "set (removeAll p ps) \<union> fst ` set (tsSettled c @ [(p, r)]) = {..<tsIssued c}"
    using ok p unfolding ts_ok_def by (elim conjE) auto
  moreover have "\<forall>(p, r) \<in> set (tsSettled c @ [(p, r)]). \<forall>resp. r = ResolvedWith resp \<longrightarrow> tsCorrelationId resp = idOf p"
    using ok r by (simp add: ts_ok_def)
  ultimately show ?thesis
    using ok unfolding ts_ok_def settle_def deletePending_def clearTimeout_def by (elim conjE) (simp add: mdel_open)
qed

lemma handleResponseLine_ok:
  assumes "ts_ok ps c"
  shows "\<exists>ps'. ts_ok ps' (fst (handleResponseLine line c))"
proof (cases "parseResponse line")
  case (Inl e)
  then show ?thesis using assms by (auto simp: handleResponseLine_def)
next
  case (Inr resp)
  show ?thesis
  proof (cases "map_of (tsPending c) (tsCorrelationId resp)")
    case None
    then show ?thesis using assms Inr by (auto simp: handleResponseLine_def)
  next
    case (Some q)
    obtain p where "p \<in> set ps" "tsCorrelationId resp = idOf p" "q = \<lparr>pqPromise = p, pqTimeout = p\<rparr>"
      by (rule ts_ok_pending [OF assms Some])
    then show ?thesis using Inr Some
      by (auto simp: handleResponseLine_def Let_def intro!: exI [of _ "removeAll p ps"] settle_ok [OF assms])
  qed
qed

lemma ts_ok_buffer [simp]: "ts_ok ps (c\<lparr>tsRecvBuffer := x\<rparr>) = ts_ok ps c"
  by (simp add: ts_ok_def)

lemma handleBuffer_ok: "ts_ok ps c \<Longrightarrow> \<exists>ps'. ts_ok ps' (fst (handleBuffer c))"
proof (induction c arbitrary: ps rule: handleBuffer.induct)
  case (1 c)
  show ?case
  proof (cases "Index (tsRecvBuffer c) [newline]")
    case None
    with 1(3) show ?thesis by (auto simp: handleBuffer.simps [of c])
  next
    case (Some i)
    let ?line = "TrimSpace (take i (tsRecvBuffer c))" and ?c1 = "c\<lparr>tsRecvBuffer := drop (i + 1) (tsRecvBuffer c)\<rparr>"
    obtain c2 e where r: "handleResponseLine ?line ?c1 = (c2, e)" by force
    obtain qs where "ts_ok qs c2" using handleResponseLine_ok [of ps ?c1 ?line] 1(3) r by auto
    then show ?thesis
      using 1(1) [OF Some refl refl] 1(2) [OF Some refl refl _ r [symmetric]] 1(3) r
      by (auto simp: handleBuffer.simps [of c] Some Let_def)
  qed
qed

lemma reject_fold:
  "fold (\<lambda>(cid, q) c. settle (pqPromise q) (f cid) (clearTimeout (pqTimeout q) c)) xs c =
     c\<lparr>tsSettled := tsSettled c @ map (\<lambda>(cid, q). (pqPromise q, f cid)) xs,
       tsTimers := filter (\<lambda>x. \<forall>y \<in> set xs. fst x \<noteq> pqTimeout (snd y)) (tsTimers c)\<rparr>"
  by (induction xs arbitrary: c) (auto simp: settle_def clearTimeout_def case_prod_beta conj_commute)

lemma reject_all_ok:
  assumes "ts_ok ps c" "map fst new = ps" "\<forall>(p, r) \<in> set new. \<exists>e. r = RejectedWith e"
  shows "ts_ok [] (c\<lparr>tsSettled := tsSettled c @ new, tsTimers := [], tsPending := []\<rparr>)"
proof -
  have new: "fst ` set new = set ps" by (simp flip: assms(2))
  have "\<forall>(p, r) \<in> set new. \<forall>resp. r = ResolvedWith resp \<longrightarrow> tsCorrelationId resp = idOf p"
    using assms(3) by force
  moreover have "distinct (map fst (tsSettled c @ new))" "fst ` set (tsSettled c @ new) = {..<tsIssued c}"
    using assms(1,2) new by (auto simp: ts_ok_def image_Un)
  ultimately show ?thesis using assms(1) by (simp add: ts_ok_def ball_Un)
qed

lemma rejectAllPending_ok:
  assumes "ts_ok ps c"
  shows "ts_ok [] (rejectAllPending err c)"
proof -
  let ?r = "\<lambda>cid. RejectedWith (TsError (errorMessage err @ ''; correlation_id='' @ cid))"
  define new where "new = map (\<lambda>(cid, q). (pqPromise q, ?r cid)) (tsPending c)"
  have timers: "filter (\<lambda>x. \<forall>y \<in> set (tsPending c). fst x \<noteq> pqTimeout (snd y)) (tsTimers c) = []"
    using assms by (auto simp: ts_ok_def filter_empty_conv)
  have "map fst new = ps" "\<forall>(p, r) \<in> set new. \<exists>e. r = RejectedWith e"
    using assms by (auto simp: ts_ok_def new_def comp_def)
  then show ?thesis
    unfolding rejectAllPending_def reject_fold Let_def timers new_def [symmetric] by (rule reject_all_ok [OF assms])
qed

lemma sendCommand_ok:
  assumes ok: "ts_ok ps c" and room: "tsIssued (fst (sendCommand command args c)) \<le> 2 ^ 53"
  shows "\<exists>ps'. ts_ok ps' (fst (sendCommand command args c))"
proof (cases "tsSocket c = None \<or> \<not> tsConnected c")
  case True
  then show ?thesis using ok by (auto simp: sendCommand_def split: option.splits)
next
  case False
  let ?n = "tsIssued c"
  have n: "?n < 2 ^ 53" using room False by (auto simp: sendCommand_def Let_def)
  have new: "?n \<notin> set ps" "\<forall>q \<in> set ps. q < 2 ^ 53" using ts_ok_bound [OF ok] by auto
  have seq: "tsCorrelationSeq c = int ?n + 1" using ok n by (simp add: ts_ok_def)
  have put: "mput (idOf ?n) (f ?n) (map (\<lambda>p. (idOf p, f p)) ps) = map (\<lambda>p. (idOf p, f p)) (ps @ [?n])"
    for f :: "nat \<Rightarrow> PendingRequest"
    using new n by (induction ps) (auto simp: idOf_inj)
  note put = put [of "\<lambda>p. \<lparr>pqPromise = p, pqTimeout = p\<rparr>"]
  from False obtain socket where "tsSocket c = Some socket" "tsConnected c" by auto
  then have c': "fst (sendCommand command args c) = c\<lparr>tsCorrelationSeq := js_increment (int ?n + 1), tsIssued := Suc ?n,
      tsTimers := tsTimers c @ [(?n, idOf ?n)], tsPending := mput (idOf ?n) \<lparr>pqPromise = ?n, pqTimeout = ?n\<rparr> (tsPending c),
      tsCallbacks := tsCallbacks c @ [(?n, idOf ?n)],
      tsWritten := tsWritten c @ [(socket, buildCommandLine (idOf ?n) command args @ [newline])]\<rparr>"
    by (simp add: sendCommand_def seq Let_def)
  have inc: "js_increment (int ?n + 1) = min (int (Suc ?n) + 1) (2 ^ 53)" using n by (simp add: js_increment_def)
  have "?n \<notin> fst ` set (tsSettled c)" using ok unfolding ts_ok_def by (metis UnI2 lessThan_iff less_irrefl)
  moreover have "insert ?n (set ps) \<union> fst ` set (tsSettled c) = {..<Suc ?n}"
    using ok unfolding ts_ok_def lessThan_Suc by (elim conjE) simp
  moreover have "\<forall>(p, cid) \<in> set (tsCallbacks c @ [(?n, idOf ?n)]). p < Suc ?n \<and> cid = idOf p"
    using ok unfolding ts_ok_def by (elim conjE) (auto simp: less_SucI)
  ultimately have "ts_ok (ps @ [?n]) (fst (sendCommand command args c))"
    using ok new(1) n put unfolding c' ts_ok_def inc by (elim conjE) (simp add: Suc_le_eq)
  then show ?thesis ..
qed

lemma writeDone_ok:
  assumes ok: "ts_ok ps c" and cb: "(p, cid) \<in> set (tsCallbacks c)"
  shows "\<exists>ps'. ts_ok ps' (writeDone p cid err c)"
proof -
  let ?c = "c\<lparr>tsCallbacks := remove1 (p, cid) (tsCallbacks c)\<rparr>"
  have ok': "ts_ok ps ?c" using ok set_remove1_subset [of "(p, cid)" "tsCallbacks c"] by (auto simp: ts_ok_def)
  have p: "p < tsIssued c" "cid = idOf p" using ok cb by (auto simp: ts_ok_def)
  then have "map_of (tsPending ?c) cid = (if p \<in> set ps then Some \<lparr>pqPromise = p, pqTimeout = p\<rparr> else None)"
    using ts_ok_lookup [OF ok'] by simp
  then show ?thesis
    using ok' settle_ok [OF ok', of p "RejectedWith e" for e] p(2)
    by (cases "p \<in> set ps"; cases err) (auto simp: writeDone_def Let_def)
qed

lemma ts_issued:
  "tsIssued (settle p r c) = tsIssued c" "tsIssued (clearTimeout h c) = tsIssued c" "tsIssued (deletePending cid c) = tsIssued c"
  "tsIssued (rejectAllPending err c) = tsIssued c"
  unfolding rejectAllPending_def reject_fold Let_def by (simp_all add: settle_def clearTimeout_def deletePending_def)

lemma handleBuffer_issued: "tsIssued (fst (handleBuffer c)) = tsIssued c"
proof (induction c rule: handleBuffer.induct)
  case (1 c)
  have line: "tsIssued (fst (handleResponseLine l c)) = tsIssued c" for l c
    by (auto simp: handleResponseLine_def Let_def ts_issued split: sum.splits option.splits)
  show ?case
  proof (cases "Index (tsRecvBuffer c) [newline]")
    case None
    then show ?thesis by (simp add: handleBuffer.simps [of c])
  next
    case (Some i)
    let ?line = "TrimSpace (take i (tsRecvBuffer c))" and ?c1 = "c\<lparr>tsRecvBuffer := drop (i + 1) (tsRecvBuffer c)\<rparr>"
    obtain c2 e where r: "handleResponseLine ?line ?c1 = (c2, e)" by force
    then have "tsIssued c2 = tsIssued c" using line [of ?line ?c1] by simp
    then show ?thesis
      using 1(1) [OF Some refl refl] 1(2) [OF Some refl refl _ r [symmetric]] r
      by (auto simp: handleBuffer.simps [of c] Some Let_def)
  qed
qed

lemma sendCommand_issued: "tsIssued c \<le> tsIssued (fst (sendCommand command args c))"
  by (auto simp: sendCommand_def Let_def split: option.splits)

lemma ts_ok_connection [simp]:
  "ts_ok ps (c\<lparr>tsSocket := x\<rparr>) = ts_ok ps c" "ts_ok ps (c\<lparr>tsConnected := y\<rparr>) = ts_ok ps c"
  by (simp_all add: ts_ok_def)

lemma ts_reachable_ok: "ts_reachable c \<Longrightarrow> tsIssued c \<le> 2 ^ 53 \<Longrightarrow> \<exists>ps. ts_ok ps c"
proof (induction rule: ts_reachable.induct)
  case (reach_new host port timeoutMs)
  have "ts_ok [] (newFLUXClient host port timeoutMs)" by (simp add: ts_ok_def newFLUXClient_def)
  then show ?case ..
next
  case (reach_send c command args)
  then show ?case using sendCommand_issued [of c command args] sendCommand_ok by (meson order_trans)
next
  case (reach_written c p cid err)
  have "tsIssued (writeDone p cid err c) = tsIssued c"
    by (auto simp: writeDone_def Let_def ts_issued split: option.splits)
  with reach_written show ?case using writeDone_ok by metis
next
  case (reach_timer c p cid)
  then obtain ps where ok: "ts_ok ps c" by (auto simp: timeoutFired_def ts_issued)
  with reach_timer(2) have "p \<in> set ps" "cid = idOf p" by (auto simp: ts_ok_def)
  then show ?case using settle_ok [OF ok] by (auto simp: timeoutFired_def)
next
  case (reach_data c chunk)
  then show ?case
    using handleBuffer_ok [of _ "c\<lparr>tsRecvBuffer := tsRecvBuffer c @ chunk\<rparr>"] handleBuffer_issued
    by (fastforce simp: handleData_def)
next
  case (reach_close c)
  then show ?case by (auto simp: closeBegin_def split: option.splits)
next
  case (reach_closed c)
  then show ?case
    using rejectAllPending_ok [of _ "c\<lparr>tsConnected := False, tsSocket := None\<rparr>"] by (fastforce simp: onSocketClose_def ts_issued)
qed (auto simp: connectDone_def closeEnd_def ts_issued intro: rejectAllPending_ok)

lemma filter_fst_once:
  assumes "distinct (map fst xs)"
  shows "filter (\<lambda>(q, r). q = p) xs = [] \<and> p \<notin> fst ` set xs \<or> (\<exists>r. filter (\<lambda>(q, r). q = p) xs = [(p, r)] \<and> (p, r) \<in> set xs)"
  using assms
proof (induction xs)
  case (Cons x xs)
  have "fst x \<notin> fst ` set xs \<Longrightarrow> filter (\<lambda>(q, r). q = fst x) xs = []"
    unfolding filter_empty_conv case_prod_beta by (metis image_eqI)
  with Cons show ?case by (cases "fst x = p"; cases x) auto
qed simp



section \<open>The broker's answers\<close>

text \<open>An answer of the broker to the request \<open>p\<close>: an error with code and message, or a payload.\<close>

fun reply_line :: "nat \<Rightarrow> (string \<times> string) + string \<Rightarrow> string" where
  "reply_line p (Inr payload) = Ok (idOf p) payload"
| "reply_line p (Inl (code, msg)) = Err (idOf p) code msg"

text \<open>One line, which the client's \<open>trim\<close> leaves as it is.\<close>

fun reply_ok :: "(string \<times> string) + string \<Rightarrow> bool" where
  "reply_ok (Inr payload) \<longleftrightarrow> newline \<notin> set payload \<and> (payload = [] \<or> \<not> is_space (last payload))"
| "reply_ok (Inl (code, msg)) \<longleftrightarrow> CHR ''|'' \<notin> set code \<and> newline \<notin> set (code @ msg) \<and> msg \<noteq> [] \<and> \<not> is_space (last msg)"

definition reply_response :: "nat \<Rightarrow> (string \<times> string) + string \<Rightarrow> ts_response" where
  "reply_response p r =
     \<lparr>tsVersion = ''V1'', tsCorrelationId = idOf p, tsStatus = (if isl r then StatusERR else StatusOK),
      tsPayload = (if isl r then None else Some (projr r)), tsCode = (if isl r then Some (fst (projl r)) else None),
      tsMessage = (if isl r then Some (snd (projl r)) else None), tsRaw = butlast (reply_line p r)\<rparr>"

definition reply_outcome :: "nat \<Rightarrow> (string \<times> string) + string \<Rightarrow> ts_outcome" where
  "reply_outcome p r =
     (case r of
        Inr payload \<Rightarrow> ResolvedWith (reply_response p r)
      | Inl (code, msg) \<Rightarrow> RejectedWith (TsProtocolError msg code (reply_response p r)))"

lemma idOf_plain: "CHR ''|'' \<notin> set (idOf p)" "newline \<notin> set (idOf p)"
  by (auto simp: newline_def is_digit_def dest!: Itoa_chars)

lemma Split_fields:
  assumes "\<forall>x \<in> set xs. CHR ''|'' \<notin> set x"
  obtains P where "Split (Join (xs @ [c]) ''|'') ''|'' = xs @ P" "Join P ''|'' = c" "P \<noteq> []"
proof -
  obtain P where P: "P \<noteq> []" "c = Join P ''|''" "\<forall>x \<in> set P. CHR ''|'' \<notin> set x" using pieces by blast
  have "Join (xs @ [Join P ''|'']) ''|'' = Join (xs @ P) ''|''"
    using P(1) by (induction xs rule: induct_list012) (auto simp: neq_Nil_conv)
  moreover have "Split (Join (xs @ P) ''|'') ''|'' = xs @ P" using P assms by (intro Split_Join) auto
  ultimately show thesis using P(1,2) by (intro that [of P]) simp_all
qed

lemmas reply_simps = Ok_def Err_def parseResponse_def reply_response_def protocol_Version_def PROTOCOL_VERSION_def
  butlast_append Let_def

lemma parseResponse_reply:
  assumes "reply_ok r"
  shows "parseResponse (butlast (reply_line p r)) = Inr (reply_response p r)"
proof (cases r)
  case (Inr payload)
  have xs: "\<forall>x \<in> set [''V1'', idOf p, ''OK'']. CHR ''|'' \<notin> set x" using idOf_plain by simp
  show ?thesis
  proof (cases "payload = []")
    case True
    have "Split (Join [''V1'', idOf p, ''OK''] ''|'') ''|'' = [''V1'', idOf p, ''OK'']" using xs by (intro Split_Join) auto
    with True show ?thesis by (simp add: Inr reply_simps)
  next
    case False
    obtain P where "Split (Join ([''V1'', idOf p, ''OK''] @ [payload]) ''|'') ''|'' = [''V1'', idOf p, ''OK''] @ P"
      "Join P ''|'' = payload" by (rule Split_fields [OF xs])
    with False show ?thesis by (simp add: Inr reply_simps)
  qed
next
  case (Inl e)
  obtain code msg where e: "e = (code, msg)" by force
  have "\<forall>x \<in> set [''V1'', idOf p, ''ERR'', code]. CHR ''|'' \<notin> set x" using idOf_plain assms Inl e by simp
  then obtain P where "Split (Join ([''V1'', idOf p, ''ERR'', code] @ [msg]) ''|'') ''|'' = [''V1'', idOf p, ''ERR'', code] @ P"
    "Join P ''|'' = msg" by (rule Split_fields)
  with assms show ?thesis by (simp add: Inl e reply_simps)
qed

lemma reply_line_text:
  assumes "reply_ok r"
  obtains l where "reply_line p r = l @ [newline]" "newline \<notin> set l" "l \<noteq> []" "TrimSpace l = l"
proof -
  have nl: "newline \<notin> set ''V1|''" "newline \<notin> set ''|OK''" "newline \<notin> set ''|OK|''" "newline \<notin> set ''|ERR|''" "newline \<noteq> CHR ''|''"
    by (simp_all add: newline_def)
  have "\<exists>t. butlast (reply_line p r) = CHR ''V'' # t \<and> reply_line p r = CHR ''V'' # t @ [newline]
      \<and> newline \<notin> set t \<and> t \<noteq> [] \<and> \<not> is_space (last t)"
    using assms idOf_plain(2) nl
    by (cases r rule: reply_ok.cases) (auto simp: Ok_def Err_def protocol_Version_def butlast_append newline_def is_space_def)
  then obtain t where t: "reply_line p r = CHR ''V'' # t @ [newline]" "newline \<notin> set t" "t \<noteq> []" "\<not> is_space (last t)" by blast
  have "TrimSpace (CHR ''V'' # t) = CHR ''V'' # t" using t(3,4) by (intro TrimSpace_id) (auto simp: is_space_def)
  with t show thesis by (intro that [of "CHR ''V'' # t"]) (auto simp: newline_def)
qed

text \<open>An answer at the front of the buffer settles its request and nothing else.\<close>

lemma handleBuffer_reply:
  assumes ok: "ts_ok ps c" and p: "p \<in> set ps" and r: "reply_ok r"
  shows "handleBuffer (c\<lparr>tsRecvBuffer := reply_line p r @ rest\<rparr>) =
    handleBuffer ((settle p (reply_outcome p r) (deletePending (idOf p) (clearTimeout p c)))\<lparr>tsRecvBuffer := rest\<rparr>)"
proof -
  obtain l where l: "reply_line p r = l @ [newline]" "newline \<notin> set l" "l \<noteq> []" "TrimSpace l = l"
    by (rule reply_line_text [OF r])
  have parse: "parseResponse l = Inr (reply_response p r)" using parseResponse_reply [OF r, of p] l(1) by simp
  have look: "map_of (tsPending c) (idOf p) = Some \<lparr>pqPromise = p, pqTimeout = p\<rparr>"
    using ts_ok_lookup [OF ok] ts_ok_bound [OF ok p] p by simp
  have "handleResponseLine l (c\<lparr>tsRecvBuffer := rest\<rparr>) =
      ((settle p (reply_outcome p r) (deletePending (idOf p) (clearTimeout p c)))\<lparr>tsRecvBuffer := rest\<rparr>, None)"
    using parse look
    by (cases r) (auto simp: handleResponseLine_def reply_response_def reply_outcome_def settle_def deletePending_def
        clearTimeout_def Let_def)
  then show ?thesis
    using l by (subst handleBuffer.simps) (simp add: Let_def)
qed

lemma handleBuffer_replies:
  assumes "ts_ok ps c" "distinct (map fst rs)" "\<forall>(p, r) \<in> set rs. p \<in> set ps \<and> reply_ok r"
  shows "\<exists>c'. handleBuffer (c\<lparr>tsRecvBuffer := concat (map (\<lambda>(p, r). reply_line p r) rs)\<rparr>) = (c', None)
    \<and> tsRecvBuffer c' = [] \<and> tsSettled c' = tsSettled c @ map (\<lambda>(p, r). (p, reply_outcome p r)) rs
    \<and> ts_ok (filter (\<lambda>p. p \<notin> fst ` set rs) ps) c'"
  using assms
proof (induction rs arbitrary: ps c)
  case Nil
  then show ?case by (simp add: handleBuffer.simps)
next
  case (Cons x rs)
  obtain p r where x: "x = (p, r)" by force
  let ?c = "settle p (reply_outcome p r) (deletePending (idOf p) (clearTimeout p c))"
  have p: "p \<in> set ps" "reply_ok r" "p \<notin> fst ` set rs" using Cons.prems(2,3) by (auto simp: x)
  have ok: "ts_ok (removeAll p ps) ?c"
    by (rule settle_ok [OF Cons.prems(1) p(1)]) (auto simp: reply_outcome_def reply_response_def split: sum.splits)
  have rs: "distinct (map fst rs)" "\<forall>(q, r) \<in> set rs. q \<in> set (removeAll p ps) \<and> reply_ok r"
    using Cons.prems(2,3) p(3) by force+
  have "filter (\<lambda>q. q \<notin> fst ` set rs) (removeAll p ps) = filter (\<lambda>q. q \<notin> fst ` set (x # rs)) ps"
    by (auto simp: x removeAll_filter_not_eq intro!: filter_cong)
  moreover have "tsSettled ?c = tsSettled c @ [(p, reply_outcome p r)]"
    by (simp add: settle_def deletePending_def clearTimeout_def)
  ultimately show ?case
    using Cons.IH [OF ok rs] handleBuffer_reply [OF Cons.prems(1) p(1,2)] by (simp add: x)
qed

text \<open>
  C12. The broker's answers reach their callers. Let requests of a client be answered by the broker, each with a
  payload or an error, in whatever order, while the connection cuts the stream of lines into
  whatever chunks. Then every promise is settled with its own answer, in the order of the answers: resolved with the
  payload, or rejected with the broker's code and message. Nothing is thrown, nothing is left in the buffer,
  and exactly the requests without an answer remain pending.
\<close>

theorem answers_reach_callers:
  assumes "ts_reachable c" "tsIssued c \<le> 2 ^ 53" "tsRecvBuffer c = []"
    and "distinct (map fst rs)" "\<forall>(p, r) \<in> set rs. (p, Itoa (int p + 1)) \<in> set (tsTimers c) \<and> reply_ok r"
    and "concat chunks = concat (map (\<lambda>(p, r). reply_line p r) rs)"
  shows "\<exists>c'. feed chunks c = (c', None) \<and> tsRecvBuffer c' = []
    \<and> tsSettled c' = tsSettled c @ map (\<lambda>(p, r). (p, reply_outcome p r)) rs
    \<and> tsPending c' = filter (\<lambda>(cid, q). pqPromise q \<notin> fst ` set rs) (tsPending c)"
proof -
  obtain ps where ok: "ts_ok ps c" using ts_reachable_ok [OF assms(1,2)] ..
  then have "\<forall>(p, r) \<in> set rs. p \<in> set ps \<and> reply_ok r" using assms(5) by (force simp: ts_ok_def)
  from handleBuffer_replies [OF ok assms(4) this] obtain c' where
    c': "handleData (concat chunks) c = (c', None)" "tsRecvBuffer c' = []"
      "tsSettled c' = tsSettled c @ map (\<lambda>(p, r). (p, reply_outcome p r)) rs" "ts_ok (filter (\<lambda>p. p \<notin> fst ` set rs) ps) c'"
    using assms(3,6) by (auto simp: handleData_def)
  have "feed chunks c = (c', None)" using feed_concat [of c chunks] assms(3) c'(1) by simp
  moreover have "tsPending c' = filter (\<lambda>(cid, q). pqPromise q \<notin> fst ` set rs) (tsPending c)"
    using ok c'(4) by (simp add: ts_ok_def filter_map comp_def)
  ultimately show ?thesis using c'(2,3) by blast
qed

theorem answers_reach_callers_witness:
  "\<exists>c'. feed [''V1|2|OK|off'', ''set=5'' @ [newline] @ ''V1|1|ERR|NOT_LEADER|try another broker'' @ [newline]] ts_sample = (c', None)
     \<and> tsPending c' = [] \<and> map fst (tsSettled c') = [1, 0]"
proof -
  let ?rs = "[(1, Inr ''offset=5''), (0, Inl (''NOT_LEADER'', ''try another broker''))]"
  have id: "Itoa 1 = ''1''" "Itoa 2 = ''2''" by code_simp+
  have "\<forall>(p, r) \<in> set ?rs. (p, Itoa (int p + 1)) \<in> set (tsTimers ts_sample) \<and> reply_ok r"
    by (simp add: id ts_sample_simps newline_def is_space_def)
  from answers_reach_callers [OF ts_sample_reachable _ _ _ this,
      of "[''V1|2|OK|off'', ''set=5'' @ [newline] @ ''V1|1|ERR|NOT_LEADER|try another broker'' @ [newline]]"]
  show ?thesis by (auto simp: id ts_sample_simps Ok_def Err_def protocol_Version_def)
qed

text \<open>
  The buffer is not emptied with the connection. When a connection ends in the middle of a line, the rest stays in
  front of the first line of the next connection, and that answer is lost: it is taken for an answer to the old
  request, which nobody waits for any more, and the new request stays pending until its timer fires.
\<close>

definition ts_reconnected :: ts_client where
  "ts_reconnected = fst (sendCommand ''OFFSET'' ''billing orders 0'' (connectDone 1
     (onSocketClose (fst (handleData ''V1|2|OK|off'' ts_sample)))))"

lemma cut_line_spoils_next_answer:
  "ts_reachable ts_reconnected"
  "tsPending ts_reconnected = [(''3'', \<lparr>pqPromise = 2, pqTimeout = 2\<rparr>)]"
  "tsPending (fst (handleData (Ok ''3'' ''offset=5'') ts_reconnected)) = tsPending ts_reconnected"
  "tsSettled (fst (handleData (Ok ''3'' ''offset=5'') ts_reconnected)) = tsSettled ts_reconnected"
  unfolding ts_reconnected_def by (intro ts_reachable.intros ts_sample_reachable) code_simp+

text \<open>A line with fewer than three fields is thrown out of the socket's callback, where nothing catches it.\<close>

lemma malformed_line_throws:
  "length (Split l ''|'') < 3 \<Longrightarrow> newline \<notin> set l \<Longrightarrow> l \<noteq> [] \<Longrightarrow> TrimSpace l = l \<Longrightarrow> tsRecvBuffer c = [] \<Longrightarrow>
    handleData (l @ newline # rest) c = (c\<lparr>tsRecvBuffer := rest\<rparr>, Some (TsError (''Invalid FLUX response: '' @ l)))"
  by (simp add: handleData_def handleBuffer.simps [of "_\<lparr>tsRecvBuffer := _\<rparr>"] handleResponseLine_def parseResponse_def)

end
