(* ===== verification/TypeScript_Commands.thy ===== *)
theory TypeScript_Commands
  imports TypeScript_Client Transport "HOL-Library.Log_Nat"
begin

text \<open>
  \<open>packages/sdk/typescript/src/parsers.ts\<close> and the commands of \<open>client.ts\<close>: the arguments each command is sent
  with, and what it makes of the response. A command is a \<open>ts_call\<close>; what its caller gets is
  \<open>ts_result\<close> of the outcome of its promise.

  Numbers in responses are doubles (\<open>js_number\<close>); numbers in arguments are integers that are printed without
  exponent. The regular expressions are functions on the text from a position on that yield what
  the group in parentheses matched, tried from left to right by \<open>js_match\<close>; their keys are words.
\<close>

section \<open>Numbers and regular expressions\<close>

datatype js_number = Num int | Infinite bool | NaN

text \<open>The double next to an integer, of two the one with an even fraction. \<open>Infinite True\<close> is the negative one.\<close>

definition js_double :: "int \<Rightarrow> js_number" where
  "js_double n =
     (if \<bar>n\<bar> \<le> 2 ^ 53 then Num n
      else
        let a = \<bar>n\<bar>;
            e = floorlog 2 (nat a) - 53;
            m = a div 2 ^ e;
            r = a mod 2 ^ e;
            up = (2 * r > 2 ^ e \<or> 2 * r = 2 ^ e \<and> odd m);
            v = (if up then m + 1 else m) * 2 ^ e
        in if 2 ^ 1024 \<le> v then Infinite (n < 0) else Num (sgn n * v))"

definition parseInt10 :: "string \<Rightarrow> js_number" where
  "parseInt10 s =
     (let t = dropWhile is_space s;
          ds = takeWhile is_digit (if t \<noteq> [] \<and> (hd t = CHR ''-'' \<or> hd t = CHR ''+'') then tl t else t);
          n = int (digits_val ds)
      in if ds = [] then NaN else js_double (if t \<noteq> [] \<and> hd t = CHR ''-'' then - n else n))"

fun js_match :: "(string \<Rightarrow> string option) \<Rightarrow> string \<Rightarrow> string option" where
  "js_match f [] = f []"
| "js_match f (c # cs) = (case f (c # cs) of None \<Rightarrow> js_match f cs | Some g \<Rightarrow> Some g)"

text \<open>\<open>key=(-?\d+)\<close>, \<open>key=\[([^\]]*)\]\<close>, \<open>key=(true|false)\<close> and \<open>key=([^\s]+)\<close>.\<close>

definition int_at :: "string \<Rightarrow> string \<Rightarrow> string option" where
  "int_at key s =
     (if HasPrefix s (key @ ''='')
      then
        let r = drop (length key + 1) s;
            sign = (if r \<noteq> [] \<and> hd r = CHR ''-'' then ''-'' else []);
            ds = takeWhile is_digit (drop (length sign) r)
        in if ds = [] then None else Some (sign @ ds)
      else None)"

definition list_at :: "string \<Rightarrow> string \<Rightarrow> string option" where
  "list_at key s =
     (if HasPrefix s (key @ ''=['') \<and> CHR '']'' \<in> set (drop (length key + 2) s)
      then Some (takeWhile (\<lambda>c. c \<noteq> CHR '']'') (drop (length key + 2) s)) else None)"

definition bool_at :: "string \<Rightarrow> string \<Rightarrow> string option" where
  "bool_at key s =
     (if HasPrefix s (key @ ''=true'') then Some ''true''
      else if HasPrefix s (key @ ''=false'') then Some ''false'' else None)"

definition word_at :: "string \<Rightarrow> string \<Rightarrow> string option" where
  "word_at key s =
     (let w = takeWhile (\<lambda>c. \<not> is_space c) (drop (length key + 1) s)
      in if HasPrefix s (key @ ''='') \<and> w \<noteq> [] then Some w else None)"

section \<open>Parsers\<close>

definition mustGetPayload :: "ts_response \<Rightarrow> string \<Rightarrow> ts_error + string" where
  "mustGetPayload resp fallback =
     (case tsPayload resp of None \<Rightarrow> Inl (TsError fallback) | Some payload \<Rightarrow> Inr payload)"

definition fieldMissing :: "string \<Rightarrow> string \<Rightarrow> ts_error" where
  "fieldMissing payload key = TsError (''Field '' @ key @ '' missing in payload: '' @ payload)"

definition extractIntField_ts :: "string \<Rightarrow> string \<Rightarrow> ts_error + js_number" where
  "extractIntField_ts payload key =
     (case js_match (int_at key) payload of
        None \<Rightarrow> Inl (fieldMissing payload key)
      | Some g \<Rightarrow>
          let parsed = parseInt10 g
          in if parsed = NaN then Inl (TsError (''Invalid integer for '' @ key @ '': '' @ payload)) else Inr parsed)"

record ts_message =
  msOffset :: js_number
  msValue :: string

fun consumedItems :: "string list \<Rightarrow> ts_error + ts_message list" where
  "consumedItems [] = Inr []"
| "consumedItems (item # items) =
     (let parts = Split item '':'';
          parsedOffset = parseInt10 (hd parts)
      in if parsedOffset = NaN then Inl (TsError (''Invalid message offset in consume response: '' @ item))
         else andThen (consumedItems items) (\<lambda>out. Inr (\<lparr>msOffset = parsedOffset, msValue = Join (tl parts) '':''\<rparr> # out)))"

definition parseConsumedMessages :: "string \<Rightarrow> ts_error + ts_message list" where
  "parseConsumedMessages payload =
     (let pieces = Split payload ''messages='';
          rawData = (if 1 < length pieces then pieces ! 1 else []);
          data = TrimSpace (Split rawData '' hw='' ! 0)
      in if TrimSpace data = [] then Inr [] else consumedItems (filter (\<lambda>item. item \<noteq> []) (Split data '','')))"

text \<open>The numbers of a list; on a text without white space at its ends \<open>split(/\s+/)\<close> is \<open>Fields\<close>.\<close>

definition intList :: "string \<Rightarrow> js_number list" where
  "intList body = filter (\<lambda>v. v \<noteq> NaN) (map parseInt10 (Fields body))"

definition parseIntListField :: "string \<Rightarrow> string \<Rightarrow> js_number list" where
  "parseIntListField payload key =
     (case js_match (list_at key) payload of
        None \<Rightarrow> []
      | Some g \<Rightarrow> let body = TrimSpace g in if body = [] then [] else intList body)"

definition parseBoolField :: "string \<Rightarrow> string \<Rightarrow> ts_error + bool" where
  "parseBoolField payload key =
     (case js_match (bool_at key) payload of None \<Rightarrow> Inl (fieldMissing payload key) | Some g \<Rightarrow> Inr (g = ''true''))"

definition parseJoinAssignments :: "string \<Rightarrow> js_number list" where
  "parseJoinAssignments payload =
     (case (Index payload ''['', Index payload '']'') of
        (Some start, Some end) \<Rightarrow>
          if end \<le> start then []
          else
            let body = TrimSpace (take (end - (start + 1)) (drop (start + 1) payload))
            in if body = [] then [] else intList body
      | _ \<Rightarrow> [])"

definition parseJoinGeneration :: "string \<Rightarrow> ts_error + js_number" where
  "parseJoinGeneration payload = extractIntField_ts payload ''generation''"

definition extractStringField_ts :: "string \<Rightarrow> string \<Rightarrow> ts_error + string" where
  "extractStringField_ts payload key =
     (case js_match (word_at key) payload of None \<Rightarrow> Inl (fieldMissing payload key) | Some g \<Rightarrow> Inr g)"

definition extractBracketedList :: "string \<Rightarrow> string \<Rightarrow> string list" where
  "extractBracketedList payload key =
     (let token = key @ ''=[''
      in case Index payload token of
           None \<Rightarrow> []
         | Some start \<Rightarrow>
             let rest = drop (start + length token) payload
             in (case Index rest '']'' of
                   None \<Rightarrow> []
                 | Some end \<Rightarrow> filter (\<lambda>v. v \<noteq> []) (map TrimSpace (Split (take end rest) '' ''))))"

section \<open>Commands\<close>

text \<open>The command, its arguments, and what becomes of the response.\<close>

type_synonym 'a ts_call = "string \<times> string \<times> (ts_response \<Rightarrow> ts_error + 'a)"

definition ts_result :: "'a ts_call \<Rightarrow> ts_outcome \<Rightarrow> ts_error + 'a" where
  "ts_result call outcome =
     (case outcome of RejectedWith e \<Rightarrow> Inl e | ResolvedWith resp \<Rightarrow> snd (snd call) resp)"

definition issue :: "'a ts_call \<Rightarrow> ts_client \<Rightarrow> ts_client \<times> (ts_error + nat)" where
  "issue call c = sendCommand (fst call) (fst (snd call)) c"

definition withPayload :: "string \<Rightarrow> (ts_response \<Rightarrow> string \<Rightarrow> ts_error + 'a) \<Rightarrow> ts_response \<Rightarrow> ts_error + 'a" where
  "withPayload fallback f resp = andThen (mustGetPayload resp fallback) (f resp)"

record ts_produced =
  tpPartition :: js_number
  tpOffset :: js_number
  tpHighWatermark :: "js_number option"
  tpRaw :: ts_response

definition ts_produce :: "string \<Rightarrow> string \<Rightarrow> string \<Rightarrow> string \<Rightarrow> ts_produced ts_call" where
  "ts_produce topic key value acks =
     (''PRODUCE'', topic @ '' '' @ key @ '':'' @ value @ '' acks='' @ acks,
      withPayload ''produce response payload missing'' (\<lambda>resp payload.
        let highWatermark = (case extractIntField_ts payload ''hw'' of Inl e \<Rightarrow> None | Inr hw \<Rightarrow> Some hw)
        in andThen (extractIntField_ts payload ''partition'') (\<lambda>part.
           andThen (extractIntField_ts payload ''offset'') (\<lambda>off.
             Inr \<lparr>tpPartition = part, tpOffset = off, tpHighWatermark = highWatermark, tpRaw = resp\<rparr>))))"

definition ts_consume :: "string \<Rightarrow> int \<Rightarrow> int \<Rightarrow> ts_message list ts_call" where
  "ts_consume topic part off =
     (''CONSUME'', topic @ '' '' @ Itoa part @ '' '' @ Itoa off,
      withPayload ''consume response payload missing'' (\<lambda>_. parseConsumedMessages))"

text \<open>\<open>JoinResult\<close> and \<open>SyncResult\<close> have the same fields.\<close>

record ts_joined =
  tjGeneration :: js_number
  tjAssigned :: "js_number list"
  tjRaw :: ts_response

definition joinResult :: "ts_response \<Rightarrow> string \<Rightarrow> ts_error + ts_joined" where
  "joinResult resp payload =
     andThen (parseJoinGeneration payload) (\<lambda>gen.
       Inr \<lparr>tjGeneration = gen, tjAssigned = parseJoinAssignments payload, tjRaw = resp\<rparr>)"

definition ts_join :: "string \<Rightarrow> string \<Rightarrow> string \<Rightarrow> string option \<Rightarrow> ts_joined ts_call" where
  "ts_join grp topic consumerId assignor =
     (''JOIN'', grp @ '' '' @ topic @ '' '' @ consumerId @ (case assignor of None \<Rightarrow> [] | Some a \<Rightarrow> '' assignor='' @ a),
      withPayload ''join response payload missing'' joinResult)"

definition memberArgs :: "string \<Rightarrow> string \<Rightarrow> string \<Rightarrow> int \<Rightarrow> string" where
  "memberArgs grp topic consumerId gen = grp @ '' '' @ topic @ '' '' @ consumerId @ '' '' @ Itoa gen"

definition ts_sync :: "string \<Rightarrow> string \<Rightarrow> string \<Rightarrow> int \<Rightarrow> ts_joined ts_call" where
  "ts_sync grp topic consumerId gen =
     (''SYNC'', memberArgs grp topic consumerId gen, withPayload ''sync response payload missing'' joinResult)"

definition ts_heartbeat :: "string \<Rightarrow> string \<Rightarrow> string \<Rightarrow> int \<Rightarrow> bool ts_call" where
  "ts_heartbeat grp topic consumerId gen =
     (''HEARTBEAT'', memberArgs grp topic consumerId gen,
      withPayload ''heartbeat response payload missing'' (\<lambda>_ payload. Inr (Contains payload ''heartbeat=ok'')))"

definition ts_leave :: "string \<Rightarrow> string \<Rightarrow> string \<Rightarrow> int \<Rightarrow> bool ts_call" where
  "ts_leave grp topic consumerId gen =
     (''LEAVE'', memberArgs grp topic consumerId gen,
      withPayload ''leave response payload missing'' (\<lambda>_ payload. Inr (Contains payload ''left=true'')))"

definition ts_commit :: "string \<Rightarrow> string \<Rightarrow> string \<Rightarrow> int \<Rightarrow> int \<Rightarrow> int \<Rightarrow> bool ts_call" where
  "ts_commit grp topic consumerId gen part off =
     (''COMMIT'', memberArgs grp topic consumerId gen @ '' '' @ Itoa part @ '' '' @ Itoa off,
      withPayload ''commit response payload missing'' (\<lambda>_ payload. Inr (Contains payload ''committed=true'')))"

definition ts_offset :: "string \<Rightarrow> string \<Rightarrow> int \<Rightarrow> js_number ts_call" where
  "ts_offset grp topic part =
     (''OFFSET'', grp @ '' '' @ topic @ '' '' @ Itoa part,
      withPayload ''offset response payload missing'' (\<lambda>_ payload. extractIntField_ts payload ''offset''))"

record ts_replica_fetch =
  tfReplicaId :: js_number
  tfAckedOffset :: js_number
  tfHighWatermark :: js_number
  tfIsr :: "js_number list"
  tfUnderReplicated :: bool
  tfRaw :: ts_response

definition ts_replicaFetch :: "string \<Rightarrow> int \<Rightarrow> int \<Rightarrow> int \<Rightarrow> ts_replica_fetch ts_call" where
  "ts_replicaFetch topic part replicaId off =
     (''REPLICA_FETCH'', topic @ '' '' @ Itoa part @ '' '' @ Itoa replicaId @ '' '' @ Itoa off,
      withPayload ''replica fetch response payload missing'' (\<lambda>resp payload.
        andThen (extractIntField_ts payload ''replica'') (\<lambda>replica.
        andThen (extractIntField_ts payload ''acked_offset'') (\<lambda>acked.
        andThen (extractIntField_ts payload ''hw'') (\<lambda>hw.
        andThen (parseBoolField payload ''under_replicated'') (\<lambda>under.
          Inr \<lparr>tfReplicaId = replica, tfAckedOffset = acked, tfHighWatermark = hw,
               tfIsr = parseIntListField payload ''isr'', tfUnderReplicated = under, tfRaw = resp\<rparr>))))))"

record ts_partition_role =
  toTopic :: string
  toPartition :: js_number
  toRole :: string
  toHighWatermark :: js_number
  toRaw :: ts_response

definition ts_setPartitionRole :: "string \<Rightarrow> int \<Rightarrow> string \<Rightarrow> ts_partition_role ts_call" where
  "ts_setPartitionRole topic part role =
     (''SET_PARTITION_ROLE'', topic @ '' '' @ Itoa part @ '' '' @ role,
      withPayload ''set partition role payload missing'' (\<lambda>resp payload.
        andThen (extractStringField_ts payload ''role'') (\<lambda>parsedRole.
          if parsedRole \<noteq> ''leader'' \<and> parsedRole \<noteq> ''follower''
          then Inl (TsError (''Invalid role in response payload: '' @ payload))
          else
            andThen (extractStringField_ts payload ''topic'') (\<lambda>topic'.
            andThen (extractIntField_ts payload ''partition'') (\<lambda>partition'.
            andThen (extractIntField_ts payload ''hw'') (\<lambda>hw.
              Inr \<lparr>toTopic = topic', toPartition = partition', toRole = parsedRole, toHighWatermark = hw, toRaw = resp\<rparr>))))))"

section \<open>Administration\<close>

text \<open>The position in the controller's log that the answers of the administration commands end with.\<close>

definition withLogPosition :: "string \<Rightarrow> (js_number \<Rightarrow> js_number \<Rightarrow> 'a) \<Rightarrow> ts_error + 'a" where
  "withLogPosition payload f =
     andThen (extractIntField_ts payload ''term'') (\<lambda>trm. andThen (extractIntField_ts payload ''index'') (\<lambda>idx. Inr (f trm idx)))"

record ts_created_topic =
  tcTopic :: string
  tcPartitions :: js_number
  tcReplicationFactor :: js_number
  tcTerm :: js_number
  tcIndex :: js_number
  tcRaw :: ts_response

definition ts_adminCreateTopic :: "string \<Rightarrow> int \<Rightarrow> int \<Rightarrow> ts_created_topic ts_call" where
  "ts_adminCreateTopic topic partitions replicationFactor =
     (''ADMIN_CREATE_TOPIC'', topic @ '' '' @ Itoa partitions @ '' '' @ Itoa replicationFactor,
      withPayload ''admin create topic payload missing'' (\<lambda>resp payload.
        andThen (extractStringField_ts payload ''topic'') (\<lambda>topic'.
        andThen (extractIntField_ts payload ''partitions'') (\<lambda>partitions'.
        andThen (extractIntField_ts payload ''replication_factor'') (\<lambda>rf.
          withLogPosition payload (\<lambda>trm idx. \<lparr>tcTopic = topic', tcPartitions = partitions', tcReplicationFactor = rf,
            tcTerm = trm, tcIndex = idx, tcRaw = resp\<rparr>))))))"

record ts_registered_broker =
  tgBrokerId :: js_number
  tgHost :: string
  tgPort :: js_number
  tgTerm :: js_number
  tgIndex :: js_number
  tgRaw :: ts_response

definition ts_adminRegisterBroker :: "int \<Rightarrow> string \<Rightarrow> int \<Rightarrow> int option \<Rightarrow> ts_registered_broker ts_call" where
  "ts_adminRegisterBroker brokerId host port epoch =
     (''ADMIN_REGISTER_BROKER'', Itoa brokerId @ '' '' @ host @ '' '' @ Itoa port @
        (case epoch of None \<Rightarrow> [] | Some e \<Rightarrow> '' '' @ Itoa e),
      withPayload ''admin register broker payload missing'' (\<lambda>resp payload.
        andThen (extractIntField_ts payload ''broker_id'') (\<lambda>id'.
        andThen (extractStringField_ts payload ''host'') (\<lambda>host'.
        andThen (extractIntField_ts payload ''port'') (\<lambda>port'.
          withLogPosition payload (\<lambda>trm idx. \<lparr>tgBrokerId = id', tgHost = host', tgPort = port',
            tgTerm = trm, tgIndex = idx, tgRaw = resp\<rparr>))))))"

record ts_broker_heartbeat =
  thBrokerId :: js_number
  thHeartbeatOk :: bool
  thTerm :: js_number
  thIndex :: js_number
  thRaw :: ts_response

definition ts_adminBrokerHeartbeat :: "int \<Rightarrow> ts_broker_heartbeat ts_call" where
  "ts_adminBrokerHeartbeat brokerId =
     (''ADMIN_BROKER_HEARTBEAT'', Itoa brokerId,
      withPayload ''admin broker heartbeat payload missing'' (\<lambda>resp payload.
        andThen (extractIntField_ts payload ''broker_id'') (\<lambda>id'.
          withLogPosition payload (\<lambda>trm idx. \<lparr>thBrokerId = id', thHeartbeatOk = Contains payload ''heartbeat=ok'',
            thTerm = trm, thIndex = idx, thRaw = resp\<rparr>))))"

record ts_partition_leader =
  tlTopic :: string
  tlPartition :: js_number
  tlLeader :: js_number
  tlIsr :: "js_number list"
  tlTerm :: js_number
  tlIndex :: js_number
  tlRaw :: ts_response

definition ts_adminSetPartitionLeader :: "string \<Rightarrow> int \<Rightarrow> int \<Rightarrow> int list \<Rightarrow> ts_partition_leader ts_call" where
  "ts_adminSetPartitionLeader topic part leaderId isr =
     (''ADMIN_SET_PARTITION_LEADER'',
      topic @ '' '' @ Itoa part @ '' '' @ Itoa leaderId @ '' '' @ Join (map Itoa isr) '','',
      withPayload ''admin set partition leader payload missing'' (\<lambda>resp payload.
        andThen (extractStringField_ts payload ''topic'') (\<lambda>topic'.
        andThen (extractIntField_ts payload ''partition'') (\<lambda>partition'.
        andThen (extractIntField_ts payload ''leader'') (\<lambda>leader'.
          withLogPosition payload (\<lambda>trm idx. \<lparr>tlTopic = topic', tlPartition = partition', tlLeader = leader',
            tlIsr = parseIntListField payload ''isr'', tlTerm = trm, tlIndex = idx, tlRaw = resp\<rparr>))))))"

section \<open>Numbers are read back\<close>

lemma is_space_digit: "is_digit c \<Longrightarrow> \<not> is_space c" "\<not> is_space (CHR ''-'')"
  by (auto simp: is_digit_def is_space_def)

lemma parseInt10_digits:
  assumes "ds \<noteq> []" "\<forall>c \<in> set ds. is_digit c"
  shows "parseInt10 ds = js_double (int (digits_val ds))" "parseInt10 (CHR ''-'' # ds) = js_double (- int (digits_val ds))"
proof -
  obtain d ds' where d: "ds = d # ds'" using assms(1) by (cases ds) auto
  have "is_digit d" using assms(2) d by simp
  then have c: "d \<noteq> CHR ''-''" "d \<noteq> CHR ''+''" "\<not> is_space d" using is_space_digit by (auto simp: is_digit_def)
  have t: "is_digit d" "takeWhile is_digit ds' = ds'" using assms(2) d by simp_all
  show "parseInt10 ds = js_double (int (digits_val ds))" using c by (simp add: parseInt10_def d t Let_def)
  show "parseInt10 (CHR ''-'' # ds) = js_double (- int (digits_val ds))"
    using is_space_digit(2) by (simp add: parseInt10_def d t Let_def)
qed

text \<open>The digits of a printed number, after its sign.\<close>

lemma Itoa_digits:
  obtains ds where "ds \<noteq> []" "\<forall>c \<in> set ds. is_digit c" "Itoa i = (if i < 0 then CHR ''-'' # ds else ds)" "int (digits_val ds) = \<bar>i\<bar>"
  by (rule that [of "digits_base 10 (nat \<bar>i\<bar>)"]) (use digits_base_10_digits in \<open>auto simp: Itoa_def list_all_iff\<close>)

lemma parseInt10_Itoa:
  assumes "\<bar>i\<bar> \<le> 2 ^ 53"
  shows "parseInt10 (Itoa i) = Num i"
proof -
  obtain ds where ds: "ds \<noteq> []" "\<forall>c \<in> set ds. is_digit c" "Itoa i = (if i < 0 then CHR ''-'' # ds else ds)" "int (digits_val ds) = \<bar>i\<bar>"
    by (rule Itoa_digits)
  then show ?thesis using parseInt10_digits [OF ds(1,2)] assms by (auto simp: js_double_def)
qed

text \<open>A field is found where its key first stands in the text.\<close>

lemma js_match_skip:
  "(\<And>s' t. a = s' @ t \<Longrightarrow> t \<noteq> [] \<Longrightarrow> f (t @ b) = None) \<Longrightarrow> js_match f (a @ b) = js_match f b"
proof (induction a)
  case (Cons c a)
  have "f (c # a @ b) = None" using Cons.prems [of "[]" "c # a"] by simp
  moreover have "js_match f (a @ b) = js_match f b" using Cons.prems by (intro Cons.IH) (metis append_Cons)
  ultimately show ?case by simp
qed simp

lemma js_match_here: "f s = Some g \<Longrightarrow> js_match f s = Some g"
  by (cases s) auto

lemma int_at_Itoa:
  assumes "r = [] \<or> \<not> is_digit (hd r)"
  shows "int_at key (key @ ''='' @ Itoa i @ r) = Some (Itoa i)"
proof -
  obtain ds where ds: "ds \<noteq> []" "\<forall>c \<in> set ds. is_digit c" "Itoa i = (if i < 0 then CHR ''-'' # ds else ds)"
    by (rule Itoa_digits)
    obtain d ds' where d: "ds = d # ds'" using ds(1) by (cases ds) auto
  have "takeWhile is_digit (ds' @ r) = ds'" "is_digit d" using ds(2) assms d by (cases r; auto simp: takeWhile_append)+
  moreover from this(2) have "d \<noteq> CHR ''-''" by (auto simp: is_digit_def)
  ultimately show ?thesis using ds(3) by (simp add: int_at_def HasPrefix_def d Let_def)
qed

section \<open>Consumed messages are read back\<close>

lemma Index_apart:
  assumes "c \<notin> set sub" "sub \<noteq> []" "Index a sub = None" "Index b sub = None"
  shows "Index (a @ c # b) sub = None"
  using assms(3)
proof (induction a)
  case Nil
  have "\<not> HasPrefix (c # b) sub" using assms(1,2) by (cases sub) auto
  then show ?case using assms(4) by simp
next
  case (Cons x a)
  have "\<not> HasPrefix (x # a @ c # b) sub"
  proof
    assume pre: "HasPrefix (x # a @ c # b) sub"
    show False
    proof (cases "length sub \<le> length (x # a)")
      case True
      then have "take (length sub) ((x # a) @ c # b) = take (length sub) (x # a)" by (simp del: append_Cons)
      then have "HasPrefix (x # a) sub" using pre unfolding HasPrefix_def by (metis append_Cons)
      then show False using Cons.prems by simp
    next
      case False
      then have "c \<in> set (take (length sub) ((x # a) @ c # b))" by (simp add: take_Cons' del: append_Cons)
      then show False using pre assms(1) unfolding HasPrefix_def by (metis append_Cons)
    qed
  qed
  then show ?case using Cons by (simp split: if_splits)
qed

lemma Index_first_char: "sub = d # sub' \<Longrightarrow> d \<notin> set s \<Longrightarrow> Index s sub = None"
  by (induction s) auto

text \<open>Values that survive: those of the wire format that do not contain the text the parser splits at.\<close>

definition ts_value :: "string \<Rightarrow> bool" where
  "ts_value v \<longleftrightarrow> wire_value v \<and> \<not> Contains v ''messages=''"

lemma item_apart:
  assumes "ts_value (Value m)"
  shows "Index (fetchItem m) ''messages='' = None"
proof -
  have "CHR ''m'' \<notin> set (Itoa (Offset m))" by (rule Itoa_no) (simp_all add: is_digit_def)
  then have "Index (Itoa (Offset m)) ''messages='' = None" by (intro Index_first_char) simp
  then show ?thesis
    using assms Index_apart [of "CHR '':''" "''messages=''"] by (simp add: fetchItem_def ts_value_def Contains_def)
qed

lemma items_apart:
  "\<forall>m \<in> set ms. ts_value (Value m) \<Longrightarrow> Index (Join (map fetchItem ms) '','') ''messages='' = None"
proof (induction ms rule: induct_list012)
  case (3 m n ms)
  then have "Index (Join (map fetchItem (n # ms)) '','') ''messages='' = None" by simp
  then show ?case
    using 3(3) item_apart Index_apart [of "CHR '',''" "''messages=''" "fetchItem m"] by simp
qed (use item_apart in auto)

lemma items_no_space:
  assumes "\<forall>m \<in> set ms. wire_value (Value m)"
  shows "\<forall>c \<in> set (Join (map fetchItem ms) '',''). \<not> is_space c"
proof
  fix c assume "c \<in> set (Join (map fetchItem ms) '','')"
  then consider "c = CHR '',''" | m where "m \<in> set ms" "c \<in> set (fetchItem m)" using set_Join by fastforce
  then show "\<not> is_space c"
  proof cases
    case (2 m)
    then consider "c \<in> set (Itoa (Offset m))" | "c = CHR '':''" | "c \<in> set (Value m)" by (auto simp: fetchItem_def)
    then show ?thesis
    proof cases
      case 1
      then show ?thesis using Itoa_chars is_space_digit by blast
    qed (use 2(1) assms in \<open>auto simp: wire_value_def is_space_def\<close>)
  qed (simp add: is_space_def)
qed

definition ts_received :: "Message \<Rightarrow> ts_message" where
  "ts_received m = \<lparr>msOffset = Num (Offset m), msValue = Value m\<rparr>"

lemma consumedItems_fetchItem:
  "\<forall>m \<in> set ms. \<bar>Offset m\<bar> \<le> 2 ^ 53 \<Longrightarrow> consumedItems (map fetchItem ms) = Inr (map ts_received ms)"
proof (induction ms)
  case (Cons m ms)
  obtain P where "P \<noteq> []" "Split (fetchItem m) '':'' = Itoa (Offset m) # P" "Join P '':'' = Value m" using Split_item by blast
  then show ?case using Cons parseInt10_Itoa [of "Offset m"] by (simp add: ts_received_def)
qed simp

lemma parseConsumedMessages_read_back:
  assumes "\<forall>m \<in> set ms. ts_value (Value m) \<and> \<bar>Offset m\<bar> \<le> 2 ^ 53"
  shows "parseConsumedMessages (''messages='' @ Join (map fetchItem ms) '','' @ '' hw='' @ Itoa hw) = Inr (map ts_received ms)"
proof -
  define items where "items = Join (map fetchItem ms) '',''"
  have wire: "\<forall>m \<in> set ms. wire_value (Value m)" using assms by (simp add: ts_value_def)
  note sp = wire_items(1) [OF wire, folded items_def]
  have "CHR ''m'' \<notin> set (''hw='' @ Itoa hw)" using Itoa_no [of "CHR ''m''" hw] by (simp add: is_digit_def)
  then have "Index (''hw='' @ Itoa hw) ''messages='' = None" by (intro Index_first_char) auto
  then have no: "Index (items @ '' hw='' @ Itoa hw) ''messages='' = None"
    using Index_apart [of "CHR '' ''" "''messages=''" items "''hw='' @ Itoa hw"] items_apart assms by (simp add: items_def)
  have "Split (''messages='' @ items @ '' hw='' @ Itoa hw) ''messages='' = [[], items @ '' hw='' @ Itoa hw]"
    using no by (simp add: Split_def)
  moreover have "Split (items @ '' hw='' @ Itoa hw) '' hw='' ! 0 = items"
    using Index_hw [OF sp, of "Itoa hw"] by (simp add: Split_def)
  moreover have "TrimSpace items = items" using items_no_space [OF wire] by (simp add: items_def TrimSpace_no_space)
  moreover have "items = [] \<longleftrightarrow> ms = []" by (cases ms rule: remdups_adj.cases) (auto simp: items_def fetchItem_def)
  moreover have "ms \<noteq> [] \<Longrightarrow> Split items '','' = map fetchItem ms"
    unfolding items_def using wire_items(2) [OF wire] by (intro Split_Join) auto
  moreover have "filter (\<lambda>item. item \<noteq> []) (map fetchItem ms) = map fetchItem ms" by (auto simp: fetchItem_def filter_id_conv)
  ultimately show ?thesis
    using consumedItems_fetchItem [of ms] assms by (simp add: parseConsumedMessages_def Let_def flip: items_def)
qed

end
