(* ===== verification/TypeScript_Session.thy ===== *)
theory TypeScript_Session
  imports TypeScript_Commands Client_Guarantees Cluster
begin

text \<open>
  The TypeScript client connected to a broker. The line a command writes goes through the broker's connection
  handler, and the line that comes back reaches the client in chunks, among other requests under way.
\<close>

section \<open>A command and its answer\<close>

definition ts_request :: "nat \<Rightarrow> string \<Rightarrow> string list \<Rightarrow> Request" where
  "ts_request n cmd args = \<lparr>Version = ''V1'', CorrelationID = idOf n, Command = cmd, Args = args\<rparr>"

text \<open>A connected client may send the command with these arguments in one line.\<close>

definition ts_ready :: "ts_client \<Rightarrow> string \<Rightarrow> string list \<Rightarrow> bool" where
  "ts_ready c cmd args \<longleftrightarrow> ts_reachable c \<and> tsIssued c < 2 ^ 53 \<and> \<not> connectNeeded c \<and> tsRecvBuffer c = []
     \<and> token cmd \<and> ToUpper cmd = cmd \<and> args \<noteq> [] \<and> (\<forall>a \<in> set args. word_ok a)
     \<and> length (request_line (idOf (tsIssued c)) cmd args) \<le> max_line"

lemma issue_ready:
  assumes "ts_ready c cmd args" "call = (cmd, Join args '' '', f)"
  obtains c1 socket where "issue call c = (c1, Inr (tsIssued c))" "ts_reachable c1" "tsIssued c1 = Suc (tsIssued c)"
    "tsRecvBuffer c1 = []" "tsSettled c1 = tsSettled c" "(tsIssued c, idOf (tsIssued c)) \<in> set (tsTimers c1)"
    "tsWritten c1 = tsWritten c @ [(socket, request_line (idOf (tsIssued c)) cmd args @ [newline])]"
proof -
  have r: "ts_reachable c" "tsIssued c < 2 ^ 53" using assms(1) by (auto simp: ts_ready_def)
  then obtain ps where "ts_ok ps c" using ts_reachable_ok [of c] by auto
  then have seq: "tsCorrelationSeq c = int (tsIssued c) + 1" using r(2) by (simp add: ts_ok_def)
  obtain socket where "tsSocket c = Some socket" "tsConnected c" "tsRecvBuffer c = []"
    using assms(1) by (auto simp: ts_ready_def connectNeeded_def)
  then show thesis
    using reach_send [OF r(1), of cmd "Join args '' ''"]
    by (intro that [of "fst (issue call c)" socket])
       (simp_all add: issue_def sendCommand_def assms(2) seq Let_def buildCommandLine_def PROTOCOL_VERSION_def request_line_def)
qed

lemma call_served:
  assumes ready: "ts_ready c cmd args" and call: "call = (cmd, Join args '' '', f)" and issue: "issue call c = (c1, Inr n)"
    and handled: "handleRequest (envs 0) (ts_request n cmd args) L = Some (L', response)"
  shows "serveLine [] (snd (last (tsWritten c1))) (L, envs) = ((L', envs \<circ> Suc), Inr response)"
proof -
  have n: "n = tsIssued c" and line: "snd (last (tsWritten c1)) = request_line (idOf n) cmd args @ [newline]"
    using issue_ready [OF ready call] issue by (metis Pair_inject sum.inject(2), metis Pair_inject last_snoc snd_conv sum.inject(2))
  show ?thesis
    unfolding line using ready handled n by (intro serve_request [OF token_Itoa]) (simp_all add: ts_ready_def ts_request_def)
qed

lemma call_answered:
  assumes ready: "ts_ready c cmd args" and call: "call = (cmd, Join args '' '', f)"
    and issue: "issue call c = (c1, Inr n)"
    and served: "serveLine [] (snd (last (tsWritten c1))) (L, envs) = (srv, Inr response)" "concat chunks = response"
    and handled: "handleRequest (envs 0) (ts_request n cmd args) L = Some (L', okLine (ts_request n cmd args) payload)"
    and payload: "payload \<noteq> []" "newline \<notin> set payload" "\<not> is_space (last payload)"
  shows "srv = (L', envs \<circ> Suc) \<and> (\<exists>c2. feed chunks c1 = (c2, None) \<and> tsRecvBuffer c2 = []
    \<and> tsSettled c2 = tsSettled c @ [(n, ResolvedWith (reply_response n (Inr payload)))])"
proof -
  obtain c' socket where i: "issue call c = (c', Inr (tsIssued c))" and c': "ts_reachable c'" "tsIssued c' = Suc (tsIssued c)"
    "tsRecvBuffer c' = []" "tsSettled c' = tsSettled c" "(tsIssued c, idOf (tsIssued c)) \<in> set (tsTimers c')"
    "tsWritten c' = tsWritten c @ [(socket, request_line (idOf (tsIssued c)) cmd args @ [newline])]"
    by (rule issue_ready [OF ready call])
  have n: "n = tsIssued c" "c' = c1" using i issue by simp_all
  have "tsIssued c1 \<le> 2 ^ 53" using ready c'(2) unfolding n(2) ts_ready_def by (metis Suc_leI)
  note c1 = c'(1) [unfolded n(2)] this c'(3-5) [unfolded n(2), folded n(1)]
  note call_served [where envs = envs, OF ready call issue handled]
  then have srv: "srv = (L', envs \<circ> Suc)" and resp: "concat chunks = reply_line n (Inr payload)"
    using served by (auto simp: okLine_def ts_request_def)
  obtain ps where ok: "ts_ok ps c1" using ts_reachable_ok [OF c1(1,2)] ..
  then have "\<forall>(p, r) \<in> set [(n, Inr payload)]. p \<in> set ps \<and> reply_ok r" using c1(5) payload by (auto simp: ts_ok_def)
  from handleBuffer_replies [OF ok _ this] obtain c2 where c2: "handleData (concat chunks) c1 = (c2, None)" "tsRecvBuffer c2 = []"
    "tsSettled c2 = tsSettled c1 @ [(n, reply_outcome n (Inr payload))]"
    using c1(3) resp by (auto simp: handleData_def)
  have "feed chunks c1 = (c2, None)" using feed_concat [of c1 chunks] c1(3) c2(1) by simp
  then show ?thesis using srv c2(2,3) c1(4) by (simp add: reply_outcome_def)
qed

section \<open>Consuming\<close>

lemma consume_payload:
  assumes "\<forall>m \<in> set ms. ts_value (Value m)"
    and payload_def: "payload = ''messages='' @ Join (map fetchItem ms) '','' @ '' hw='' @ Itoa hw"
  shows "newline \<notin> set payload" "\<not> is_space (last payload)"
proof -
  have "\<forall>c \<in> set (Itoa hw). \<not> is_space c" using word_ok_Itoa [of hw] by (simp add: word_ok_def)
  moreover have "\<forall>c \<in> set (Join (map fetchItem ms) '',''). \<not> is_space c" using assms(1) by (intro items_no_space) (simp add: ts_value_def)
  moreover have "is_space newline" by (simp add: newline_def is_space_def)
  ultimately show "newline \<notin> set payload" "\<not> is_space (last payload)"
    by (auto simp: payload_def newline_def last_in_set)
qed

lemma handle_ts_consume:
  assumes "broker_ok L" "plain_topic t" "int64_ok p" "int64_ok off" "0 \<le> off"
    and "map_of (Topics (metadata (bController L))) t = Some tm" "map_of (tmPartitions tm) p = Some pm"
    and "HighWatermark (tick env 1) t p (bReplication L) = (m, hw)"
    and "req = ts_request n ''CONSUME'' [t, Itoa p, Itoa off]"
  shows "handleRequest env req L = Some (L\<lparr>bReplication := m\<rparr>,
    okLine req (''messages='' @ Join (map fetchItem (visible (bStorage L) t p off hw)) '','' @ '' hw='' @ Itoa hw))"
proof -
  have "handleConsume env req L = Some (L\<lparr>bReplication := m\<rparr>,
      okLine req (''messages='' @ Join (map fetchItem (visible (bStorage L) t p off hw)) '','' @ '' hw='' @ Itoa hw))"
    using handleConsume_visible [OF assms(1,2), of req "Itoa p" "Itoa off" p off tm pm env] assms(3-9)
    by (auto simp: ts_request_def)
  then show ?thesis by (simp add: handleRequest_def assms(9) ts_request_def)
qed

text \<open>
  C13. What the TypeScript client's \<open>consume\<close> resolves with is what the broker shows. The line the call writes goes
  through the connection handler of a reachable broker, the answer comes back in any chunks while other requests may
  be under way, and the promise of the call is settled with a response whose messages are the visible records from
  the requested position on, with their offsets and values: for values without commas, white space and the text
  \<open>messages=\<close>, and offsets that a double holds exactly.
\<close>

theorem ts_consume_visible:
  assumes "ts_ready c ''CONSUME'' [t, Itoa p, Itoa off]" "issue (ts_consume t p off) c = (c1, Inr n)"
    and "serveLine [] (snd (last (tsWritten c1))) (L, envs) = (srv, Inr response)" "concat chunks = response"
    and "broker_ok L" "plain_topic t" "int64_ok p" "int64_ok off" "0 \<le> off"
    and "map_of (Topics (metadata (bController L))) t = Some tm" "map_of (tmPartitions tm) p = Some pm"
    and "HighWatermark (tick (envs 0) 1) t p (bReplication L) = (m, hw)"
    and "\<forall>r \<in> set (visible (bStorage L) t p off hw). ts_value (Value r) \<and> \<bar>Offset r\<bar> \<le> 2 ^ 53"
  shows "\<exists>c2 outcome. feed chunks c1 = (c2, None) \<and> tsSettled c2 = tsSettled c @ [(n, outcome)]
    \<and> ts_result (ts_consume t p off) outcome = Inr (map ts_received (visible (bStorage L) t p off hw))"
proof -
  let ?args = "[t, Itoa p, Itoa off]" and ?ms = "visible (bStorage L) t p off hw"
  define payload where "payload = ''messages='' @ Join (map fetchItem ?ms) '','' @ '' hw='' @ Itoa hw"
  note h = handle_ts_consume [where env = "envs 0", OF assms(5-12) refl, folded payload_def, of n]
  have call: "ts_consume t p off = (''CONSUME'', Join ?args '' '', snd (snd (ts_consume t p off)))" by (simp add: ts_consume_def)
  have pay: "payload \<noteq> []" "newline \<notin> set payload" "\<not> is_space (last payload)"
    using consume_payload [OF _ payload_def] assms(13) by (auto simp: payload_def)
  obtain c2 where "feed chunks c1 = (c2, None)" "tsSettled c2 = tsSettled c @ [(n, ResolvedWith (reply_response n (Inr payload)))]"
    using call_answered [where envs = envs, OF assms(1) call assms(2-4) h pay] by blast
  moreover have "ts_result (ts_consume t p off) (ResolvedWith (reply_response n (Inr payload))) = Inr (map ts_received ?ms)"
    using parseConsumedMessages_read_back [OF assms(13), of hw, folded payload_def]
    by (simp add: ts_result_def ts_consume_def withPayload_def mustGetPayload_def reply_response_def)
  ultimately show ?thesis by blast
qed

theorem ts_consume_visible_witness:
  "\<exists>c1 srv response c2 outcome. issue (ts_consume ''orders'' 0 0) ts_sample = (c1, Inr 2)
     \<and> serveLine [] (snd (last (tsWritten c1))) (stored_broker, \<lambda>_. sample_env) = (srv, Inr response)
     \<and> feed [take 5 response, drop 5 response] c1 = (c2, None) \<and> tsSettled c2 = [(2, outcome)]
     \<and> ts_result (ts_consume ''orders'' 0 0) outcome = Inr [\<lparr>msOffset = Num 0, msValue = ''hello''\<rparr>]"
proof -
  let ?envs = "\<lambda>_ :: nat. sample_env" and ?args = "[''orders'', Itoa 0, Itoa 0]"
  obtain tm pm where t: "map_of (Topics (metadata (bController stored_broker))) ''orders'' = Some tm" "map_of (tmPartitions tm) 0 = Some pm"
    by (simp add: stored_broker_def leading_broker_def small_cluster_eval)
  obtain m hw where h: "HighWatermark (tick sample_env 1) ''orders'' 0 (bReplication stored_broker) = (m, hw)" by force
  have "snd (HighWatermark (110 * Second) ''orders'' 0 (OnLeaderAppend 1 ''orders'' 0 0 (NewManager sample_config False))) = 0"
    by code_simp
  then have hw: "hw = 0" using h by (simp add: stored_broker_def sample_env_def)
  have "cachedMessages (bStorage stored_broker) ''orders'' 0 = [\<lparr>Offset = 0, Value = ''hello''\<rparr>]"
    "nextAt (bStorage stored_broker) ''orders'' 0 = 1"
    by (rule sample_produced, simp add: stored_broker_def)+
  then have v: "visible (bStorage stored_broker) ''orders'' 0 0 0 = [\<lparr>Offset = 0, Value = ''hello''\<rparr>]" by (simp add: visible_def)
  have val: "ts_value ''hello''" by (simp add: ts_value_def wire_value_def is_space_def Contains_def)
  have "\<not> connectNeeded ts_sample" "ToUpper ''CONSUME'' = ''CONSUME''" "token ''CONSUME''" "word_ok (Itoa 0)"
    "length (request_line (Itoa 3) ''CONSUME'' ?args) \<le> 100" "word_ok ''orders''" by code_simp+
  then have ready: "ts_ready ts_sample ''CONSUME'' ?args"
    using ts_sample_reachable by (simp add: ts_ready_def ts_sample_simps max_line_def)
  have call: "ts_consume ''orders'' 0 0 = (''CONSUME'', Join ?args '' '', snd (snd (ts_consume ''orders'' 0 0)))"
    by (simp add: ts_consume_def)
  obtain c1 where c1: "issue (ts_consume ''orders'' 0 0) ts_sample = (c1, Inr 2)"
    using issue_ready [OF ready call] by (metis ts_sample_simps(1))
  have int0: "int64_ok 0" by (simp add: int64_ok_def)
  obtain srv response where r: "serveLine [] (snd (last (tsWritten c1))) (stored_broker, ?envs) = (srv, Inr response)"
    using call_served [where envs = ?envs, OF ready call c1 handle_ts_consume [OF stored_broker_ok sample_recoverable(1) int0 int0 _ t h refl]]
    by auto
  show ?thesis
    using ts_consume_visible [where envs = ?envs, OF ready c1 r _ stored_broker_ok sample_recoverable(1) int0 int0 _ t h,
        of "[take 5 response, drop 5 response]"] c1 r v hw val
    by (fastforce simp: ts_received_def ts_sample_simps)
qed

text \<open>A value that contains the text the parser splits at is cut off there, with all records after it.\<close>

lemma value_cuts_off_records:
  "parseConsumedMessages (''messages='' @ Join (map fetchItem [\<lparr>Offset = 0, Value = ''xmessages=y''\<rparr>, \<lparr>Offset = 1, Value = ''z''\<rparr>]) '',''
       @ '' hw='' @ Itoa 1) = Inr [\<lparr>msOffset = Num 0, msValue = ''x''\<rparr>]"
  by code_simp

end
