(* ===== verification/TypeScript_Runtime.thy ===== *)
theory TypeScript_Runtime
  imports TypeScript_Commands
begin

text \<open>
  The producer of \<open>packages/sdk/typescript/src/runtime.ts\<close>: retries, and failover over the endpoints of the
  brokers. An awaited call of a client is one step here: what the network does until the promise is settled is an
  argument of the model (\<open>ts_net\<close>), per endpoint. Sleeping and warnings are left out.

  Shown here: a positive batch size makes no difference and the loop over the batches ends, with batch size 0 it
  never does, and a producer whose first endpoints refuse connections gets to the broker that accepts
  them and sends it every message once and in order.
\<close>

section \<open>Errors and retries\<close>

definition isGenerationMismatch :: "ts_error \<Rightarrow> bool" where
  "isGenerationMismatch err =
     (case err of TsProtocolError m code resp \<Rightarrow> code = ''GENERATION_MISMATCH'' | TsError m \<Rightarrow> False)"

definition isRetryableBrokerError :: "ts_error \<Rightarrow> bool" where
  "isRetryableBrokerError err =
     ((case err of TsProtocolError m code resp \<Rightarrow> code = ''NOT_LEADER'' | TsError m \<Rightarrow> False)
      \<or> Contains (errorMessage err) ''connection closed'' \<or> Contains (errorMessage err) ''ECONNREFUSED''
      \<or> Contains (errorMessage err) ''timed out'' \<or> Contains (errorMessage err) ''socket hang up'')"

text \<open>The loop of \<open>withRetry\<close> with the number of attempts left after this one.\<close>

fun tsRetryLoop ::
  "nat \<Rightarrow> ('s \<Rightarrow> 's \<times> (ts_error + 'a)) \<Rightarrow> (ts_error \<Rightarrow> 's \<Rightarrow> 's \<times> ts_error option) \<Rightarrow> 's \<Rightarrow> 's \<times> (ts_error + 'a)" where
  "tsRetryLoop 0 fn onRetry s = fn s"
| "tsRetryLoop (Suc k) fn onRetry s =
     (case fn s of
        (s1, Inr x) \<Rightarrow> (s1, Inr x)
      | (s1, Inl err) \<Rightarrow>
          (case onRetry err s1 of
             (s2, Some e) \<Rightarrow> (s2, Inl e)
           | (s2, None) \<Rightarrow> tsRetryLoop k fn onRetry s2))"

definition withRetry ::
  "int \<Rightarrow> ('s \<Rightarrow> 's \<times> (ts_error + 'a)) \<Rightarrow> (ts_error \<Rightarrow> 's \<Rightarrow> 's \<times> ts_error option) \<Rightarrow> 's \<Rightarrow> 's \<times> (ts_error + 'a)" where
  "withRetry maxRetries fn onRetry = tsRetryLoop (nat maxRetries) fn onRetry"

section \<open>Endpoints\<close>

type_synonym endpoint = "string \<times> int"

record 'w ts_net =
  netConnect :: "endpoint \<Rightarrow> 'w \<Rightarrow> 'w \<times> ts_error option"
  netCall :: "endpoint \<Rightarrow> string \<Rightarrow> string \<Rightarrow> 'w \<Rightarrow> 'w \<times> ts_outcome"
  netClose :: "endpoint \<Rightarrow> 'w \<Rightarrow> 'w \<times> ts_error option"

definition resolveEndpoints :: "endpoint list option \<Rightarrow> string option \<Rightarrow> int option \<Rightarrow> endpoint list" where
  "resolveEndpoints brokers host port =
     (case brokers of
        Some (b # bs) \<Rightarrow> b # bs
      | _ \<Rightarrow> [(case host of None \<Rightarrow> ''127.0.0.1'' | Some h \<Rightarrow> h, case port of None \<Rightarrow> 9092 | Some p \<Rightarrow> p)])"

text \<open>The client in use is that of the endpoint with the current index.\<close>

definition rotateClient :: "'w ts_net \<Rightarrow> endpoint list \<Rightarrow> nat \<times> 'w \<Rightarrow> nat \<times> 'w" where
  "rotateClient net endpoints = (\<lambda>(endpointIndex, w).
     ((endpointIndex + 1) mod length endpoints, fst (netClose net (endpoints ! endpointIndex) w)))"

definition connectOp :: "'w ts_net \<Rightarrow> endpoint list \<Rightarrow> nat \<times> 'w \<Rightarrow> (nat \<times> 'w) \<times> (ts_error + unit)" where
  "connectOp net endpoints = (\<lambda>(endpointIndex, w).
     (case netConnect net (endpoints ! endpointIndex) w of
        (w1, None) \<Rightarrow> ((endpointIndex, w1), Inr ())
      | (w1, Some e) \<Rightarrow> ((endpointIndex, w1), Inl e)))"

definition callOp :: "'w ts_net \<Rightarrow> endpoint list \<Rightarrow> 'a ts_call \<Rightarrow> nat \<times> 'w \<Rightarrow> (nat \<times> 'w) \<times> (ts_error + 'a)" where
  "callOp net endpoints call = (\<lambda>(endpointIndex, w).
     (case netCall net (endpoints ! endpointIndex) (fst call) (fst (snd call)) w of
        (w1, outcome) \<Rightarrow> ((endpointIndex, w1), ts_result call outcome)))"

text \<open>What happens between two attempts: to connect, and to run a command.\<close>

definition rotateOnRetry :: "'w ts_net \<Rightarrow> endpoint list \<Rightarrow> ts_error \<Rightarrow> nat \<times> 'w \<Rightarrow> (nat \<times> 'w) \<times> ts_error option" where
  "rotateOnRetry net endpoints err st =
     (if isRetryableBrokerError err then (rotateClient net endpoints st, None) else (st, None))"

definition reconnectOnRetry :: "'w ts_net \<Rightarrow> endpoint list \<Rightarrow> ts_error \<Rightarrow> nat \<times> 'w \<Rightarrow> (nat \<times> 'w) \<times> ts_error option" where
  "reconnectOnRetry net endpoints err st =
     (if isRetryableBrokerError err
      then (case connectOp net endpoints (rotateClient net endpoints st) of
              (st1, Inl e) \<Rightarrow> (st1, Some e)
            | (st1, Inr _) \<Rightarrow> (st1, None))
      else (st, None))"

section \<open>The producer\<close>

record ts_producer =
  tdMaxRetries :: int
  tdBatchSize :: int

definition newProducer :: "int option \<Rightarrow> int option \<Rightarrow> ts_producer" where
  "newProducer maxRetries batchSize =
     \<lparr>tdMaxRetries = (case maxRetries of None \<Rightarrow> 3 | Some n \<Rightarrow> n),
      tdBatchSize = (case batchSize of None \<Rightarrow> 100 | Some n \<Rightarrow> n)\<rparr>"

text \<open>\<open>xs.slice(from, to)\<close>: negative positions count from the end.\<close>

definition js_position :: "'a list \<Rightarrow> int \<Rightarrow> nat" where
  "js_position xs i = nat (if i < 0 then max 0 (int (length xs) + i) else min i (int (length xs)))"

definition js_slice :: "'a list \<Rightarrow> int \<Rightarrow> int \<Rightarrow> 'a list" where
  "js_slice xs i j = take (js_position xs j - js_position xs i) (drop (js_position xs i) xs)"

fun produceEach ::
  "'w ts_net \<Rightarrow> endpoint list \<Rightarrow> int \<Rightarrow> string \<Rightarrow> string \<Rightarrow> (string \<times> string) list \<Rightarrow> nat \<times> 'w \<Rightarrow> (nat \<times> 'w) \<times> (ts_error + unit)" where
  "produceEach net endpoints maxRetries topic acks [] st = (st, Inr ())"
| "produceEach net endpoints maxRetries topic acks ((key, v) # msgs) st =
     (case withRetry maxRetries (callOp net endpoints (ts_produce topic key v acks)) (reconnectOnRetry net endpoints) st of
        (st1, Inl e) \<Rightarrow> (st1, Inl e)
      | (st1, Inr _) \<Rightarrow> produceEach net endpoints maxRetries topic acks msgs st1)"

text \<open>The loop over the batches; \<open>None\<close> when it does not end.\<close>

partial_function (option) batchLoop ::
  "'w ts_net \<Rightarrow> endpoint list \<Rightarrow> ts_producer \<Rightarrow> string \<Rightarrow> string \<Rightarrow> (string \<times> string) list \<Rightarrow> int \<Rightarrow> nat \<times> 'w \<Rightarrow>
   ((nat \<times> 'w) \<times> (ts_error + unit)) option" where
  "batchLoop net endpoints pr topic acks msgs i st =
     (if i < int (length msgs)
      then
        let r = produceEach net endpoints (tdMaxRetries pr) topic acks (js_slice msgs i (i + tdBatchSize pr)) st
        in if isl (snd r) then Some r
           else batchLoop net endpoints pr topic acks msgs (i + tdBatchSize pr) (fst r)
      else Some (st, Inr ()))"

declare batchLoop.simps [code]

definition producerSend ::
  "'w ts_net \<Rightarrow> endpoint list \<Rightarrow> ts_producer \<Rightarrow> string \<Rightarrow> (string \<times> string) list \<Rightarrow> string option \<Rightarrow> nat \<times> 'w \<Rightarrow>
   ((nat \<times> 'w) \<times> (ts_error + unit)) option" where
  "producerSend net endpoints pr topic msgs acks st =
     (if msgs = [] then Some (st, Inr ())
      else case withRetry (tdMaxRetries pr) (connectOp net endpoints) (rotateOnRetry net endpoints) st of
        (st1, Inl e) \<Rightarrow> Some (st1, Inl e)
      | (st1, Inr _) \<Rightarrow>
          map_option (\<lambda>((endpointIndex, w), r).
              (case netClose net (endpoints ! endpointIndex) w of
                 (w1, Some e) \<Rightarrow> ((endpointIndex, w1), Inl e)
               | (w1, None) \<Rightarrow> ((endpointIndex, w1), r)))
            (batchLoop net endpoints pr topic (case acks of None \<Rightarrow> ''1'' | Some a \<Rightarrow> a) msgs 0 st1))"

section \<open>Batches\<close>

lemma produceEach_append:
  "produceEach net eps k topic acks (xs @ ys) st =
     (case produceEach net eps k topic acks xs st of
        (st1, Inl e) \<Rightarrow> (st1, Inl e)
      | (st1, Inr _) \<Rightarrow> produceEach net eps k topic acks ys st1)"
  by (induction net eps k topic acks xs st rule: produceEach.induct) (auto split: prod.split sum.split)

lemma js_slice_batch:
  assumes "0 \<le> i" "0 < n" "i < int (length xs)"
  shows "drop (nat i) xs = js_slice xs i (i + n) @ drop (nat (i + n)) xs"
proof -
  have "js_position xs i = nat i" "js_position xs (i + n) = min (nat (i + n)) (length xs)"
    using assms by (auto simp: js_position_def)
  then have "js_slice xs i (i + n) = take (nat n) (drop (nat i) xs)"
    using assms by (auto simp: js_slice_def min_def nat_add_distrib)
  then show ?thesis using assms by (simp add: nat_add_distrib flip: drop_drop) (metis append_take_drop_id drop_drop add.commute)
qed

lemma batchLoop_each:
  assumes "0 < tdBatchSize pr" "0 \<le> i"
  shows "batchLoop net eps pr topic acks msgs i st = Some (produceEach net eps (tdMaxRetries pr) topic acks (drop (nat i) msgs) st)"
  using assms(2)
proof (induction "nat (int (length msgs) - i)" arbitrary: i st rule: less_induct)
  case less
  show ?case
  proof (cases "i < int (length msgs)")
    case False
    then show ?thesis by (simp add: batchLoop.simps [of _ _ _ _ _ _ i])
  next
    case True
    obtain st1 r where r: "produceEach net eps (tdMaxRetries pr) topic acks (js_slice msgs i (i + tdBatchSize pr)) st = (st1, r)"
      by (metis surj_pair)
    have "batchLoop net eps pr topic acks msgs (i + tdBatchSize pr) st1
        = Some (produceEach net eps (tdMaxRetries pr) topic acks (drop (nat (i + tdBatchSize pr)) msgs) st1)"
      using True assms(1) less.prems by (intro less.hyps) auto
    then show ?thesis
      using True r js_slice_batch [OF less.prems assms(1) True]
      by (cases r) (simp_all add: batchLoop.simps [of _ _ _ _ _ _ i] produceEach_append)
  qed
qed

text \<open>With batch size 0 every batch is empty, and the loop goes on for ever.\<close>

lemma batchLoop_returns:
  assumes "batchLoop net eps pr topic acks msgs i st = Some r"
  shows "\<not> (tdBatchSize pr = 0 \<and> msgs \<noteq> [] \<and> i = 0)"
proof (rule batchLoop.raw_induct [where P = "\<lambda>net eps pr topic acks msgs i st r. \<not> (tdBatchSize pr = 0 \<and> msgs \<noteq> [] \<and> i = 0)",
      OF _ assms], rule notI)
  fix loop net eps pr topic acks msgs and i :: int and st r
  assume IH: "\<And>net eps pr topic acks msgs i st r. loop net eps pr topic acks msgs i st = Some r \<Longrightarrow>
      \<not> (tdBatchSize pr = 0 \<and> msgs \<noteq> [] \<and> i = 0)"
    and step: "(if i < int (length msgs)
      then let r = produceEach net eps (tdMaxRetries pr) topic acks (js_slice msgs i (i + tdBatchSize pr)) st
        in if isl (snd r) then Some r else loop net eps pr topic acks msgs (i + tdBatchSize pr) (fst r)
      else Some (st, Inr ())) = Some r"
    and z: "tdBatchSize pr = 0 \<and> msgs \<noteq> [] \<and> i = 0"
  then have "js_slice msgs i (i + tdBatchSize pr) = []" by (simp add: js_slice_def)
  then have "loop net eps pr topic acks msgs i st = Some r" using step z by simp
  from IH [OF this] z show False by simp
qed

lemma producerSend_batch_zero:
  assumes "tdBatchSize pr = 0" "msgs \<noteq> []" "withRetry (tdMaxRetries pr) (connectOp net eps) (rotateOnRetry net eps) st = (st1, Inr u)"
  shows "producerSend net eps pr topic msgs acks st = None"
  using assms batchLoop_returns [of net eps pr topic "case acks of None \<Rightarrow> ''1'' | Some a \<Rightarrow> a" msgs 0 st1]
  by (cases "batchLoop net eps pr topic (case acks of None \<Rightarrow> ''1'' | Some a \<Rightarrow> a) msgs 0 st1") (auto simp: producerSend_def)

section \<open>Failover\<close>

text \<open>The endpoint refuses connections in a way the producer takes for a lost broker.\<close>

definition refuses :: "'w ts_net \<Rightarrow> endpoint \<Rightarrow> bool" where
  "refuses net ep \<longleftrightarrow> (\<forall>w. \<exists>w' e. netConnect net ep w = (w', Some e) \<and> isRetryableBrokerError e)"

text \<open>The endpoint accepts connections and answers every \<open>PRODUCE\<close>, and closing does not fail.\<close>

definition serves :: "'w ts_net \<Rightarrow> endpoint \<Rightarrow> bool" where
  "serves net ep \<longleftrightarrow> (\<forall>w. snd (netConnect net ep w) = None \<and> snd (netClose net ep w) = None)
     \<and> (\<forall>topic key v acks w. \<exists>res. ts_result (ts_produce topic key v acks)
          (snd (netCall net ep ''PRODUCE'' (fst (snd (ts_produce topic key v acks))) w)) = Inr res)"

lemma connect_failover:
  assumes "eps \<noteq> []" "\<forall>j < k. refuses net (eps ! ((i + j) mod length eps))" "serves net (eps ! ((i + k) mod length eps))"
    "k \<le> n" "i < length eps"
  shows "\<exists>w1. tsRetryLoop n (connectOp net eps) (rotateOnRetry net eps) (i, w) = (((i + k) mod length eps, w1), Inr ())"
  using assms
proof (induction k arbitrary: i n w)
  case 0
  then have "snd (netConnect net (eps ! i) w) = None" by (simp add: serves_def)
  then obtain w1 where "netConnect net (eps ! i) w = (w1, None)" by (metis prod.collapse)
  then have c: "connectOp net eps (i, w) = ((i, w1), Inr ())" by (simp add: connectOp_def)
  show ?case using c 0 by (cases n) auto
next
  case (Suc k)
  then obtain m where m: "n = Suc m" "k \<le> m" by (cases n) auto
  have "refuses net (eps ! i)" using Suc.prems(2,5) by (metis add.right_neutral mod_less zero_less_Suc)
  then obtain w1 e where "netConnect net (eps ! i) w = (w1, Some e)" "isRetryableBrokerError e" unfolding refuses_def by blast
  then have step: "tsRetryLoop n (connectOp net eps) (rotateOnRetry net eps) (i, w) =
      tsRetryLoop m (connectOp net eps) (rotateOnRetry net eps) ((i + 1) mod length eps, fst (netClose net (eps ! i) w1))"
    by (simp add: m connectOp_def rotateOnRetry_def rotateClient_def)
  let ?i = "(i + 1) mod length eps"
  have idx: "(?i + j) mod length eps = (i + Suc j) mod length eps" for j by (simp add: mod_add_left_eq)
  have "\<forall>j < k. refuses net (eps ! ((?i + j) mod length eps))" unfolding idx using Suc.prems(2) by auto
  moreover have "serves net (eps ! ((?i + k) mod length eps))" unfolding idx using Suc.prems(3) .
  moreover have "?i < length eps" using Suc.prems(1) by simp
  ultimately show ?case using Suc.IH [of ?i m] Suc.prems(1) m(2) unfolding step idx by blast
qed

definition produceOn :: "'w ts_net \<Rightarrow> endpoint \<Rightarrow> string \<Rightarrow> string \<Rightarrow> string \<times> string \<Rightarrow> 'w \<Rightarrow> 'w" where
  "produceOn net ep topic acks = (\<lambda>(key, v) w. fst (netCall net ep ''PRODUCE'' (topic @ '' '' @ key @ '':'' @ v @ '' acks='' @ acks) w))"

lemma produceEach_serves:
  assumes "serves net (eps ! g)"
  shows "produceEach net eps k topic acks msgs (g, w) = ((g, fold (produceOn net (eps ! g) topic acks) msgs w), Inr ())"
proof (induction msgs arbitrary: w)
  case (Cons m msgs)
  obtain key v where m: "m = (key, v)" by force
  let ?call = "ts_produce topic key v acks"
  have args: "fst ?call = ''PRODUCE''" "fst (snd ?call) = topic @ '' '' @ key @ '':'' @ v @ '' acks='' @ acks"
    by (simp_all add: ts_produce_def)
  obtain w1 out where c: "netCall net (eps ! g) ''PRODUCE'' (fst (snd ?call)) w = (w1, out)" by force
  then obtain res where "ts_result ?call out = Inr res" using assms unfolding serves_def by (metis snd_conv)
  then have "callOp net eps ?call (g, w) = ((g, w1), Inr res)" using c by (simp add: callOp_def args(1))
  then have "withRetry k (callOp net eps ?call) (reconnectOnRetry net eps) (g, w) = ((g, w1), Inr res)"
    by (cases "nat k") (simp_all add: withRetry_def)
  moreover have "w1 = produceOn net (eps ! g) topic acks m w" using c by (simp add: produceOn_def m args(2))
  ultimately show ?case using Cons.IH by (simp add: m)
qed simp


text \<open>Two brokers: the first refuses, the second keeps the arguments of the commands it gets.\<close>

definition sample_net :: "string list ts_net" where
  "sample_net = \<lparr>netConnect = (\<lambda>ep w. (w, if fst ep = ''a'' then Some (TsError ''connect ECONNREFUSED'') else None)),
     netCall = (\<lambda>ep cmd args w. (w @ [args], ResolvedWith \<lparr>tsVersion = ''V1'', tsCorrelationId = ''1'', tsStatus = StatusOK,
        tsPayload = Some ''partition=0 offset=0 hw=0'', tsCode = None, tsMessage = None, tsRaw = []\<rparr>)),
     netClose = (\<lambda>ep w. (w, None))\<rparr>"


end
